theory Spec2Isabelle
  imports Main "HOL-Library.AList" "HOL-Library.Sublist"
begin

section \<open>Settings documents and the Python operations on them\<close>

text \<open>
  Failures the run can end in.  \<open>Unmodelled\<close> marks the one place where the model
  stops although Python would go on: \<open>dict(x)\<close> of a non-empty list, which may build
  a mapping with keys that are not strings.
\<close>

datatype error = FileNotFoundError | SameFileError | ValueError | TypeError | AttributeError
  | KeyError | JSONDecodeError | UnicodeDecodeError | RecursionError | Unmodelled

text \<open>
  What \<open>except OSError\<close> catches, of these: \<open>FileNotFoundError\<close> and
  \<open>shutil.SameFileError\<close> are subclasses of \<open>OSError\<close>.  \<open>JSONDecodeError\<close> and
  \<open>UnicodeDecodeError\<close> are subclasses of \<open>ValueError\<close>, and neither is one of the other.
\<close>

definition is_OSError :: "error \<Rightarrow> bool" where
  "is_OSError er = (er = FileNotFoundError \<or> er = SameFileError)"

text \<open>
  What \<open>json.loads\<close> returns: a tree of fresh, unshared objects.  A mapping keeps its
  insertion order and has each key once.  Numbers are integers; floating point values
  are left out.
\<close>

datatype json =
    JNull
  | JBool bool
  | JInt int
  | JStr string
  | JList "json list"
  | JDict "(string \<times> json) list"

type_synonym dict = "(string \<times> json) list"

lemma size_map_of [termination_simp]:
  "map_of d k = Some v \<Longrightarrow> size v < Suc (size_list (size_prod (\<lambda>x. 0) size) d)"
  by (induction d) (auto split: if_splits)

text \<open>
  Python's \<open>==\<close> on these values: \<open>True == 1\<close> and \<open>False == 0\<close>, lists are compared
  elementwise, mappings as mappings, whatever the order of their keys.
\<close>

fun py_eq :: "json \<Rightarrow> json \<Rightarrow> bool" where
  "py_eq JNull JNull = True"
| "py_eq (JBool a) (JBool b) = (a = b)"
| "py_eq (JBool a) (JInt n) = ((if a then 1 else 0) = n)"
| "py_eq (JInt n) (JBool a) = (n = (if a then 1 else 0))"
| "py_eq (JInt m) (JInt n) = (m = n)"
| "py_eq (JStr s) (JStr t) = (s = t)"
| "py_eq (JList xs) (JList ys) = list_all2 py_eq xs ys"
| "py_eq (JDict a) (JDict b) =
     (length a = length b \<and>
      list_all (\<lambda>(k, v). case map_of b k of None \<Rightarrow> False | Some v' \<Rightarrow> py_eq v v') a)"
| "py_eq _ _ = False"

text \<open>\<open>item in xs\<close> for a list \<open>xs\<close>.\<close>

definition py_in :: "json \<Rightarrow> json list \<Rightarrow> bool" where
  "py_in item xs = list_ex (\<lambda>x. py_eq x item) xs"

text \<open>Truth value of a document, as in \<open>if existing\<close>.\<close>

fun py_truthy :: "json \<Rightarrow> bool" where
  "py_truthy JNull = False"
| "py_truthy (JBool b) = b"
| "py_truthy (JInt n) = (n \<noteq> 0)"
| "py_truthy (JStr s) = (s \<noteq> [])"
| "py_truthy (JList xs) = (xs \<noteq> [])"
| "py_truthy (JDict d) = (d \<noteq> [])"

fun is_substring :: "string \<Rightarrow> string \<Rightarrow> bool" where
  "is_substring t [] = (t = [])"
| "is_substring t (c # cs) = (prefix t (c # cs) \<or> is_substring t cs)"

text \<open>
  \<open>item in container\<close> for any container: membership in a list, substring of a
  string, key of a mapping; \<open>TypeError\<close> where Python raises it.
\<close>

fun py_contains :: "json \<Rightarrow> json \<Rightarrow> error + bool" where
  "py_contains (JList xs) item = Inr (py_in item xs)"
| "py_contains (JStr s) (JStr t) = Inr (is_substring t s)"
| "py_contains (JStr s) item = Inl TypeError"
| "py_contains (JDict d) (JStr k) = Inr (map_of d k \<noteq> None)"
| "py_contains (JDict d) (JList xs) = Inl TypeError"
| "py_contains (JDict d) (JDict x) = Inl TypeError"
| "py_contains (JDict d) item = Inr False"
| "py_contains container item = Inl TypeError"

fun py_append :: "json \<Rightarrow> json \<Rightarrow> error + json" where
  "py_append (JList xs) item = Inr (JList (xs @ [item]))"
| "py_append container item = Inl AttributeError"

text \<open>\<open>for item in v\<close>: the elements of a list, the characters of a string, the keys of a
  mapping.\<close>

fun py_iter :: "json \<Rightarrow> error + json list" where
  "py_iter (JList xs) = Inr xs"
| "py_iter (JStr s) = Inr (map (\<lambda>c. JStr [c]) s)"
| "py_iter (JDict d) = Inr (map (\<lambda>(k, v). JStr k) d)"
| "py_iter v = Inl TypeError"

fun py_getitem :: "json \<Rightarrow> string \<Rightarrow> error + json" where
  "py_getitem (JDict d) k = (case map_of d k of None \<Rightarrow> Inl KeyError | Some v \<Rightarrow> Inr v)"
| "py_getitem v k = Inl TypeError"

fun py_dict :: "json \<Rightarrow> error + dict" where
  "py_dict (JDict d) = Inr d"
| "py_dict (JList []) = Inr []"
| "py_dict (JList (x # xs)) = Inl Unmodelled"
| "py_dict (JStr []) = Inr []"
| "py_dict (JStr (c # cs)) = Inl ValueError"
| "py_dict v = Inl TypeError"

text \<open>The loop \<open>for item in items: if item not in base_list: base_list.append(item)\<close>.\<close>

fun append_missing :: "json \<Rightarrow> json list \<Rightarrow> error + json" where
  "append_missing base_list [] = Inr base_list"
| "append_missing base_list (item # items) =
     (case py_contains base_list item of
        Inl er \<Rightarrow> Inl er
      | Inr True \<Rightarrow> append_missing base_list items
      | Inr False \<Rightarrow>
          (case py_append base_list item of
             Inl er \<Rightarrow> Inl er
           | Inr bl \<Rightarrow> append_missing bl items))"

subsection \<open>deep_merge_settings\<close>

text \<open>The inner loop of \<open>deep_merge_settings\<close> on two lists.\<close>

fun append_new :: "json list \<Rightarrow> json list \<Rightarrow> json list" where
  "append_new acc [] = acc"
| "append_new acc (item # items) =
     append_new (if py_in item acc then acc else acc @ [item]) items"

text \<open>
  The document \<open>deep_merge_settings\<close> returns.  The first argument is \<open>merged\<close>, which
  starts as the copy \<open>dict(base)\<close>; the second is what is left of \<open>overlay.items()\<close>.
  \<open>merge_key\<close> is one round of the loop.
\<close>

fun deep_merge_settings :: "dict \<Rightarrow> dict \<Rightarrow> dict"
  and merge_key :: "dict \<Rightarrow> string \<Rightarrow> json \<Rightarrow> dict" where
  "deep_merge_settings merged [] = merged"
| "deep_merge_settings merged ((key, value) # overlay) =
     deep_merge_settings (merge_key merged key value) overlay"
| "merge_key merged key (JDict v) =
     (case map_of merged key of
        Some (JDict b) \<Rightarrow> AList.update key (JDict (deep_merge_settings b v)) merged
      | _ \<Rightarrow> AList.update key (JDict v) merged)"
| "merge_key merged key (JList ys) =
     (case map_of merged key of
        Some (JList xs) \<Rightarrow> AList.update key (JList (append_new xs ys)) merged
      | _ \<Rightarrow> AList.update key (JList ys) merged)"
| "merge_key merged key value = AList.update key value merged"

text \<open>
  The copy is shallow, so the lists that \<open>merged\<close> extends are the lists of \<open>base\<close>,
  and the nested mappings it recurses into are those of \<open>base\<close>.  This is the value of
  the caller's \<open>base\<close> after the call, for unshared trees.
\<close>

fun deep_merge_base :: "dict \<Rightarrow> dict \<Rightarrow> dict"
  and base_key :: "dict \<Rightarrow> string \<Rightarrow> json \<Rightarrow> dict" where
  "deep_merge_base base [] = base"
| "deep_merge_base base ((key, value) # overlay) =
     deep_merge_base (base_key base key value) overlay"
| "base_key base key (JDict v) =
     (case map_of base key of
        Some (JDict b) \<Rightarrow> AList.update key (JDict (deep_merge_base b v)) base
      | _ \<Rightarrow> base)"
| "base_key base key (JList ys) =
     (case map_of base key of
        Some (JList xs) \<Rightarrow> AList.update key (JList (append_new xs ys)) base
      | _ \<Rightarrow> base)"
| "base_key base key value = base"

section \<open>The installer's world: paths, files, clock\<close>

text \<open>
  A path is the list of its components below the filesystem root (\<open>pathlib\<close>'s
  \<open>parts\<close>), a file's content is a byte string.  The filesystem holds regular files
  only: directories are implicit, so \<open>mkdir(parents=True, exist_ok=True)\<close> is not a
  step of the model.  Files are kept in an association list keyed by resolved path,
  whose order is the order in which a directory listing yields them.
\<close>

type_synonym path = "string list"
type_synonym bytes = string
type_synonym log = "(string \<times> string) list"

datatype fs_op = Copy path path | Unlink path | WriteText path

text \<open>
  What the program reads from its surroundings: \<open>resolve\<close> is the operating system's
  path resolution (\<open>Path.resolve\<close>: \<open>..\<close> segments and links to directories), fixed
  during a run; \<open>clock n\<close> is the n-th reading of
  \<open>datetime.now().strftime("%Y%m%d-%H%M%S")\<close>; \<open>script_dir\<close> and \<open>user_home\<close> are
  \<open>SCRIPT_DIR\<close> and \<open>Path.home()\<close>.  The \<open>json\<close> library is a parameter as well:
  \<open>loads b\<close> is \<open>json.loads(path.read_text(encoding="utf-8"))\<close> for a file with the
  bytes \<open>b\<close>: the document, or the exception raised, which is \<open>UnicodeDecodeError\<close> for
  bytes that are not UTF-8 text, \<open>JSONDecodeError\<close> for text that is not JSON, and
  \<open>RecursionError\<close> for a document nested too deep (where the program reads a file as
  text for anything else, its bytes are taken to be UTF-8 text);
  \<open>dumps j\<close> is \<open>json.dumps(j, indent=2)\<close> with a final newline,
  \<open>py_repr\<close> is how an f-string prints a value that is not a string, and \<open>exc_text\<close>
  is the message of the exception raised on reading the settings template (from the
  template's bytes, \<open>None\<close> when the file is missing).
\<close>

record env =
  resolve :: "path \<Rightarrow> path"
  clock :: "nat \<Rightarrow> string"
  script_dir :: path
  user_home :: path
  loads :: "bytes \<Rightarrow> error + json"
  dumps :: "json \<Rightarrow> bytes"
  py_repr :: "json \<Rightarrow> string"
  exc_text :: "bytes option \<Rightarrow> string"

text \<open>
  The mutable state: the files, the number of clock readings made so far, and the
  mutating filesystem calls made so far (a ghost trace, used to count writes).
\<close>

record world =
  files :: "(path \<times> bytes) list"
  ticks :: nat
  trace :: "fs_op list"

definition lookup_file :: "env \<Rightarrow> world \<Rightarrow> path \<Rightarrow> bytes option" where
  "lookup_file e w p = map_of (files w) (resolve e p)"

definition path_exists :: "env \<Rightarrow> world \<Rightarrow> path \<Rightarrow> bool" where
  "path_exists e w p = (lookup_file e w p \<noteq> None)"

definition read_bytes :: "env \<Rightarrow> world \<Rightarrow> path \<Rightarrow> error + bytes" where
  "read_bytes e w p =
     (case lookup_file e w p of None \<Rightarrow> Inl FileNotFoundError | Some b \<Rightarrow> Inr b)"

text \<open>\<open>shutil.copy2(src, dst)\<close>: fails on a missing source and on source and destination
  being the same file.\<close>

definition copy2 :: "env \<Rightarrow> world \<Rightarrow> path \<Rightarrow> path \<Rightarrow> error + world" where
  "copy2 e w src dst =
     (case lookup_file e w src of
        None \<Rightarrow> Inl FileNotFoundError
      | Some b \<Rightarrow>
          if resolve e src = resolve e dst then Inl SameFileError
          else Inr (w\<lparr>files := AList.update (resolve e dst) b (files w),
                      trace := trace w @ [Copy src dst]\<rparr>))"

definition unlink :: "env \<Rightarrow> world \<Rightarrow> path \<Rightarrow> error + world" where
  "unlink e w p =
     (case lookup_file e w p of
        None \<Rightarrow> Inl FileNotFoundError
      | Some b \<Rightarrow> Inr (w\<lparr>files := AList.delete (resolve e p) (files w),
                         trace := trace w @ [Unlink p]\<rparr>))"

definition write_text :: "env \<Rightarrow> world \<Rightarrow> path \<Rightarrow> bytes \<Rightarrow> world" where
  "write_text e w p b =
     w\<lparr>files := AList.update (resolve e p) b (files w), trace := trace w @ [WriteText p]\<rparr>"

text \<open>\<open>path.name\<close> and \<open>path.parent\<close>; the root has the empty name and is its own parent.\<close>

definition path_name :: "path \<Rightarrow> string" where
  "path_name p = (if p = [] then [] else last p)"

definition path_parent :: "path \<Rightarrow> path" where
  "path_parent p = butlast p"

text \<open>\<open>str(path)\<close> of a relative path: the components joined by a slash.\<close>

fun join_slash :: "string list \<Rightarrow> string" where
  "join_slash [] = []"
| "join_slash [c] = c"
| "join_slash (c # cs) = c @ ''/'' @ join_slash cs"

definition abs_str :: "path \<Rightarrow> string" where
  "abs_str p = ''/'' @ join_slash p"

subsection \<open>backup_file\<close>

definition backup_path :: "path \<Rightarrow> string \<Rightarrow> path" where
  "backup_path p ts = path_parent p @ [path_name p @ ''.bak.'' @ ts]"

definition backup_file :: "env \<Rightarrow> world \<Rightarrow> path \<Rightarrow> error + (path \<times> world)" where
  "backup_file e w p =
     (let ts = clock e (ticks w);
          backup = backup_path p ts;
          w1 = w\<lparr>ticks := Suc (ticks w)\<rparr>
      in case copy2 e w1 p backup of
           Inl er \<Rightarrow> Inl er
         | Inr w2 \<Rightarrow> Inr (backup, w2))"

subsection \<open>smart_install and remove_with_log\<close>

definition smart_install ::
  "env \<Rightarrow> world \<Rightarrow> path \<Rightarrow> path \<Rightarrow> string \<Rightarrow> log \<Rightarrow> error + (world \<times> log)" where
  "smart_install e w src dest label lg =
     (if \<not> path_exists e w dest then
        (case copy2 e w src dest of
           Inl er \<Rightarrow> Inl er
         | Inr w1 \<Rightarrow> Inr (w1, lg @ [(''installed'', label)]))
      else
        (case read_bytes e w src of
           Inl er \<Rightarrow> Inl er
         | Inr sb \<Rightarrow>
        (case read_bytes e w dest of
           Inl er \<Rightarrow> Inl er
         | Inr db \<Rightarrow>
             if sb \<noteq> db then
               (case backup_file e w dest of
                  Inl er \<Rightarrow> Inl er
                | Inr (bak, w1) \<Rightarrow>
               (case copy2 e w1 src dest of
                  Inl er \<Rightarrow> Inl er
                | Inr w2 \<Rightarrow>
                    Inr (w2, lg @ [(''updated'',
                           label @ '' (backed up -> '' @ path_name bak @ '')'')])))
             else Inr (w, lg @ [(''current'', label)]))))"

definition remove_with_log ::
  "env \<Rightarrow> world \<Rightarrow> path \<Rightarrow> string \<Rightarrow> log \<Rightarrow> error + (world \<times> log)" where
  "remove_with_log e w dest label lg =
     (if path_exists e w dest then
        (case backup_file e w dest of
           Inl er \<Rightarrow> Inl er
         | Inr (bak, w1) \<Rightarrow>
        (case unlink e w1 dest of
           Inl er \<Rightarrow> Inl er
         | Inr w2 \<Rightarrow>
             Inr (w2, lg @ [(''removed'',
                    label @ '' (backed up -> '' @ path_name bak @ '')'')])))
      else Inr (w, lg))"

subsection \<open>Lexical path resolution\<close>

text \<open>
  On a tree without links \<open>Path.resolve\<close> only normalises the path: \<open>.\<close> and empty
  segments are dropped and \<open>..\<close> steps to the parent (the root is its own parent).
  This is the resolution used in the examples.
\<close>

definition norm_step :: "path \<Rightarrow> string \<Rightarrow> path" where
  "norm_step acc c =
     (if c = ''..'' then butlast acc
      else if c = ''.'' \<or> c = [] then acc
      else acc @ [c])"

definition normpath :: "path \<Rightarrow> path" where
  "normpath p = foldl norm_step [] p"

subsection \<open>Directory listings\<close>

text \<open>
  \<open>d.iterdir()\<close> restricted to regular files, and the regular files among
  \<open>d.rglob("*")\<close>: the files directly in, respectively anywhere below, the directory,
  spelled below \<open>d\<close> as the listing yields them.  A directory exists when a file lies
  below it.
\<close>

definition iterdir_files :: "env \<Rightarrow> world \<Rightarrow> path \<Rightarrow> path list" where
  "iterdir_files e w d =
     map (\<lambda>k. d @ [last k])
       (filter (\<lambda>k. k \<noteq> [] \<and> butlast k = resolve e d) (map fst (files w)))"

definition rglob_files :: "env \<Rightarrow> world \<Rightarrow> path \<Rightarrow> path list" where
  "rglob_files e w d =
     map (\<lambda>k. d @ drop (length (resolve e d)) k)
       (filter (\<lambda>k. strict_prefix (resolve e d) k) (map fst (files w)))"

definition dir_exists :: "env \<Rightarrow> world \<Rightarrow> path \<Rightarrow> bool" where
  "dir_exists e w d = list_ex (\<lambda>k. prefix (resolve e d) k) (map fst (files w))"

subsection \<open>Installation root\<close>

definition HOME_DIR :: "env \<Rightarrow> path" where
  "HOME_DIR e = script_dir e @ [''standards'', ''home'']"

definition HOME_CLAUDE_MD :: "env \<Rightarrow> path" where
  "HOME_CLAUDE_MD e = HOME_DIR e @ [''CLAUDE.md'']"

definition TASKS_DIR :: "env \<Rightarrow> path" where
  "TASKS_DIR e = script_dir e @ [''standards'', ''tasks'']"

definition CLAUDE_HOME :: "env \<Rightarrow> path" where
  "CLAUDE_HOME e = user_home e @ [''.claude'']"

definition CLAUDE_MD :: "env \<Rightarrow> path" where
  "CLAUDE_MD e = CLAUDE_HOME e @ [''CLAUDE.md'']"

definition CLAUDE_RULES :: "env \<Rightarrow> path" where
  "CLAUDE_RULES e = CLAUDE_HOME e @ [''rules'']"

definition CLAUDE_AGENTS :: "env \<Rightarrow> path" where
  "CLAUDE_AGENTS e = CLAUDE_HOME e @ [''agents'']"

definition BACKUPS_DIR :: "env \<Rightarrow> path" where
  "BACKUPS_DIR e = CLAUDE_HOME e @ [''backups'']"

definition HOME_SETTINGS_JSON :: "env \<Rightarrow> path" where
  "HOME_SETTINGS_JSON e = HOME_DIR e @ [''settings.json'']"

definition HOME_STATUSLINE :: "env \<Rightarrow> path" where
  "HOME_STATUSLINE e = HOME_DIR e @ [''statusline.sh'']"

definition CLAUDE_SETTINGS :: "env \<Rightarrow> path" where
  "CLAUDE_SETTINGS e = CLAUDE_HOME e @ [''settings.json'']"

definition CLAUDE_STATUSLINE :: "env \<Rightarrow> path" where
  "CLAUDE_STATUSLINE e = CLAUDE_HOME e @ [''statusline.sh'']"

definition MANDATORY_RULES :: "string set" where
  "MANDATORY_RULES = {''security.md''}"

definition MANDATORY_AGENTS :: "string set" where
  "MANDATORY_AGENTS = {''security-auditor.md'', ''compliance-reviewer.md''}"

subsection \<open>create_snapshot and restore_snapshot\<close>

definition relative_to :: "path \<Rightarrow> path \<Rightarrow> error + path" where
  "relative_to p base = (if prefix base p then Inr (drop (length base) p) else Inl ValueError)"

definition rel_str :: "path \<Rightarrow> string" where
  "rel_str rel = (if rel = [] then ''.'' else join_slash rel)"

fun snapshot_copy :: "env \<Rightarrow> path \<Rightarrow> path list \<Rightarrow> world \<Rightarrow> error + world" where
  "snapshot_copy e snap_dir [] w = Inr w"
| "snapshot_copy e snap_dir (f # fs) w =
     (case relative_to f (CLAUDE_HOME e) of
        Inl er \<Rightarrow> Inl er
      | Inr rel \<Rightarrow>
     (case copy2 e w f (snap_dir @ rel) of
        Inl er \<Rightarrow> Inl er
      | Inr w1 \<Rightarrow> snapshot_copy e snap_dir fs w1))"

definition files_to_snap :: "env \<Rightarrow> world \<Rightarrow> path list" where
  "files_to_snap e w =
     filter (path_exists e w)
       [CLAUDE_HOME e @ [''CLAUDE.md''], CLAUDE_HOME e @ [''settings.json''],
        CLAUDE_HOME e @ [''statusline.sh'']]
     @ concat (map (\<lambda>subdir. iterdir_files e w (CLAUDE_HOME e @ [subdir]))
                [''rules'', ''agents'', ''tasks''])"

definition create_snapshot :: "env \<Rightarrow> world \<Rightarrow> error + (path option \<times> world)" where
  "create_snapshot e w =
     (if \<not> dir_exists e w (CLAUDE_HOME e) then Inr (None, w)
      else if files_to_snap e w = [] then Inr (None, w)
      else
        (let ts = clock e (ticks w);
             snap_dir = BACKUPS_DIR e @ [ts];
             w1 = w\<lparr>ticks := Suc (ticks w)\<rparr>
         in case snapshot_copy e snap_dir (files_to_snap e w) w1 of
              Inl er \<Rightarrow> Inl er
            | Inr w2 \<Rightarrow> Inr (Some snap_dir, w2)))"

text \<open>One round of the loop of \<open>restore_snapshot\<close>; \<open>item\<close> is what \<open>rglob\<close> yielded.\<close>

definition restore_entry ::
  "env \<Rightarrow> path \<Rightarrow> world \<times> log \<Rightarrow> path \<Rightarrow> error + (world \<times> log)" where
  "restore_entry e snap_dir s item =
     (case s of (w, lg) \<Rightarrow>
      if \<not> path_exists e w item then Inr (w, lg)
      else
        (case relative_to item snap_dir of
           Inl er \<Rightarrow> Inl er
         | Inr rel \<Rightarrow>
             (let dest = CLAUDE_HOME e @ rel in
              if \<not> prefix (resolve e (CLAUDE_HOME e)) (resolve e dest) then Inr (w, lg)
              else if path_exists e w dest then
                (case read_bytes e w dest of
                   Inl er \<Rightarrow> Inl er
                 | Inr db \<Rightarrow>
                (case read_bytes e w item of
                   Inl er \<Rightarrow> Inl er
                 | Inr ib \<Rightarrow>
                     if db = ib then Inr (w, lg @ [(''current'', ''~/.claude/'' @ rel_str rel)])
                     else
                       (case backup_file e w dest of
                          Inl er \<Rightarrow> Inl er
                        | Inr (bak, w1) \<Rightarrow>
                       (case copy2 e w1 item dest of
                          Inl er \<Rightarrow> Inl er
                        | Inr w2 \<Rightarrow>
                            Inr (w2, lg @ [(''restored'', ''~/.claude/'' @ rel_str rel)])))))
              else
                (case copy2 e w item dest of
                   Inl er \<Rightarrow> Inl er
                 | Inr w2 \<Rightarrow> Inr (w2, lg @ [(''restored'', ''~/.claude/'' @ rel_str rel)])))))"

fun restore_entries ::
  "env \<Rightarrow> path \<Rightarrow> path list \<Rightarrow> world \<times> log \<Rightarrow> error + (world \<times> log)" where
  "restore_entries e snap_dir [] s = Inr s"
| "restore_entries e snap_dir (item # items) s =
     (case restore_entry e snap_dir s item of
        Inl er \<Rightarrow> Inl er
      | Inr s' \<Rightarrow> restore_entries e snap_dir items s')"

definition restore_snapshot :: "env \<Rightarrow> world \<Rightarrow> path \<Rightarrow> error + (world \<times> log)" where
  "restore_snapshot e w snap_dir =
     restore_entries e snap_dir (rglob_files e w snap_dir) (w, [])"

text \<open>
  An entry escapes when its destination, the entry's path relative to the snapshot put
  below \<open>CLAUDE_HOME\<close>, does not resolve to a path below the resolved \<open>CLAUDE_HOME\<close>.
\<close>

definition escapes_root :: "env \<Rightarrow> path \<Rightarrow> path \<Rightarrow> bool" where
  "escapes_root e snap_dir item =
     (prefix snap_dir item \<and>
      \<not> prefix (resolve e (CLAUDE_HOME e))
          (resolve e (CLAUDE_HOME e @ drop (length snap_dir) item)))"

section \<open>Task templates\<close>

subsection \<open>file_has_content\<close>

text \<open>
  The text functions \<open>file_has_content\<close> uses, on ASCII text: \<open>read_text\<close> translates
  line ends to a line feed, \<open>strip\<close> removes white space at both ends,
  \<open>re.sub(r"<!--.*?-->", "", text, flags=re.DOTALL)\<close> removes each comment up to the
  nearest closing mark, \<open>splitlines\<close> splits at line boundaries.
\<close>

definition is_space :: "char \<Rightarrow> bool" where
  "is_space c = (c \<in> set [CHR 0x09, CHR 0x0A, CHR 0x0B, CHR 0x0C, CHR 0x0D,
                           CHR 0x1C, CHR 0x1D, CHR 0x1E, CHR 0x1F, CHR 0x20])"

definition is_linebreak :: "char \<Rightarrow> bool" where
  "is_linebreak c = (c \<in> set [CHR 0x0A, CHR 0x0B, CHR 0x0C, CHR 0x0D,
                               CHR 0x1C, CHR 0x1D, CHR 0x1E])"

definition strip :: "string \<Rightarrow> string" where
  "strip s = rev (dropWhile is_space (rev (dropWhile is_space s)))"

fun universal_newlines :: "string \<Rightarrow> string" where
  "universal_newlines [] = []"
| "universal_newlines (c # cs) =
     (if c = CHR 0x0D then
        CHR 0x0A # (case cs of
                      [] \<Rightarrow> []
                    | d # ds \<Rightarrow> if d = CHR 0x0A then universal_newlines ds
                               else universal_newlines cs)
      else c # universal_newlines cs)"

fun splitlines_from :: "string \<Rightarrow> string \<Rightarrow> string list" where
  "splitlines_from cur [] = (if cur = [] then [] else [cur])"
| "splitlines_from cur (c # cs) =
     (if c = CHR 0x0D then
        (case cs of
           [] \<Rightarrow> [cur]
         | d # ds \<Rightarrow> if d = CHR 0x0A then cur # splitlines_from [] ds
                    else cur # splitlines_from [] cs)
      else if is_linebreak c then cur # splitlines_from [] cs
      else splitlines_from (cur @ [c]) cs)"

definition splitlines :: "string \<Rightarrow> string list" where
  "splitlines s = splitlines_from [] s"

fun after_comment_end :: "string \<Rightarrow> string option" where
  "after_comment_end [] = None"
| "after_comment_end (c # cs) =
     (if prefix ''-->'' (c # cs) then Some (drop 3 (c # cs)) else after_comment_end cs)"

lemma after_comment_end_shorter:
  "after_comment_end s = Some r \<Longrightarrow> length r \<le> length s"
  by (induction s) (auto split: if_splits)

function strip_comments :: "string \<Rightarrow> string" where
  "strip_comments [] = []"
| "strip_comments (c # cs) =
     (if prefix ''<!--'' (c # cs) then
        (case after_comment_end (drop 4 (c # cs)) of
           None \<Rightarrow> c # strip_comments cs
         | Some rest \<Rightarrow> strip_comments rest)
      else c # strip_comments cs)"
  by pat_completeness auto
termination
proof (relation "measure length")
  fix c cs rest
  assume "after_comment_end (drop 4 (c # cs)) = Some rest"
  then have "length rest \<le> length (drop 4 (c # cs))"
    by (rule after_comment_end_shorter)
  then show "(rest, c # cs) \<in> measure length" by simp
qed auto

definition file_has_content :: "env \<Rightarrow> world \<Rightarrow> path \<Rightarrow> bool" where
  "file_has_content e w p =
     (case lookup_file e w p of
        None \<Rightarrow> False
      | Some b \<Rightarrow>
          (let text = strip (universal_newlines b);
               text = strip_comments text;
               lines = filter (\<lambda>l. strip l \<noteq> [] \<and> \<not> prefix ''#'' (strip l)) (splitlines text)
           in lines \<noteq> []))"

subsection \<open>The template loop of run_install\<close>

text \<open>
  \<open>for tpl in ["lessons.md", "todo.md"]\<close>: a destination with content is skipped, any
  other is overwritten by the template, with no backup.
\<close>

fun install_templates ::
  "env \<Rightarrow> path \<Rightarrow> string \<Rightarrow> string list \<Rightarrow> world \<times> log \<Rightarrow> error + (world \<times> log)" where
  "install_templates e tasks_dir lbl [] s = Inr s"
| "install_templates e tasks_dir lbl (tpl # tpls) s =
     (case s of (w, lg) \<Rightarrow>
        (let src = TASKS_DIR e @ [tpl]; dest = tasks_dir @ [tpl] in
         if path_exists e w dest \<and> file_has_content e w dest then
           install_templates e tasks_dir lbl tpls
             (w, lg @ [(''skipped'', lbl @ tpl @ '' (has content)'')])
         else
           (case copy2 e w src dest of
              Inl er \<Rightarrow> Inl er
            | Inr w1 \<Rightarrow>
                install_templates e tasks_dir lbl tpls (w1, lg @ [(''installed'', lbl @ tpl)]))))"

definition task_templates :: "string list" where
  "task_templates = [''lessons.md'', ''todo.md'']"

section \<open>Settings documents on disk\<close>

definition digit_char :: "nat \<Rightarrow> char" where
  "digit_char n = ''0123456789'' ! n"

fun show_nat :: "nat \<Rightarrow> string" where
  "show_nat n = (if n < 10 then [digit_char n] else show_nat (n div 10) @ [digit_char (n mod 10)])"

declare show_nat.simps [simp del]

text \<open>How an f-string prints a value: a string as it is.\<close>

definition py_format :: "env \<Rightarrow> json \<Rightarrow> string" where
  "py_format e j = (case j of JStr s \<Rightarrow> s | _ \<Rightarrow> py_repr e j)"

subsection \<open>install_auto_read\<close>

definition AUTO_READ_ALLOW :: "json list" where
  "AUTO_READ_ALLOW =
     [JStr ''Read'', JStr ''Glob'', JStr ''Grep'', JStr ''Bash(ls:*)'',
      JStr ''Bash(git diff:*)'', JStr ''Bash(git log:*)'', JStr ''Bash(git status:*)'']"

definition AUTO_READ_PERMISSIONS :: json where
  "AUTO_READ_PERMISSIONS = JDict [(''permissions'', JDict [(''allow'', JList AUTO_READ_ALLOW)])]"

text \<open>The loop over the tools; returns \<open>allow\<close> and \<open>added\<close>.\<close>

fun add_tools :: "json \<Rightarrow> json list \<Rightarrow> json list \<Rightarrow> error + (json \<times> json list)" where
  "add_tools allow [] added = Inr (allow, added)"
| "add_tools allow (tool # tools) added =
     (case py_contains allow tool of
        Inl er \<Rightarrow> Inl er
      | Inr True \<Rightarrow> add_tools allow tools added
      | Inr False \<Rightarrow>
          (case py_append allow tool of
             Inl er \<Rightarrow> Inl er
           | Inr allow' \<Rightarrow> add_tools allow' tools (added @ [tool])))"

text \<open>\<open>d.setdefault(k, default)\<close>: the value found or inserted, and the mapping.\<close>

definition setdefault :: "dict \<Rightarrow> string \<Rightarrow> json \<Rightarrow> json \<times> dict" where
  "setdefault d k dflt =
     (case map_of d k of
        None \<Rightarrow> (dflt, AList.update k dflt d)
      | Some v \<Rightarrow> (v, d))"

text \<open>The in-memory part of \<open>install_auto_read\<close>: the updated document and \<open>added\<close>.\<close>

definition auto_read_merge :: "json \<Rightarrow> error + (json \<times> json list)" where
  "auto_read_merge existing =
     (case existing of
        JDict ex \<Rightarrow>
          (case setdefault ex ''permissions'' (JDict []) of
             (JDict perms, ex1) \<Rightarrow>
               (case setdefault perms ''allow'' (JList []) of
                  (allow, perms1) \<Rightarrow>
               (case add_tools allow AUTO_READ_ALLOW [] of
                  Inl er \<Rightarrow> Inl er
                | Inr (allow', added) \<Rightarrow>
                    Inr (JDict (AList.update ''permissions''
                                  (JDict (AList.update ''allow'' allow' perms1)) ex1),
                         added)))
           | _ \<Rightarrow> Inl AttributeError)
      | _ \<Rightarrow> Inl AttributeError)"

text \<open>\<open>json.loads(path.read_text(encoding="utf-8"))\<close> for the file at a path.\<close>

definition read_json :: "env \<Rightarrow> world \<Rightarrow> path \<Rightarrow> error + json" where
  "read_json e w p =
     (case lookup_file e w p of
        None \<Rightarrow> Inl FileNotFoundError
      | Some b \<Rightarrow> loads e b)"

text \<open>
  Lines 375 to 378: the document of the file, or \<open>{}\<close> where reading it raises
  \<open>JSONDecodeError\<close> or an \<open>OSError\<close>.  Any other exception is not caught.
\<close>

definition read_or_empty :: "env \<Rightarrow> world \<Rightarrow> path \<Rightarrow> error + json" where
  "read_or_empty e w p =
     (case read_json e w p of
        Inr j \<Rightarrow> Inr j
      | Inl er \<Rightarrow> if er = JSONDecodeError \<or> is_OSError er then Inr (JDict []) else Inl er)"

definition install_auto_read :: "env \<Rightarrow> world \<Rightarrow> path \<Rightarrow> log \<Rightarrow> error + (world \<times> log)" where
  "install_auto_read e w cwd lg =
     (let settings_file = cwd @ [''.claude'', ''settings.json''] in
      if path_exists e w settings_file then
        (case read_or_empty e w settings_file of
           Inl er \<Rightarrow> Inl er
         | Inr existing \<Rightarrow>
        (case auto_read_merge existing of
           Inl er \<Rightarrow> Inl er
         | Inr (existing', added) \<Rightarrow>
             if added \<noteq> [] then
               Inr (write_text e w settings_file (dumps e existing'),
                    lg @ [(''installed'', ''.claude/settings.json (added '' @
                             show_nat (length added) @ '' permissions)'')])
             else
               Inr (w, lg @ [(''current'',
                      ''.claude/settings.json (permissions already present)'')])))
      else
        Inr (write_text e w settings_file (dumps e AUTO_READ_PERMISSIONS),
             lg @ [(''installed'', ''.claude/settings.json (auto-approve read)'')]))"

subsection \<open>install_global_settings\<close>

definition MODEL_CHOICES :: "string \<Rightarrow> string option" where
  "MODEL_CHOICES k =
     (if k = ''sonnet'' then Some ''us.anthropic.claude-sonnet-4-6''
      else if k = ''opus'' then Some ''us.anthropic.claude-opus-4-6-v1''
      else if k = ''haiku'' then Some ''us.anthropic.claude-haiku-4-5-20251001-v1:0''
      else None)"

text \<open>The test \<open>default_model != "none" and MODEL_CHOICES.get(default_model)\<close>.\<close>

definition model_choice :: "string \<Rightarrow> string option" where
  "model_choice default_model =
     (if default_model \<noteq> ''none'' then MODEL_CHOICES default_model else None)"

text \<open>\<open>template["model"] = ...\<close> on what the template file holds.\<close>

definition inject_model :: "string \<Rightarrow> json \<Rightarrow> error + dict" where
  "inject_model default_model tj =
     (case model_choice default_model of
        Some m \<Rightarrow>
          (case tj of
             JDict t \<Rightarrow> Inr (AList.update ''model'' (JStr m) t)
           | _ \<Rightarrow> Inl TypeError)
      | None \<Rightarrow>
          (case tj of
             JDict t \<Rightarrow> Inr t
           | _ \<Rightarrow> Inl Unmodelled))"

text \<open>
  Lines 442 to 450, reading the installed document.  Only \<open>JSONDecodeError\<close> is caught:
  then the file is backed up and the document is \<open>{}\<close>.  Any other exception of the
  read is not caught.
\<close>

definition load_existing :: "env \<Rightarrow> world \<Rightarrow> log \<Rightarrow> error + (json \<times> world \<times> log)" where
  "load_existing e w lg =
     (if path_exists e w (CLAUDE_SETTINGS e) then
        (case read_bytes e w (CLAUDE_SETTINGS e) of
           Inl er \<Rightarrow> Inl er
         | Inr b \<Rightarrow>
             (case loads e b of
                Inr j \<Rightarrow> Inr (j, w, lg)
              | Inl er \<Rightarrow>
                  if er = JSONDecodeError then
                    (case backup_file e w (CLAUDE_SETTINGS e) of
                       Inl er \<Rightarrow> Inl er
                     | Inr (bak, w1) \<Rightarrow>
                         Inr (JDict [], w1,
                              lg @ [(''warning'',
                                     ''~/.claude/settings.json (malformed JSON, backed up -> '' @
                                     abs_str bak @ '')'')]))
                  else Inl er))
      else Inr (JDict [], w, lg))"

text \<open>The \<open>env\<close> block: merged again with the template as overlay.\<close>

definition merge_env :: "dict \<Rightarrow> dict \<Rightarrow> error + dict" where
  "merge_env template merged =
     (case map_of template ''env'' of
        None \<Rightarrow> Inr merged
      | Some tenv \<Rightarrow>
          (case py_dict (case map_of merged ''env'' of None \<Rightarrow> JDict [] | Some b \<Rightarrow> b) of
             Inl er \<Rightarrow> Inl er
           | Inr base \<Rightarrow>
               (case tenv of
                  JDict tv \<Rightarrow>
                    Inr (AList.update ''env'' (JDict (deep_merge_settings base tv)) merged)
                | _ \<Rightarrow> Inl AttributeError)))"

text \<open>One round of \<open>for perm_key in ("allow", "deny", "ask")\<close>; \<open>tp\<close> is
  \<open>template["permissions"]\<close>.\<close>

definition perm_list_step :: "json \<Rightarrow> dict \<Rightarrow> string \<Rightarrow> error + dict" where
  "perm_list_step tp merged perm_key =
     (case py_contains tp (JStr perm_key) of
        Inl er \<Rightarrow> Inl er
      | Inr False \<Rightarrow> Inr merged
      | Inr True \<Rightarrow>
          (case setdefault merged ''permissions'' (JDict []) of
             (JDict mp, merged1) \<Rightarrow>
               (case setdefault mp perm_key (JList []) of
                  (base_list, mp1) \<Rightarrow>
               (case py_getitem tp perm_key of
                  Inl er \<Rightarrow> Inl er
                | Inr tv \<Rightarrow>
               (case py_iter tv of
                  Inl er \<Rightarrow> Inl er
                | Inr items \<Rightarrow>
               (case append_missing base_list items of
                  Inl er \<Rightarrow> Inl er
                | Inr base_list' \<Rightarrow>
                    Inr (AList.update ''permissions''
                           (JDict (AList.update perm_key base_list' mp1)) merged1)))))
           | _ \<Rightarrow> Inl AttributeError))"

text \<open>One round of \<open>for scalar_key in ("defaultMode", "disableBypassPermissionsMode")\<close>.\<close>

definition perm_scalar_step :: "json \<Rightarrow> dict \<Rightarrow> string \<Rightarrow> error + dict" where
  "perm_scalar_step tp merged scalar_key =
     (case py_contains tp (JStr scalar_key) of
        Inl er \<Rightarrow> Inl er
      | Inr False \<Rightarrow> Inr merged
      | Inr True \<Rightarrow>
          (case py_getitem tp scalar_key of
             Inl er \<Rightarrow> Inl er
           | Inr tv \<Rightarrow>
               (case setdefault merged ''permissions'' (JDict []) of
                  (JDict mp, merged1) \<Rightarrow>
                    Inr (AList.update ''permissions''
                           (JDict (AList.update scalar_key tv mp)) merged1)
                | _ \<Rightarrow> Inl TypeError)))"

fun for_each_key :: "('k \<Rightarrow> dict \<Rightarrow> string \<Rightarrow> error + dict) \<Rightarrow> 'k \<Rightarrow> string list \<Rightarrow> dict \<Rightarrow> error + dict"
  where
  "for_each_key f tp [] merged = Inr merged"
| "for_each_key f tp (k # ks) merged =
     (case f tp merged k of
        Inl er \<Rightarrow> Inl er
      | Inr merged' \<Rightarrow> for_each_key f tp ks merged')"

definition merge_permissions :: "dict \<Rightarrow> dict \<Rightarrow> error + dict" where
  "merge_permissions template merged =
     (case map_of template ''permissions'' of
        None \<Rightarrow> Inr merged
      | Some tp \<Rightarrow>
          (case for_each_key perm_list_step tp [''allow'', ''deny'', ''ask''] merged of
             Inl er \<Rightarrow> Inl er
           | Inr merged1 \<Rightarrow>
               for_each_key perm_scalar_step tp
                 [''defaultMode'', ''disableBypassPermissionsMode''] merged1))"

text \<open>
  The merge of \<open>install_global_settings\<close>: the template is the base and the existing
  document the overlay, then \<open>env\<close>, the permission lists and scalars and the model
  are taken from the template again.  The first merge extends the template's own
  lists, so what is read from the template afterwards is \<open>deep_merge_base\<close>.  The
  value-level reading is exact for a template whose permission entries \<open>allow\<close>,
  \<open>deny\<close>, \<open>ask\<close> are lists: then no object of the existing document is changed.
\<close>

definition merge_with_template :: "string \<Rightarrow> dict \<Rightarrow> json \<Rightarrow> error + dict" where
  "merge_with_template default_model template existing =
     (case existing of
        JDict ex \<Rightarrow>
          (let merged = deep_merge_settings template ex;
               template' = deep_merge_base template ex
           in case merge_env template' merged of
                Inl er \<Rightarrow> Inl er
              | Inr merged1 \<Rightarrow>
             (case merge_permissions template' merged1 of
                Inl er \<Rightarrow> Inl er
              | Inr merged2 \<Rightarrow>
                  Inr (case model_choice default_model of
                         None \<Rightarrow> merged2
                       | Some m \<Rightarrow> AList.update ''model'' (JStr m) merged2)))
      | _ \<Rightarrow> Inl AttributeError)"

text \<open>Comparing with the existing document and writing the merged one.\<close>

definition write_settings ::
  "env \<Rightarrow> world \<Rightarrow> json \<Rightarrow> dict \<Rightarrow> log \<Rightarrow> error + (world \<times> log)" where
  "write_settings e w existing merged lg =
     (if py_eq existing (JDict merged) then
        Inr (w, lg @ [(''current'', ''~/.claude/settings.json'')])
      else if path_exists e w (CLAUDE_SETTINGS e) \<and> py_truthy existing then
        (case backup_file e w (CLAUDE_SETTINGS e) of
           Inl er \<Rightarrow> Inl er
         | Inr (bak, w1) \<Rightarrow>
             Inr (write_text e w1 (CLAUDE_SETTINGS e) (dumps e (JDict merged)),
                  lg @ [(''updated'',
                         ''~/.claude/settings.json (backed up -> '' @ abs_str bak @ '')'')]))
      else
        Inr (write_text e w (CLAUDE_SETTINGS e) (dumps e (JDict merged)),
             lg @ [(''installed'', ''~/.claude/settings.json'')]))"

definition check_aws_profile :: "env \<Rightarrow> world \<Rightarrow> string \<Rightarrow> bool" where
  "check_aws_profile e w name =
     (case lookup_file e w (user_home e @ [''.aws'', ''config'']) of
        None \<Rightarrow> False
      | Some text \<Rightarrow> is_substring (''[profile '' @ name @ '']'') text)"

definition warn_aws_profile :: "env \<Rightarrow> world \<Rightarrow> dict \<Rightarrow> log \<Rightarrow> error + log" where
  "warn_aws_profile e w template lg =
     (case (case map_of template ''env'' of None \<Rightarrow> JDict [] | Some v \<Rightarrow> v) of
        JDict tenv \<Rightarrow>
          (let aws_profile =
                 py_format e (case map_of tenv ''AWS_PROFILE'' of
                                None \<Rightarrow> JStr ''default''
                              | Some v \<Rightarrow> v)
           in if \<not> check_aws_profile e w aws_profile then
                Inr (lg @ [(''warning'',
                       ''AWS profile '' @ [CHR 0x27] @ aws_profile @ [CHR 0x27] @
                       '' not found in ~/.aws/config '' @ [CHR 0xE2, CHR 0x80, CHR 0x94] @
                       '' run: aws configure sso --profile '' @ aws_profile)])
              else Inr lg)
      | _ \<Rightarrow> Inl AttributeError)"

definition install_statusline :: "env \<Rightarrow> world \<Rightarrow> log \<Rightarrow> error + (world \<times> log)" where
  "install_statusline e w lg =
     (if path_exists e w (HOME_STATUSLINE e) then
        smart_install e w (HOME_STATUSLINE e) (CLAUDE_STATUSLINE e) ''~/.claude/statusline.sh'' lg
      else Inr (w, lg))"

text \<open>The template after the first merge, as far as the existing document is a mapping.\<close>

definition template_after :: "dict \<Rightarrow> json \<Rightarrow> dict" where
  "template_after template existing =
     (case existing of JDict ex \<Rightarrow> deep_merge_base template ex | _ \<Rightarrow> template)"

definition install_global_settings ::
  "env \<Rightarrow> world \<Rightarrow> string \<Rightarrow> log \<Rightarrow> error + (world \<times> log)" where
  "install_global_settings e w default_model lg =
     (case read_json e w (HOME_SETTINGS_JSON e) of
        Inl er \<Rightarrow>
          if er = JSONDecodeError \<or> is_OSError er then
            Inr (w, lg @ [(''warning'',
                   ''~/.claude/settings.json (failed to read template: '' @
                   exc_text e (lookup_file e w (HOME_SETTINGS_JSON e)) @ '')'')])
          else Inl er
      | Inr tj \<Rightarrow>
          (case inject_model default_model tj of
             Inl er \<Rightarrow> Inl er
           | Inr template \<Rightarrow>
          (case load_existing e w lg of
             Inl er \<Rightarrow> Inl er
           | Inr (existing, w1, lg1) \<Rightarrow>
          (case merge_with_template default_model template existing of
             Inl er \<Rightarrow> Inl er
           | Inr merged \<Rightarrow>
          (case write_settings e w1 existing merged lg1 of
             Inl er \<Rightarrow> Inl er
           | Inr (w2, lg2) \<Rightarrow>
          (case warn_aws_profile e w2 (template_after template existing) lg2 of
             Inl er \<Rightarrow> Inl er
           | Inr lg3 \<Rightarrow> install_statusline e w2 lg3))))))"

section \<open>run_install\<close>

text \<open>An entry of \<open>rule_info\<close> or \<open>agent_info\<close>, as \<open>build_file_info\<close> makes it: the file
  name, the source path and the mandatory flag (the fields for display are left out).\<close>

record item =
  item_name :: string
  item_src :: path
  item_mandatory :: bool

text \<open>The state of the application that \<open>run_install\<close> reads.\<close>

record app =
  app_scope :: string
  app_selected_rules :: "string set"
  app_selected_agents :: "string set"
  app_rule_info :: "item list"
  app_agent_info :: "item list"
  app_create_global_tasks :: bool
  app_create_project_tasks :: bool
  app_auto_read :: bool
  app_selected_model :: string
  app_cwd :: path

text \<open>
  The front-end's \<open>enforce_mandatory\<close>, run after every toggle of the selection list:
  each mandatory name that is not selected is selected again.
\<close>

definition enforce_mandatory :: "string set \<Rightarrow> string set \<Rightarrow> string set" where
  "enforce_mandatory mandatory selected =
     selected \<union> {name \<in> mandatory. name \<notin> selected}"

text \<open>
  The loop over \<open>rule_info\<close> (and \<open>agent_info\<close>): a selected name is installed, any other
  is removed.  \<open>dir\<close> is \<open>CLAUDE_RULES\<close> or \<open>CLAUDE_AGENTS\<close>, \<open>lbl\<close> the label prefix.
\<close>

fun install_items ::
  "env \<Rightarrow> path \<Rightarrow> string \<Rightarrow> string set \<Rightarrow> item list \<Rightarrow> world \<times> log \<Rightarrow> error + (world \<times> log)"
  where
  "install_items e dir lbl selected [] s = Inr s"
| "install_items e dir lbl selected (it # its) s =
     (case s of (w, lg) \<Rightarrow>
        (case (if item_name it \<in> selected then
                 smart_install e w (item_src it) (dir @ [item_name it]) (lbl @ item_name it) lg
               else
                 remove_with_log e w (dir @ [item_name it]) (lbl @ item_name it) lg) of
           Inl er \<Rightarrow> Inl er
         | Inr s' \<Rightarrow> install_items e dir lbl selected its s'))"

text \<open>\<open>is_git_repo\<close>: walk up from the resolved directory until a \<open>.git\<close> entry is found.\<close>

definition entry_exists :: "env \<Rightarrow> world \<Rightarrow> path \<Rightarrow> bool" where
  "entry_exists e w p = (path_exists e w p \<or> dir_exists e w p)"

function is_git_repo_from :: "env \<Rightarrow> world \<Rightarrow> path \<Rightarrow> bool" where
  "is_git_repo_from e w current =
     (if entry_exists e w (current @ [''.git'']) then True
      else if current = [] then False
      else is_git_repo_from e w (butlast current))"
  by pat_completeness auto
termination
  by (relation "measure (\<lambda>(e, w, current). length current)") auto

declare is_git_repo_from.simps [simp del]

definition is_git_repo :: "env \<Rightarrow> world \<Rightarrow> path \<Rightarrow> bool" where
  "is_git_repo e w p = is_git_repo_from e w (resolve e p)"

definition in_scope :: "app \<Rightarrow> string list \<Rightarrow> bool" where
  "in_scope a scopes = (app_scope a \<in> set scopes)"

text \<open>The global part: \<open>CLAUDE.md\<close>, rules, agents, task templates, settings.\<close>

definition run_global :: "env \<Rightarrow> world \<Rightarrow> app \<Rightarrow> log \<Rightarrow> error + (world \<times> log)" where
  "run_global e w a lg =
     (case smart_install e w (HOME_CLAUDE_MD e) (CLAUDE_MD e) ''~/.claude/CLAUDE.md'' lg of
        Inl er \<Rightarrow> Inl er
      | Inr s1 \<Rightarrow>
     (case install_items e (CLAUDE_RULES e) ''~/.claude/rules/'' (app_selected_rules a)
             (app_rule_info a) s1 of
        Inl er \<Rightarrow> Inl er
      | Inr s2 \<Rightarrow>
     (case install_items e (CLAUDE_AGENTS e) ''~/.claude/agents/'' (app_selected_agents a)
             (app_agent_info a) s2 of
        Inl er \<Rightarrow> Inl er
      | Inr s3 \<Rightarrow>
     (case (if app_create_global_tasks a then
              install_templates e (CLAUDE_HOME e @ [''tasks'']) ''~/.claude/tasks/''
                task_templates s3
            else Inr s3) of
        Inl er \<Rightarrow> Inl er
      | Inr (w4, lg4) \<Rightarrow> install_global_settings e w4 (app_selected_model a) lg4))))"

text \<open>The project part, in the working directory.\<close>

definition run_project :: "env \<Rightarrow> world \<Rightarrow> app \<Rightarrow> log \<Rightarrow> error + (world \<times> log)" where
  "run_project e w a lg =
     (if is_git_repo e w (app_cwd a) then
        (case (if app_create_project_tasks a then
                 install_templates e (app_cwd a @ [''tasks'']) ''tasks/'' task_templates (w, lg)
               else Inr (w, lg)) of
           Inl er \<Rightarrow> Inl er
         | Inr (w1, lg1) \<Rightarrow>
             if app_auto_read a then install_auto_read e w1 (app_cwd a) lg1
             else Inr (w1, lg1))
      else Inr (w, lg @ [(''skipped'', ''Project install (not in a git repo)'')]))"

definition run_install :: "env \<Rightarrow> world \<Rightarrow> app \<Rightarrow> error + (world \<times> log)" where
  "run_install e w a =
     (case (if in_scope a [''global'', ''both''] then
              (case create_snapshot e w of
                 Inl er \<Rightarrow> Inl er
               | Inr (snap, w0) \<Rightarrow>
                   Inr (w0, case snap of
                              None \<Rightarrow> []
                            | Some d \<Rightarrow> [(''snapshot'', ''Backed up to '' @ abs_str d)]))
            else Inr (w, [])) of
        Inl er \<Rightarrow> Inl er
      | Inr (w1, lg1) \<Rightarrow>
     (case (if in_scope a [''global'', ''both''] then run_global e w1 a lg1
            else Inr (w1, lg1)) of
        Inl er \<Rightarrow> Inl er
      | Inr (w2, lg2) \<Rightarrow>
          if in_scope a [''project'', ''both''] then run_project e w2 a lg2
          else Inr (w2, lg2)))"

section \<open>deep_merge_settings on objects\<close>

text \<open>
  The documents above are values.  Python's mappings and lists are objects: a variable
  holds a reference, two references may name one object, and \<open>append\<close> changes the
  object for everyone who holds a reference to it.  This section models
  \<open>deep_merge_settings\<close> on a store of objects.  An address is an index into the store;
  allocation appends to it.
\<close>

type_synonym addr = nat

datatype val = VNull | VBool bool | VInt int | VStr string | VRef addr

datatype obj = ODict "(string \<times> val) list" | OList "val list"

type_synonym heap = "obj list"

definition lookup :: "heap \<Rightarrow> addr \<Rightarrow> obj option" where
  "lookup h a = (if a < length h then Some (h ! a) else None)"

fun is_ref :: "val \<Rightarrow> bool" where
  "is_ref (VRef a) = True"
| "is_ref v = False"

fun addr_of :: "val \<Rightarrow> addr" where
  "addr_of (VRef a) = a"
| "addr_of v = 0"

text \<open>\<open>isinstance(v, dict)\<close> and \<open>isinstance(v, list)\<close>, and what such an object holds.\<close>

definition entries_of :: "heap \<Rightarrow> val \<Rightarrow> (string \<times> val) list option" where
  "entries_of h v =
     (case v of
        VRef a \<Rightarrow> (case lookup h a of Some (ODict d) \<Rightarrow> Some d | _ \<Rightarrow> None)
      | _ \<Rightarrow> None)"

definition items_of :: "heap \<Rightarrow> val \<Rightarrow> val list option" where
  "items_of h v =
     (case v of
        VRef a \<Rightarrow> (case lookup h a of Some (OList xs) \<Rightarrow> Some xs | _ \<Rightarrow> None)
      | _ \<Rightarrow> None)"

text \<open>A value that is no reference, as a document; \<open>==\<close> on two such values.\<close>

fun val_json :: "val \<Rightarrow> json" where
  "val_json VNull = JNull"
| "val_json (VBool b) = JBool b"
| "val_json (VInt i) = JInt i"
| "val_json (VStr s) = JStr s"
| "val_json (VRef a) = JNull"

definition scalar_eq :: "val \<Rightarrow> val \<Rightarrow> bool" where
  "scalar_eq x y = (\<not> is_ref x \<and> \<not> is_ref y \<and> py_eq (val_json x) (val_json y))"

text \<open>
  \<open>x == y\<close>.  One object equals itself; a list or mapping equals no number, string or
  \<open>None\<close>; two lists, or two mappings, are compared entry by entry, which descends into
  the store.  \<open>all_eq\<close> and \<open>items_eq\<close> are these comparisons, given the comparison
  \<open>eq\<close> of two entries.  The first argument of \<open>hp_eq\<close> bounds the depth of the descent
  as the interpreter's recursion limit does: beyond it the comparison raises
  \<open>RecursionError\<close>, which is what happens on two cyclic structures.
\<close>

fun all_eq :: "(val \<Rightarrow> val \<Rightarrow> error + bool) \<Rightarrow> val list \<Rightarrow> val list \<Rightarrow> error + bool" where
  "all_eq eq (x # xs) (y # ys) =
     (case eq x y of
        Inl er \<Rightarrow> Inl er
      | Inr b \<Rightarrow> if b then all_eq eq xs ys else Inr False)"
| "all_eq eq xs ys = Inr True"

fun items_eq ::
  "(val \<Rightarrow> val \<Rightarrow> error + bool) \<Rightarrow> (string \<times> val) list \<Rightarrow> (string \<times> val) list \<Rightarrow> error + bool"
where
  "items_eq eq [] d' = Inr True"
| "items_eq eq ((k, v) # d) d' =
     (case map_of d' k of
        None \<Rightarrow> Inr False
      | Some v' \<Rightarrow>
          (case eq v v' of
             Inl er \<Rightarrow> Inl er
           | Inr b \<Rightarrow> if b then items_eq eq d d' else Inr False))"

definition obj_eq ::
  "(val \<Rightarrow> val \<Rightarrow> error + bool) \<Rightarrow> obj option \<Rightarrow> obj option \<Rightarrow> error + bool" where
  "obj_eq eq p q =
     (case (p, q) of
        (Some (OList xs), Some (OList ys)) \<Rightarrow>
          if length xs = length ys then all_eq eq xs ys else Inr False
      | (Some (ODict d), Some (ODict d')) \<Rightarrow>
          if length d = length d' then items_eq eq d d' else Inr False
      | _ \<Rightarrow> Inr False)"

primrec hp_eq :: "nat \<Rightarrow> heap \<Rightarrow> val \<Rightarrow> val \<Rightarrow> error + bool" where
  "hp_eq 0 h x y =
     (if is_ref x \<and> is_ref y then (if x = y then Inr True else Inl RecursionError)
      else Inr (scalar_eq x y))"
| "hp_eq (Suc n) h x y =
     (if is_ref x \<and> is_ref y then
        (if x = y then Inr True
         else obj_eq (hp_eq n h) (lookup h (addr_of x)) (lookup h (addr_of y)))
      else Inr (scalar_eq x y))"

text \<open>\<open>item in xs\<close>: the elements are tried in order.\<close>

fun hp_in :: "nat \<Rightarrow> heap \<Rightarrow> val \<Rightarrow> val list \<Rightarrow> error + bool" where
  "hp_in n h item [] = Inr False"
| "hp_in n h item (x # xs) =
     (case hp_eq n h x item of
        Inl er \<Rightarrow> Inl er
      | Inr b \<Rightarrow> if b then Inr True else hp_in n h item xs)"

text \<open>
  The inner loop, lines 406 to 408, on the list object at \<open>a\<close>; the last argument holds
  the items of \<open>value\<close> still to come.  The items are those \<open>value\<close> held when the loop
  began: the loop appends to \<open>merged[key]\<close> only, and where that is the object \<open>value\<close>
  itself, every item is found in it and nothing is appended.
\<close>

fun hp_append_missing :: "nat \<Rightarrow> heap \<Rightarrow> addr \<Rightarrow> val list \<Rightarrow> error + heap" where
  "hp_append_missing n h a [] = Inr h"
| "hp_append_missing n h a (item # items) =
     (case lookup h a of
        Some (OList xs) \<Rightarrow>
          (case hp_in n h item xs of
             Inl er \<Rightarrow> Inl er
           | Inr b \<Rightarrow>
               hp_append_missing n (if b then h else h[a := OList (xs @ [item])]) a items)
      | _ \<Rightarrow> Inl Unmodelled)"

text \<open>\<open>d[key] = v\<close> and \<open>d.get(key)\<close> on the mapping object at \<open>m\<close>.\<close>

definition hp_setitem :: "heap \<Rightarrow> addr \<Rightarrow> string \<Rightarrow> val \<Rightarrow> heap" where
  "hp_setitem h m key v =
     (case lookup h m of
        Some (ODict md) \<Rightarrow> h[m := ODict (AList.update key v md)]
      | _ \<Rightarrow> h)"

definition hp_get :: "heap \<Rightarrow> addr \<Rightarrow> string \<Rightarrow> val option" where
  "hp_get h m key =
     (case lookup h m of
        Some (ODict md) \<Rightarrow> map_of md key
      | _ \<Rightarrow> None)"

text \<open>
  \<open>deep_merge_settings\<close> on the objects at \<open>base\<close> and \<open>overlay\<close>.  \<open>hp_merge\<close> is the
  function: \<open>merged = dict(base)\<close> allocates a new mapping with the entries of \<open>base\<close>,
  and the result is the store the call leaves and the address of \<open>merged\<close>.  Its first
  argument is what is left of the recursion limit.  \<open>hp_loop\<close> is its loop, with the
  address of \<open>merged\<close> and the items of \<open>overlay\<close> still to come, and \<open>hp_round\<close> is one
  round of it; \<open>call\<close> is \<open>deep_merge_settings\<close> as the round calls it, one level
  deeper.  A call on something that is no mapping is not modelled.
\<close>

definition hp_round ::
  "nat \<Rightarrow> (heap \<Rightarrow> addr \<Rightarrow> addr \<Rightarrow> error + (heap \<times> addr)) \<Rightarrow>
   heap \<Rightarrow> addr \<Rightarrow> string \<Rightarrow> val \<Rightarrow> error + heap" where
  "hp_round n call h merged key value =
     (case hp_get h merged key of
        None \<Rightarrow> Inr (hp_setitem h merged key value)
      | Some mv \<Rightarrow>
          if entries_of h mv \<noteq> None \<and> entries_of h value \<noteq> None then
            (case call h (addr_of mv) (addr_of value) of
               Inl er \<Rightarrow> Inl er
             | Inr (h1, r) \<Rightarrow> Inr (hp_setitem h1 merged key (VRef r)))
          else
            (case (items_of h mv, items_of h value) of
               (Some xs, Some ys) \<Rightarrow> hp_append_missing n h (addr_of mv) ys
             | _ \<Rightarrow> Inr (hp_setitem h merged key value)))"

fun hp_loop ::
  "nat \<Rightarrow> (heap \<Rightarrow> addr \<Rightarrow> addr \<Rightarrow> error + (heap \<times> addr)) \<Rightarrow>
   heap \<Rightarrow> addr \<Rightarrow> (string \<times> val) list \<Rightarrow> error + heap" where
  "hp_loop n call h merged [] = Inr h"
| "hp_loop n call h merged ((key, value) # rest) =
     (case hp_round n call h merged key value of
        Inl er \<Rightarrow> Inl er
      | Inr h1 \<Rightarrow> hp_loop n call h1 merged rest)"

primrec hp_merge :: "nat \<Rightarrow> heap \<Rightarrow> addr \<Rightarrow> addr \<Rightarrow> error + (heap \<times> addr)" where
  "hp_merge 0 h base overlay = Inl RecursionError"
| "hp_merge (Suc n) h base overlay =
     (case (lookup h base, lookup h overlay) of
        (Some (ODict bd), Some (ODict od)) \<Rightarrow>
          (case hp_loop n (hp_merge n) (h @ [ODict bd]) (length h) od of
             Inl er \<Rightarrow> Inl er
           | Inr h' \<Rightarrow> Inr (h', length h))
      | _ \<Rightarrow> Inl Unmodelled)"

text \<open>
  The document that a value stands for in a store, read to a bounded depth; \<open>None\<close>
  where the structure is deeper, or cyclic.
\<close>

primrec denote :: "nat \<Rightarrow> heap \<Rightarrow> val \<Rightarrow> json option" where
  "denote 0 h v = (if is_ref v then None else Some (val_json v))"
| "denote (Suc n) h v =
     (if is_ref v then
        (case lookup h (addr_of v) of
           Some (OList xs) \<Rightarrow> map_option JList (those (map (denote n h) xs))
         | Some (ODict d) \<Rightarrow>
             map_option JDict (those (map (\<lambda>(k, x). map_option (Pair k) (denote n h x)) d))
         | None \<Rightarrow> None)
      else Some (val_json v))"
section \<open>Example environment\<close>

text \<open>A link-free machine, used to run the definitions on concrete inputs.\<close>

text \<open>A compact rendering of documents, standing in for \<open>json.dumps\<close> on this machine.\<close>

fun join_comma :: "string list \<Rightarrow> string" where
  "join_comma [] = []"
| "join_comma [c] = c"
| "join_comma (c # cs) = c @ '','' @ join_comma cs"

fun render :: "json \<Rightarrow> string" where
  "render JNull = ''null''"
| "render (JBool b) = (if b then ''true'' else ''false'')"
| "render (JInt n) = (if n < 0 then ''-'' @ show_nat (nat (- n)) else show_nat (nat n))"
| "render (JStr s) = [CHR 0x22] @ s @ [CHR 0x22]"
| "render (JList xs) = ''['' @ join_comma (map render xs) @ '']''"
| "render (JDict d) =
     ''{'' @ join_comma (map (\<lambda>(k, v). [CHR 0x22] @ k @ [CHR 0x22] @ '':'' @ render v) d) @ ''}''"

text \<open>The settings template shipped with the installer and a user's settings document.\<close>

definition ex_template :: dict where
  "ex_template =
     [(''model'', JStr ''y''),
      (''permissions'', JDict [(''allow'', JList [JStr ''Read'', JStr ''Grep'']),
                               (''defaultMode'', JStr ''plan'')]),
      (''env'', JDict [(''AWS_PROFILE'', JStr ''dev'')])]"

definition ex_existing :: dict where
  "ex_existing =
     [(''model'', JStr ''x''),
      (''permissions'', JDict [(''allow'', JList [JStr ''Read''])])]"

text \<open>
  Reading a document on this machine.  The byte \<open>0xFF\<close> occurs in no UTF-8 text, so
  bytes that hold it do not decode.  The parser knows these two documents and the empty
  one, and takes any other text to be no JSON.
\<close>

definition ex_loads :: "bytes \<Rightarrow> error + json" where
  "ex_loads b =
     (if CHR 0xFF \<in> set b then Inl UnicodeDecodeError
      else if b = render (JDict ex_template) then Inr (JDict ex_template)
      else if b = render (JDict ex_existing) then Inr (JDict ex_existing)
      else if b = ''{}'' then Inr (JDict [])
      else Inl JSONDecodeError)"

text \<open>The document \<open>{}\<close> as a text editor saves it in UTF-16, with a byte order mark.\<close>

definition ex_utf16 :: bytes where
  "ex_utf16 = [CHR 0xFF, CHR 0xFE, CHR 0x7B, CHR 0x00, CHR 0x7D, CHR 0x00]"

definition ex_env :: env where
  "ex_env = \<lparr>resolve = normpath,
             clock = (\<lambda>n. if n = 0 then ''20260101-120000'' else ''20260101-120001''),
             script_dir = [''opt'', ''dotai''],
             user_home = [''home'', ''u''],
             loads = ex_loads,
             dumps = render,
             py_repr = render,
             exc_text = (\<lambda>b. case b of None \<Rightarrow> ''no such file'' | Some t \<Rightarrow> ''not JSON'')\<rparr>"

definition ex_src :: path where
  "ex_src = [''opt'', ''dotai'', ''standards'', ''home'', ''rules'', ''style.md'']"

definition ex_dest :: path where
  "ex_dest = [''home'', ''u'', ''.claude'', ''rules'', ''style.md'']"

definition ex_fresh :: world where
  "ex_fresh = \<lparr>files = [(ex_src, ''new'')], ticks = 0, trace = []\<rparr>"

definition ex_stale :: world where
  "ex_stale = \<lparr>files = [(ex_src, ''new''), (ex_dest, ''old'')], ticks = 0, trace = []\<rparr>"

definition ex_same :: world where
  "ex_same = \<lparr>files = [(ex_src, ''new''), (ex_dest, ''new'')], ticks = 0, trace = []\<rparr>"

text \<open>
  A snapshot with one proper entry and one crafted entry whose relative path is
  \<open>../../etc/passwd\<close>.
\<close>

definition ex_snap :: path where
  "ex_snap = [''home'', ''u'', ''.claude'', ''backups'', ''20251231-235959'']"

definition ex_evil :: path where
  "ex_evil = ex_snap @ [''..'', ''..'', ''etc'', ''passwd'']"

definition ex_good :: path where
  "ex_good = ex_snap @ [''rules'', ''style.md'']"

definition ex_restore_world :: world where
  "ex_restore_world =
     \<lparr>files = [([''home'', ''u'', ''.claude'', ''etc'', ''passwd''], ''evil''),
               (ex_good, ''old'')],
      ticks = 0, trace = []\<rparr>"

text \<open>A machine on which \<open>~/.claude/rules\<close> is a link to \<open>/etc\<close>.\<close>

definition ex_link_env :: env where
  "ex_link_env =
     ex_env\<lparr>resolve := (\<lambda>p. if prefix [''home'', ''u'', ''.claude'', ''rules''] (normpath p)
                            then ''etc'' # drop 4 (normpath p) else normpath p)\<rparr>"

definition ex_link_world :: world where
  "ex_link_world =
     \<lparr>files = [(ex_snap @ [''rules'', ''passwd''], ''evil''), ([''etc'', ''passwd''], ''root'')],
      ticks = 0, trace = []\<rparr>"

text \<open>
  An installation that holds \<open>CLAUDE.md\<close> and the mandatory rule \<open>security.md\<close>, both up
  to date, and an application state whose reported selection of rules is empty.
\<close>

definition ex_security_src :: path where
  "ex_security_src = [''opt'', ''dotai'', ''standards'', ''home'', ''rules'', ''security.md'']"

definition ex_security_dest :: path where
  "ex_security_dest = [''home'', ''u'', ''.claude'', ''rules'', ''security.md'']"

definition ex_installed_world :: world where
  "ex_installed_world =
     \<lparr>files = [([''opt'', ''dotai'', ''standards'', ''home'', ''CLAUDE.md''], ''main''),
               (ex_security_src, ''rule''),
               ([''home'', ''u'', ''.claude'', ''CLAUDE.md''], ''main''),
               (ex_security_dest, ''rule'')],
      ticks = 0, trace = []\<rparr>"

definition ex_app :: app where
  "ex_app =
     \<lparr>app_scope = ''global'',
      app_selected_rules = {},
      app_selected_agents = {},
      app_rule_info = [\<lparr>item_name = ''security.md'', item_src = ex_security_src,
                         item_mandatory = True\<rparr>],
      app_agent_info = [],
      app_create_global_tasks = False,
      app_create_project_tasks = False,
      app_auto_read = False,
      app_selected_model = ''none'',
      app_cwd = [''home'', ''u'', ''work'']\<rparr>"

text \<open>The same installation after a global run that selected \<open>security.md\<close>.\<close>

definition ex_kept_world :: world where
  "ex_kept_world =
     \<lparr>files =
        [([''opt'', ''dotai'', ''standards'', ''home'', ''CLAUDE.md''], ''main''),
         (ex_security_src, ''rule''),
         ([''home'', ''u'', ''.claude'', ''CLAUDE.md''], ''main''),
         (ex_security_dest, ''rule''),
         ([''home'', ''u'', ''.claude'', ''backups'', ''20260101-120000'', ''CLAUDE.md''],
          ''main''),
         ([''home'', ''u'', ''.claude'', ''backups'', ''20260101-120000'', ''rules'',
           ''security.md''], ''rule'')],
      ticks = 1,
      trace =
        [Copy [''home'', ''u'', ''.claude'', ''CLAUDE.md'']
           [''home'', ''u'', ''.claude'', ''backups'', ''20260101-120000'', ''CLAUDE.md''],
         Copy ex_security_dest
           [''home'', ''u'', ''.claude'', ''backups'', ''20260101-120000'', ''rules'',
            ''security.md'']]\<rparr>"

definition ex_kept_log :: log where
  "ex_kept_log =
     [(''snapshot'', ''Backed up to /home/u/.claude/backups/20260101-120000''),
      (''current'', ''~/.claude/CLAUDE.md''),
      (''current'', ''~/.claude/rules/security.md''),
      (''warning'', ''~/.claude/settings.json (failed to read template: no such file)'')]"

text \<open>An installation whose rule \<open>style.md\<close> differs from the snapshot's.\<close>

definition ex_restore_stale :: world where
  "ex_restore_stale = \<lparr>files = [(ex_good, ''old''), (ex_dest, ''new'')], ticks = 0, trace = []\<rparr>"

text \<open>An installation whose settings document is not JSON.\<close>

definition ex_settings_path :: path where
  "ex_settings_path = [''home'', ''u'', ''.claude'', ''settings.json'']"

definition ex_settings_backup :: path where
  "ex_settings_backup = [''home'', ''u'', ''.claude'', ''settings.json.bak.20260101-120000'']"

definition ex_malformed_world :: world where
  "ex_malformed_world =
     \<lparr>files = [([''opt'', ''dotai'', ''standards'', ''home'', ''settings.json''],
                render (JDict ex_template)),
               (ex_settings_path, ''{oops'')],
      ticks = 0, trace = []\<rparr>"

text \<open>
  The same machine with a \<open>~/.claude/settings.json\<close> saved in UTF-16, and the
  installation of \<open>ex_installed_world\<close> with the settings template and such a file.
\<close>

definition ex_utf16_world :: world where
  "ex_utf16_world =
     \<lparr>files = [([''opt'', ''dotai'', ''standards'', ''home'', ''settings.json''],
                render (JDict ex_template)),
               (ex_settings_path, ex_utf16)],
      ticks = 0, trace = []\<rparr>"

definition ex_utf16_installed :: world where
  "ex_utf16_installed =
     \<lparr>files = [([''opt'', ''dotai'', ''standards'', ''home'', ''CLAUDE.md''], ''main''),
               (ex_security_src, ''rule''),
               ([''opt'', ''dotai'', ''standards'', ''home'', ''settings.json''],
                render (JDict ex_template)),
               ([''home'', ''u'', ''.claude'', ''CLAUDE.md''], ''main''),
               (ex_security_dest, ''rule''),
               (ex_settings_path, ex_utf16)],
      ticks = 0, trace = []\<rparr>"

text \<open>
  Task templates, and an installation whose \<open>lessons.md\<close> holds a heading and nothing
  else.
\<close>

definition ex_lessons_src :: path where
  "ex_lessons_src = [''opt'', ''dotai'', ''standards'', ''tasks'', ''lessons.md'']"

definition ex_todo_src :: path where
  "ex_todo_src = [''opt'', ''dotai'', ''standards'', ''tasks'', ''todo.md'']"

definition ex_lessons_dest :: path where
  "ex_lessons_dest = [''home'', ''u'', ''.claude'', ''tasks'', ''lessons.md'']"

definition ex_todo_dest :: path where
  "ex_todo_dest = [''home'', ''u'', ''.claude'', ''tasks'', ''todo.md'']"

definition ex_tasks_world :: world where
  "ex_tasks_world =
     \<lparr>files = [(ex_lessons_src, ''# Lessons''), (ex_todo_src, ''# Todo''),
               (ex_lessons_dest, ''# My notes'')],
      ticks = 0, trace = []\<rparr>"

text \<open>A project whose \<open>.claude/settings.json\<close> is not JSON.\<close>

definition ex_project_settings :: path where
  "ex_project_settings = [''home'', ''u'', ''work'', ''.claude'', ''settings.json'']"

definition ex_project_world :: world where
  "ex_project_world = \<lparr>files = [(ex_project_settings, ''{oops'')], ticks = 0, trace = []\<rparr>"

text \<open>The same project with a \<open>.claude/settings.json\<close> saved in UTF-16.\<close>

definition ex_utf16_project :: world where
  "ex_utf16_project = \<lparr>files = [(ex_project_settings, ex_utf16)], ticks = 0, trace = []\<rparr>"

text \<open>
  The template with the model of the \<open>sonnet\<close> choice injected, the document that the
  merge with \<open>ex_existing\<close> yields, and an installed document whose \<open>allow\<close> entry is a
  string.
\<close>

definition ex_sonnet_template :: dict where
  "ex_sonnet_template = AList.update ''model'' (JStr ''us.anthropic.claude-sonnet-4-6'') ex_template"

definition ex_sonnet_merged :: dict where
  "ex_sonnet_merged =
     [(''model'', JStr ''us.anthropic.claude-sonnet-4-6''),
      (''permissions'', JDict [(''allow'', JList [JStr ''Read'', JStr ''Grep'']),
                               (''defaultMode'', JStr ''plan'')]),
      (''env'', JDict [(''AWS_PROFILE'', JStr ''dev'')])]"

definition ex_string_existing :: json where
  "ex_string_existing = JDict [(''permissions'', JDict [(''allow'', JStr ''Read Grep'')])]"

definition ex_string_merged :: dict where
  "ex_string_merged =
     [(''model'', JStr ''y''),
      (''permissions'', JDict [(''allow'', JStr ''Read Grep''), (''defaultMode'', JStr ''plan'')]),
      (''env'', JDict [(''AWS_PROFILE'', JStr ''dev'')])]"

text \<open>
  The machine of \<open>ex_malformed_world\<close> after the unreadable document has been copied
  aside, and after the run with the \<open>sonnet\<close> choice; the log of that run.
\<close>

definition ex_backed_up_world :: world where
  "ex_backed_up_world =
     \<lparr>files = [([''opt'', ''dotai'', ''standards'', ''home'', ''settings.json''],
                render (JDict ex_template)),
               (ex_settings_path, ''{oops''),
               (ex_settings_backup, ''{oops'')],
      ticks = 1, trace = [Copy ex_settings_path ex_settings_backup]\<rparr>"

definition ex_recovered_world :: world where
  "ex_recovered_world =
     \<lparr>files = [([''opt'', ''dotai'', ''standards'', ''home'', ''settings.json''],
                render (JDict ex_template)),
               (ex_settings_path, render (JDict ex_sonnet_merged)),
               (ex_settings_backup, ''{oops'')],
      ticks = 1,
      trace = [Copy ex_settings_path ex_settings_backup, WriteText ex_settings_path]\<rparr>"

definition ex_recovered_log :: log where
  "ex_recovered_log =
     [(''warning'',
       ''~/.claude/settings.json (malformed JSON, backed up -> /home/u/.claude/settings.json.bak.20260101-120000)''),
      (''installed'', ''~/.claude/settings.json''),
      (''warning'',
       ''AWS profile '' @ [CHR 0x27] @ ''dev'' @ [CHR 0x27] @ '' not found in ~/.aws/config '' @
       [CHR 0xE2, CHR 0x80, CHR 0x94] @ '' run: aws configure sso --profile dev'')]"

text \<open>
  A store with two documents as \<open>json.loads\<close> builds them, children first: at address
  2 the document \<open>{"model": "y", "permissions": {"allow": ["Read"], "defaultMode":
  "plan"}}\<close>, at address 5 the document \<open>{"permissions": {"allow": ["Read", "Grep"]},
  "model": "x"}\<close>.
\<close>

definition ex_heap :: heap where
  "ex_heap =
     [OList [VStr ''Read''],
      ODict [(''allow'', VRef 0), (''defaultMode'', VStr ''plan'')],
      ODict [(''model'', VStr ''y''), (''permissions'', VRef 1)],
      OList [VStr ''Read'', VStr ''Grep''],
      ODict [(''allow'', VRef 3)],
      ODict [(''permissions'', VRef 4), (''model'', VStr ''x'')]]"

text \<open>The store after the merge of the mappings at 1 and 4, and after that of 2 and 5.\<close>

definition ex_heap_inner :: heap where
  "ex_heap_inner =
     [OList [VStr ''Read'', VStr ''Grep''],
      ODict [(''allow'', VRef 0), (''defaultMode'', VStr ''plan'')],
      ODict [(''model'', VStr ''y''), (''permissions'', VRef 1)],
      OList [VStr ''Read'', VStr ''Grep''],
      ODict [(''allow'', VRef 3)],
      ODict [(''permissions'', VRef 4), (''model'', VStr ''x'')],
      ODict [(''allow'', VRef 0), (''defaultMode'', VStr ''plan'')]]"

definition ex_heap_outer :: heap where
  "ex_heap_outer =
     [OList [VStr ''Read'', VStr ''Grep''],
      ODict [(''allow'', VRef 0), (''defaultMode'', VStr ''plan'')],
      ODict [(''model'', VStr ''y''), (''permissions'', VRef 1)],
      OList [VStr ''Read'', VStr ''Grep''],
      ODict [(''allow'', VRef 3)],
      ODict [(''permissions'', VRef 4), (''model'', VStr ''x'')],
      ODict [(''model'', VStr ''x''), (''permissions'', VRef 7)],
      ODict [(''allow'', VRef 0), (''defaultMode'', VStr ''plan'')]]"

text \<open>The number of mutating filesystem calls made between two states of a run.\<close>

definition writes_between :: "world \<Rightarrow> world \<Rightarrow> nat" where
  "writes_between w w' = length (trace w') - length (trace w)"

section \<open>Notions used in the statements\<close>

text \<open>A stretch of a run that only adds to the trace of filesystem calls, unlinking no
  path outside \<open>U\<close>, and only appends to the log.\<close>

definition extends :: "path set \<Rightarrow> world \<times> log \<Rightarrow> world \<times> log \<Rightarrow> bool" where
  "extends U s s' =
     ((\<exists>ops. trace (fst s') = trace (fst s) @ ops \<and> (\<forall>p. Unlink p \<in> set ops \<longrightarrow> p \<in> U)) \<and>
      (\<exists>new. snd s' = snd s @ new))"

text \<open>The destinations of the catalogue entries that the selection leaves out.\<close>

definition deselected :: "path \<Rightarrow> string set \<Rightarrow> item list \<Rightarrow> path set" where
  "deselected dir selected items =
     {dir @ [item_name it] | it. it \<in> set items \<and> item_name it \<notin> selected}"

text \<open>The log entries hold the result of a \<open>smart_install\<close> whose label starts with
  \<open>label\<close>.\<close>

definition install_logged :: "string \<Rightarrow> log \<Rightarrow> bool" where
  "install_logged label entries =
     (\<exists>st l. (st, l) \<in> set entries \<and> st \<in> {''installed'', ''updated'', ''current''} \<and>
            prefix label l)"

text \<open>The filesystem calls and the log entries a run added.\<close>

definition new_ops :: "world \<Rightarrow> world \<Rightarrow> fs_op list" where
  "new_ops w w' = drop (length (trace w)) (trace w')"

definition new_entries :: "log \<Rightarrow> log \<Rightarrow> log" where
  "new_entries lg lg' = drop (length lg) lg'"

text \<open>
  The spec's wording of the list rule: the elements of the overlay that are not already
  present, each once, in the order of their first occurrence.
\<close>

fun first_new :: "json list \<Rightarrow> json list \<Rightarrow> json list" where
  "first_new seen [] = []"
| "first_new seen (y # ys) =
     (if py_in y seen then first_new seen ys else y # first_new (seen @ [y]) ys)"

text \<open>What a round of the loop of \<open>deep_merge_settings\<close> stores under its key, from the
  value found in \<open>merged\<close> and the overlay's value.\<close>

fun merge_value :: "json option \<Rightarrow> json \<Rightarrow> json" where
  "merge_value (Some (JDict b)) (JDict v) = JDict (deep_merge_settings b v)"
| "merge_value (Some (JList xs)) (JList ys) = JList (append_new xs ys)"
| "merge_value bo v = v"

text \<open>A document as \<open>json.loads\<close> builds it: every mapping has each key once.\<close>

fun wf_json :: "json \<Rightarrow> bool" where
  "wf_json (JList xs) = list_all wf_json xs"
| "wf_json (JDict d) = (distinct (map fst d) \<and> list_all (\<lambda>(k, v). wf_json v) d)"
| "wf_json v = True"

fun is_scalar :: "json \<Rightarrow> bool" where
  "is_scalar (JList xs) = False"
| "is_scalar (JDict d) = False"
| "is_scalar v = True"

fun is_list :: "json \<Rightarrow> bool" where
  "is_list (JList xs) = True"
| "is_list v = False"

text \<open>The entry \<open>d["permissions"][k]\<close> of a document, if there is one.\<close>

definition perm_entry :: "dict \<Rightarrow> string \<Rightarrow> json option" where
  "perm_entry d k =
     (case map_of d ''permissions'' of
        Some (JDict p) \<Rightarrow> map_of p k
      | _ \<Rightarrow> None)"

text \<open>What the deep merge leaves in the base under a key, from the value the base holds
  and the overlay's value.\<close>

fun base_value :: "json \<Rightarrow> json \<Rightarrow> json" where
  "base_value (JDict b) (JDict v) = JDict (deep_merge_base b v)"
| "base_value (JList xs) (JList ys) = JList (append_new xs ys)"
| "base_value bv v = bv"

definition list_or_absent :: "json option \<Rightarrow> bool" where
  "list_or_absent entry = (case entry of None \<Rightarrow> True | Some v \<Rightarrow> is_list v)"

text \<open>A settings template of the expected shape: \<open>env\<close> and \<open>permissions\<close> are mappings
  where present, and the permission entries \<open>allow\<close>, \<open>deny\<close>, \<open>ask\<close> are lists where
  present.\<close>

definition template_ok :: "dict \<Rightarrow> bool" where
  "template_ok t =
     ((case map_of t ''env'' of
         None \<Rightarrow> True
       | Some (JDict tv) \<Rightarrow> True
       | Some v \<Rightarrow> False) \<and>
      (case map_of t ''permissions'' of
         None \<Rightarrow> True
       | Some (JDict p) \<Rightarrow>
           list_or_absent (map_of p ''allow'') \<and> list_or_absent (map_of p ''deny'') \<and>
           list_or_absent (map_of p ''ask'')
       | Some v \<Rightarrow> False))"


text \<open>A number, string or \<open>None\<close> is in a list, by \<open>==\<close>.\<close>

definition scalar_in :: "val \<Rightarrow> val list \<Rightarrow> bool" where
  "scalar_in y xs = list_ex (\<lambda>x. scalar_eq x y) xs"

text \<open>Every list of the store holds numbers, strings and \<open>None\<close> only.\<close>

definition flat_lists :: "heap \<Rightarrow> bool" where
  "flat_lists h =
     list_all (\<lambda>ob. case ob of OList xs \<Rightarrow> list_all (\<lambda>v. \<not> is_ref v) xs | ODict d \<Rightarrow> True) h"

text \<open>
  A value of a mapping: if it is a reference, the address is below \<open>L\<close> and holds an
  object, and \<open>P\<close> holds of it when that is a mapping.
\<close>

definition value_ok :: "(addr \<Rightarrow> bool) \<Rightarrow> nat \<Rightarrow> heap \<Rightarrow> val \<Rightarrow> bool" where
  "value_ok P L h v =
     (case v of
        VRef c \<Rightarrow> c < L \<and> (case lookup h c of
                             Some (ODict x) \<Rightarrow> P c
                           | Some (OList xs) \<Rightarrow> True
                           | None \<Rightarrow> False)
      | _ \<Rightarrow> True)"

section \<open>Basic facts\<close>

lemma map_of_update_if:
  "map_of (AList.update k v al) k' = (if k' = k then Some v else map_of al k')"
  by (simp add: update_conv')

lemma normpath_simps:
  "normpath [] = []"
  "normpath (c # cs) = foldl norm_step (norm_step [] c) cs"
  by (simp_all add: normpath_def)

lemmas ex_paths = ex_env_def ex_src_def ex_dest_def normpath_simps norm_step_def
  backup_path_def path_parent_def path_name_def

section \<open>smart_install\<close>

text \<open>
  Claim C4.  For a readable source, \<open>smart_install\<close> does exactly one of three things.
  Destination absent: it copies the source there and logs \<open>installed\<close>.  Destination
  present with other bytes: it copies the destination to the sibling
  \<open>name.bak.timestamp\<close>, then copies the source over the destination, and logs
  \<open>updated\<close> with the backup's name (the backup name must not itself resolve to the
  destination, or \<open>copy2\<close> refuses).  Destination present with the same bytes: nothing
  is written and it logs \<open>current\<close>.
\<close>

theorem smart_install_cases:
  assumes src: "lookup_file e w src = Some sb"
  shows "(lookup_file e w dest = None \<longrightarrow>
            smart_install e w src dest label lg =
              Inr (w\<lparr>files := AList.update (resolve e dest) sb (files w),
                      trace := trace w @ [Copy src dest]\<rparr>,
                   lg @ [(''installed'', label)]))
       \<and> (\<forall>db. lookup_file e w dest = Some db \<and> db \<noteq> sb \<and>
              resolve e (backup_path dest (clock e (ticks w))) \<noteq> resolve e dest \<longrightarrow>
            smart_install e w src dest label lg =
              Inr (w\<lparr>files := AList.update (resolve e dest)
                               (if resolve e src = resolve e (backup_path dest (clock e (ticks w)))
                                then db else sb)
                               (AList.update (resolve e (backup_path dest (clock e (ticks w)))) db
                                  (files w)),
                      ticks := Suc (ticks w),
                      trace := trace w @ [Copy dest (backup_path dest (clock e (ticks w))),
                                          Copy src dest]\<rparr>,
                   lg @ [(''updated'', label @ '' (backed up -> '' @
                            path_name (backup_path dest (clock e (ticks w))) @ '')'')]))
       \<and> (lookup_file e w dest = Some sb \<longrightarrow>
            smart_install e w src dest label lg = Inr (w, lg @ [(''current'', label)]))"
proof (intro conjI allI impI)
  assume "lookup_file e w dest = None"
  with src show "smart_install e w src dest label lg =
              Inr (w\<lparr>files := AList.update (resolve e dest) sb (files w),
                      trace := trace w @ [Copy src dest]\<rparr>,
                   lg @ [(''installed'', label)])"
    by (auto simp: smart_install_def path_exists_def copy2_def lookup_file_def)
next
  fix db
  assume h: "lookup_file e w dest = Some db \<and> db \<noteq> sb \<and>
              resolve e (backup_path dest (clock e (ticks w))) \<noteq> resolve e dest"
  then have ne: "resolve e src \<noteq> resolve e dest"
    using src by (auto simp: lookup_file_def)
  from h src ne show "smart_install e w src dest label lg =
              Inr (w\<lparr>files := AList.update (resolve e dest)
                               (if resolve e src = resolve e (backup_path dest (clock e (ticks w)))
                                then db else sb)
                               (AList.update (resolve e (backup_path dest (clock e (ticks w)))) db
                                  (files w)),
                      ticks := Suc (ticks w),
                      trace := trace w @ [Copy dest (backup_path dest (clock e (ticks w))),
                                          Copy src dest]\<rparr>,
                   lg @ [(''updated'', label @ '' (backed up -> '' @
                            path_name (backup_path dest (clock e (ticks w))) @ '')'')])"
    by (auto simp: smart_install_def path_exists_def copy2_def lookup_file_def read_bytes_def
          backup_file_def Let_def map_of_update_if)
next
  assume "lookup_file e w dest = Some sb"
  with src show "smart_install e w src dest label lg = Inr (w, lg @ [(''current'', label)])"
    by (auto simp: smart_install_def path_exists_def read_bytes_def)
qed

theorem smart_install_cases_witness:
  "smart_install ex_env ex_fresh ex_src ex_dest ''rules/style.md'' [] =
     Inr (\<lparr>files = [(ex_src, ''new''), (ex_dest, ''new'')], ticks = 0,
           trace = [Copy ex_src ex_dest]\<rparr>, [(''installed'', ''rules/style.md'')])
   \<and> smart_install ex_env ex_stale ex_src ex_dest ''rules/style.md'' [] =
     Inr (\<lparr>files = [(ex_src, ''new''), (ex_dest, ''new''),
                    ([''home'', ''u'', ''.claude'', ''rules'', ''style.md.bak.20260101-120000''],
                     ''old'')],
           ticks = 1,
           trace = [Copy ex_dest
                      [''home'', ''u'', ''.claude'', ''rules'', ''style.md.bak.20260101-120000''],
                    Copy ex_src ex_dest]\<rparr>,
          [(''updated'', ''rules/style.md (backed up -> style.md.bak.20260101-120000)'')])
   \<and> smart_install ex_env ex_same ex_src ex_dest ''rules/style.md'' [] =
     Inr (ex_same, [(''current'', ''rules/style.md'')])"
proof -
  have a: "lookup_file ex_env ex_fresh ex_src = Some ''new''"
          "lookup_file ex_env ex_fresh ex_dest = None"
    by (simp_all add: lookup_file_def ex_fresh_def ex_paths)
  have b: "lookup_file ex_env ex_stale ex_src = Some ''new''"
          "lookup_file ex_env ex_stale ex_dest = Some ''old'' \<and> ''old'' \<noteq> ''new'' \<and>
           resolve ex_env (backup_path ex_dest (clock ex_env (ticks ex_stale))) \<noteq>
           resolve ex_env ex_dest"
    by (simp_all add: lookup_file_def ex_stale_def ex_paths)
  have c: "lookup_file ex_env ex_same ex_src = Some ''new''"
          "lookup_file ex_env ex_same ex_dest = Some ''new''"
    by (simp_all add: lookup_file_def ex_same_def ex_paths)
  from smart_install_cases [OF a(1), of ex_dest "''rules/style.md''" "[]"] a(2)
  have 1: "smart_install ex_env ex_fresh ex_src ex_dest ''rules/style.md'' [] =
     Inr (\<lparr>files = [(ex_src, ''new''), (ex_dest, ''new'')], ticks = 0,
           trace = [Copy ex_src ex_dest]\<rparr>, [(''installed'', ''rules/style.md'')])"
    by (simp add: ex_fresh_def ex_paths)
  from smart_install_cases [OF b(1), of ex_dest "''rules/style.md''" "[]"] b(2)
  have 2: "smart_install ex_env ex_stale ex_src ex_dest ''rules/style.md'' [] =
     Inr (\<lparr>files = [(ex_src, ''new''), (ex_dest, ''new''),
                    ([''home'', ''u'', ''.claude'', ''rules'', ''style.md.bak.20260101-120000''],
                     ''old'')],
           ticks = 1,
           trace = [Copy ex_dest
                      [''home'', ''u'', ''.claude'', ''rules'', ''style.md.bak.20260101-120000''],
                    Copy ex_src ex_dest]\<rparr>,
          [(''updated'', ''rules/style.md (backed up -> style.md.bak.20260101-120000)'')])"
    by (simp add: ex_stale_def ex_paths)
  from smart_install_cases [OF c(1), of ex_dest "''rules/style.md''" "[]"] c(2)
  have 3: "smart_install ex_env ex_same ex_src ex_dest ''rules/style.md'' [] =
     Inr (ex_same, [(''current'', ''rules/style.md'')])"
    by simp
  from 1 2 3 show ?thesis by simp
qed

text \<open>
  Claim C5, as the code has it.  After a successful \<open>smart_install\<close>, running it again
  on the unchanged source writes nothing and logs \<open>current\<close>.  All writes of the two
  runs are those of the first: one copy when the destination was absent, the backup
  copy and the overwrite when it differed, none when it was already equal.
\<close>

theorem smart_install_twice:
  assumes "smart_install e w src dest label lg = Inr (w1, lg1)"
  shows "smart_install e w1 src dest label lg1 = Inr (w1, lg1 @ [(''current'', label)])
       \<and> writes_between w w1 =
           (if \<not> path_exists e w dest then 1
            else if read_bytes e w src = read_bytes e w dest then 0 else 2)"
  using assms
  by (auto simp: smart_install_def path_exists_def copy2_def lookup_file_def read_bytes_def
          backup_file_def Let_def map_of_update_if writes_between_def
        split: if_splits option.splits sum.splits prod.splits)

theorem smart_install_twice_witness:
  "smart_install ex_env
     \<lparr>files = [(ex_src, ''new''), (ex_dest, ''new'')], ticks = 0, trace = [Copy ex_src ex_dest]\<rparr>
     ex_src ex_dest ''rules/style.md'' [(''installed'', ''rules/style.md'')] =
   Inr (\<lparr>files = [(ex_src, ''new''), (ex_dest, ''new'')], ticks = 0,
         trace = [Copy ex_src ex_dest]\<rparr>,
        [(''installed'', ''rules/style.md''), (''current'', ''rules/style.md'')])
   \<and> writes_between ex_fresh
       \<lparr>files = [(ex_src, ''new''), (ex_dest, ''new'')], ticks = 0,
        trace = [Copy ex_src ex_dest]\<rparr> = 1"
proof -
  have run1: "smart_install ex_env ex_fresh ex_src ex_dest ''rules/style.md'' [] =
     Inr (\<lparr>files = [(ex_src, ''new''), (ex_dest, ''new'')], ticks = 0,
           trace = [Copy ex_src ex_dest]\<rparr>, [(''installed'', ''rules/style.md'')])"
    by (simp add: smart_install_def path_exists_def copy2_def lookup_file_def ex_fresh_def
          ex_paths)
  have absent: "\<not> path_exists ex_env ex_fresh ex_dest"
    by (simp add: path_exists_def lookup_file_def ex_fresh_def ex_paths)
  from smart_install_twice [OF run1] absent show ?thesis by simp
qed

text \<open>
  The claim as stated asks for exactly one write over the two runs.  When the
  destination already equals the source, both runs log \<open>current\<close> and neither writes.
\<close>

theorem smart_install_twice_counterexample:
  "smart_install ex_env ex_same ex_src ex_dest ''rules/style.md'' [] =
     Inr (ex_same, [(''current'', ''rules/style.md'')])
   \<and> smart_install ex_env ex_same ex_src ex_dest ''rules/style.md''
       [(''current'', ''rules/style.md'')] =
     Inr (ex_same, [(''current'', ''rules/style.md''), (''current'', ''rules/style.md'')])
   \<and> writes_between ex_same ex_same = 0"
  by (simp add: smart_install_def path_exists_def read_bytes_def lookup_file_def ex_same_def
        writes_between_def ex_paths)

section \<open>restore_snapshot\<close>

lemma restore_entry_escaping:
  "escapes_root e snap_dir item \<Longrightarrow> restore_entry e snap_dir (w, lg) item = Inr (w, lg)"
  by (simp add: escapes_root_def restore_entry_def relative_to_def Let_def)

text \<open>
  Claim C3.  A snapshot entry whose destination resolves outside the resolved
  \<open>CLAUDE_HOME\<close> is skipped: its round of the loop leaves the files, the trace of
  writes and the log as they were, so restoring a listing gives the same result as
  restoring the listing without its escaping entries.
\<close>

theorem restore_skips_escaping:
  "(escapes_root e snap_dir item \<longrightarrow> restore_entry e snap_dir (w, lg) item = Inr (w, lg))
   \<and> restore_entries e snap_dir items s =
       restore_entries e snap_dir (filter (\<lambda>i. \<not> escapes_root e snap_dir i) items) s"
proof
  show "escapes_root e snap_dir item \<longrightarrow> restore_entry e snap_dir (w, lg) item = Inr (w, lg)"
    by (simp add: restore_entry_escaping)
next
  show "restore_entries e snap_dir items s =
       restore_entries e snap_dir (filter (\<lambda>i. \<not> escapes_root e snap_dir i) items) s"
  proof (induction items arbitrary: s)
    case Nil
    show ?case by simp
  next
    case (Cons i items)
    obtain w lg where s: "s = (w, lg)" by (cases s)
    show ?case
    proof (cases "escapes_root e snap_dir i")
      case True
      then show ?thesis using Cons.IH [of s] by (simp add: s restore_entry_escaping)
    next
      case False
      then show ?thesis using Cons.IH by (simp split: sum.splits)
    qed
  qed
qed

lemmas ex_restore = ex_snap_def ex_evil_def ex_good_def ex_restore_world_def CLAUDE_HOME_def

theorem restore_skips_escaping_witness:
  "restore_entry ex_env ex_snap (ex_restore_world, []) ex_evil = Inr (ex_restore_world, [])
   \<and> restore_entries ex_env ex_snap [ex_evil, ex_good] (ex_restore_world, []) =
       Inr (\<lparr>files = [([''home'', ''u'', ''.claude'', ''etc'', ''passwd''], ''evil''),
                      (ex_good, ''old''),
                      ([''home'', ''u'', ''.claude'', ''rules'', ''style.md''], ''old'')],
             ticks = 0,
             trace = [Copy ex_good [''home'', ''u'', ''.claude'', ''rules'', ''style.md'']]\<rparr>,
            [(''restored'', ''~/.claude/rules/style.md'')])"
proof -
  have evil: "escapes_root ex_env ex_snap ex_evil"
    by (simp add: escapes_root_def ex_restore ex_paths)
  have good: "\<not> escapes_root ex_env ex_snap ex_good"
    by (simp add: escapes_root_def ex_restore ex_paths)
  have one: "restore_entries ex_env ex_snap [ex_good] (ex_restore_world, []) =
       Inr (\<lparr>files = [([''home'', ''u'', ''.claude'', ''etc'', ''passwd''], ''evil''),
                      (ex_good, ''old''),
                      ([''home'', ''u'', ''.claude'', ''rules'', ''style.md''], ''old'')],
             ticks = 0,
             trace = [Copy ex_good [''home'', ''u'', ''.claude'', ''rules'', ''style.md'']]\<rparr>,
            [(''restored'', ''~/.claude/rules/style.md'')])"
    by (simp add: restore_entry_def path_exists_def lookup_file_def relative_to_def rel_str_def
          copy2_def Let_def ex_restore ex_paths)
  from restore_skips_escaping
         [of ex_env ex_snap ex_evil ex_restore_world "[]" "[ex_evil, ex_good]"
             "(ex_restore_world, [])"]
       evil good one
  show ?thesis by simp
qed

text \<open>
  The same through a link: \<open>~/.claude/rules\<close> points to \<open>/etc\<close>, the snapshot holds
  \<open>rules/passwd\<close>, and the restore leaves \<open>/etc/passwd\<close> alone.
\<close>

lemma restore_through_link_example:
  "restore_snapshot ex_link_env ex_link_world ex_snap = Inr (ex_link_world, [])"
  by (simp add: restore_snapshot_def rglob_files_def restore_entry_def path_exists_def
        lookup_file_def relative_to_def Let_def ex_link_env_def ex_link_world_def ex_restore
        ex_paths)

section \<open>What a run adds to the trace and the log\<close>

lemma extends_refl: "extends U s s"
  by (simp add: extends_def)

lemma extends_trans: "extends U s s' \<Longrightarrow> extends V s' s'' \<Longrightarrow> extends (U \<union> V) s s''"
  by (fastforce simp: extends_def)

lemma extends_mono: "extends U s s' \<Longrightarrow> U \<subseteq> V \<Longrightarrow> extends V s s'"
  by (fastforce simp: extends_def)

lemma extends_same: "extends U s s' \<Longrightarrow> extends U s' s'' \<Longrightarrow> extends U s s''"
  using extends_trans [of U s s' U s''] by simp

lemma install_loggedI:
  "(st, l) \<in> set entries \<Longrightarrow> st \<in> {''installed'', ''updated'', ''current''} \<Longrightarrow> prefix label l \<Longrightarrow>
     install_logged label entries"
  unfolding install_logged_def by blast

lemma install_logged_append: "install_logged label lg \<Longrightarrow> install_logged label (lg @ new)"
  unfolding install_logged_def by fastforce

lemma extends_logged:
  "extends U (w, lg) (w', lg') \<Longrightarrow> install_logged label lg \<Longrightarrow> install_logged label lg'"
  by (auto simp: extends_def install_logged_append)

lemma copy2_trace: "copy2 e w src dst = Inr w1 \<Longrightarrow> trace w1 = trace w @ [Copy src dst]"
  by (auto simp: copy2_def split: option.splits if_splits)

lemma backup_file_trace:
  "backup_file e w p = Inr (bak, w1) \<Longrightarrow> trace w1 = trace w @ [Copy p bak]"
  by (auto simp: backup_file_def Let_def dest!: copy2_trace split: sum.splits)

lemma copy2_extends: "copy2 e w src dst = Inr w1 \<Longrightarrow> extends U (w, lg) (w1, lg @ new)"
  by (simp add: extends_def copy2_trace)

lemma write_text_extends: "extends U (w, lg) (write_text e w p b, lg @ new)"
  by (simp add: extends_def write_text_def)

lemma log_extends: "extends U (w, lg) (w, lg @ new)"
  by (simp add: extends_def)

lemma smart_install_extends:
  "smart_install e w src dest label lg = Inr (w1, lg1) \<Longrightarrow> extends U (w, lg) (w1, lg1)"
  by (auto simp: smart_install_def extends_def dest!: copy2_trace backup_file_trace
        split: if_splits sum.splits prod.splits)

lemma smart_install_logged:
  assumes "smart_install e w src dest label lg = Inr (w1, lg1)"
  shows "install_logged label lg1"
proof -
  from assms obtain st sfx where
    "lg1 = lg @ [(st, label @ sfx)]" "st \<in> {''installed'', ''updated'', ''current''}"
    by (auto simp: smart_install_def split: if_splits sum.splits prod.splits)
  then show ?thesis
    by (intro install_loggedI [of st "label @ sfx"]) auto
qed

lemma remove_with_log_extends:
  "remove_with_log e w dest label lg = Inr (w1, lg1) \<Longrightarrow> extends {dest} (w, lg) (w1, lg1)"
  by (auto simp: remove_with_log_def unlink_def extends_def dest!: backup_file_trace
        split: if_splits sum.splits prod.splits option.splits)

lemma install_items_effect:
  "install_items e dir lbl selected items (w, lg) = Inr (w', lg') \<Longrightarrow>
     extends (deselected dir selected items) (w, lg) (w', lg') \<and>
     (\<forall>it \<in> set items. item_name it \<in> selected \<longrightarrow> install_logged (lbl @ item_name it) lg')"
proof (induction items arbitrary: w lg)
  case Nil
  then show ?case by (simp add: extends_refl)
next
  case (Cons it its)
  let ?dest = "dir @ [item_name it]" and ?label = "lbl @ item_name it"
  from Cons.prems obtain w1 lg1 where
    step: "(if item_name it \<in> selected
            then smart_install e w (item_src it) ?dest ?label lg
            else remove_with_log e w ?dest ?label lg) = Inr (w1, lg1)"
    and rest: "install_items e dir lbl selected its (w1, lg1) = Inr (w', lg')"
    by (auto split: sum.splits)
  from Cons.IH [OF rest] have
    r: "extends (deselected dir selected its) (w1, lg1) (w', lg')"
       "\<forall>it \<in> set its. item_name it \<in> selected \<longrightarrow> install_logged (lbl @ item_name it) lg'"
    by blast+
  have first: "extends (deselected dir selected (it # its)) (w, lg) (w1, lg1) \<and>
          (item_name it \<in> selected \<longrightarrow> install_logged ?label lg1)"
  proof (cases "item_name it \<in> selected")
    case True
    with step have 1: "smart_install e w (item_src it) ?dest ?label lg = Inr (w1, lg1)" by simp
    from smart_install_extends [OF 1] smart_install_logged [OF 1] show ?thesis by simp
  next
    case False
    with step have 1: "remove_with_log e w ?dest ?label lg = Inr (w1, lg1)" by simp
    from False have "{?dest} \<subseteq> deselected dir selected (it # its)"
      by (auto simp: deselected_def)
    with remove_with_log_extends [OF 1] False show ?thesis
      by (auto intro: extends_mono)
  qed
  have sub: "deselected dir selected its \<subseteq> deselected dir selected (it # its)"
    by (auto simp: deselected_def)
  from first extends_mono [OF r(1) sub]
  have "extends (deselected dir selected (it # its)) (w, lg) (w', lg')"
    by (blast intro: extends_same)
  moreover have "\<forall>i \<in> set (it # its). item_name i \<in> selected \<longrightarrow>
        install_logged (lbl @ item_name i) lg'"
    using first r extends_logged by auto
  ultimately show ?case by blast
qed

lemma snapshot_copy_extends:
  "snapshot_copy e snap_dir fs w = Inr w' \<Longrightarrow> extends U (w, lg) (w', lg)"
proof (induction fs arbitrary: w)
  case Nil
  then show ?case by (simp add: extends_refl)
next
  case (Cons f fs)
  then obtain rel w1 where "copy2 e w f (snap_dir @ rel) = Inr w1"
    and "snapshot_copy e snap_dir fs w1 = Inr w'"
    by (auto split: sum.splits)
  with Cons.IH [of w1] copy2_extends [of e w f "snap_dir @ rel" w1 U lg "[]"]
  show ?case by (auto intro: extends_same)
qed

lemma create_snapshot_extends:
  "create_snapshot e w = Inr (snap, w') \<Longrightarrow> extends U (w, lg) (w', lg)"
proof -
  assume a: "create_snapshot e w = Inr (snap, w')"
  show ?thesis
  proof (cases "\<not> dir_exists e w (CLAUDE_HOME e) \<or> files_to_snap e w = []")
    case True
    with a show ?thesis by (auto simp: create_snapshot_def extends_refl split: if_splits)
  next
    case False
    with a have "snapshot_copy e (BACKUPS_DIR e @ [clock e (ticks w)]) (files_to_snap e w)
                   (w\<lparr>ticks := Suc (ticks w)\<rparr>) = Inr w'"
      by (auto simp: create_snapshot_def Let_def split: sum.splits)
    from snapshot_copy_extends [OF this, of U lg] show ?thesis
      by (simp add: extends_def)
  qed
qed

lemma install_templates_extends:
  "install_templates e tasks_dir lbl tpls (w, lg) = Inr (w', lg') \<Longrightarrow> extends U (w, lg) (w', lg')"
proof (induction tpls arbitrary: w lg)
  case Nil
  then show ?case by (simp add: extends_refl)
next
  case (Cons tpl tpls)
  show ?case
  proof (cases "path_exists e w (tasks_dir @ [tpl]) \<and> file_has_content e w (tasks_dir @ [tpl])")
    case True
    with Cons.prems Cons.IH [of w "lg @ [(''skipped'', lbl @ tpl @ '' (has content)'')]"]
    show ?thesis
      using log_extends [of U w lg] by (auto simp: Let_def intro: extends_same)
  next
    case False
    with Cons.prems obtain w1 where
      c: "copy2 e w (TASKS_DIR e @ [tpl]) (tasks_dir @ [tpl]) = Inr w1" and
      r: "install_templates e tasks_dir lbl tpls (w1, lg @ [(''installed'', lbl @ tpl)]) = Inr (w', lg')"
      by (auto simp: Let_def split: sum.splits)
    from copy2_extends [OF c] Cons.IH [OF r] show ?thesis
      by (blast intro: extends_same)
  qed
qed

lemma load_existing_extends:
  "load_existing e w lg = Inr (ex, w', lg') \<Longrightarrow> extends U (w, lg) (w', lg')"
  by (auto simp: load_existing_def extends_def dest!: backup_file_trace
        split: if_splits sum.splits option.splits prod.splits)

lemma write_settings_extends:
  "write_settings e w ex merged lg = Inr (w', lg') \<Longrightarrow> extends U (w, lg) (w', lg')"
  by (auto simp: write_settings_def extends_def write_text_def dest!: backup_file_trace
        split: if_splits sum.splits prod.splits)

lemma warn_aws_profile_extends:
  "warn_aws_profile e w t lg = Inr lg' \<Longrightarrow> extends U (w, lg) (w, lg')"
  by (auto simp: warn_aws_profile_def extends_def Let_def split: json.splits if_splits)

lemma install_statusline_extends:
  "install_statusline e w lg = Inr (w', lg') \<Longrightarrow> extends U (w, lg) (w', lg')"
  by (auto simp: install_statusline_def extends_refl dest: smart_install_extends split: if_splits)

lemma install_global_settings_extends:
  assumes "install_global_settings e w dm lg = Inr (w', lg')"
  shows "extends U (w, lg) (w', lg')"
proof (cases "read_json e w (HOME_SETTINGS_JSON e)")
  case (Inl er)
  with assms show ?thesis
    by (auto simp: install_global_settings_def log_extends split: if_splits)
next
  case (Inr tj)
  with assms obtain template existing w1 lg1 merged w2 lg2 lg3 where
    "load_existing e w lg = Inr (existing, w1, lg1)"
    "write_settings e w1 existing merged lg1 = Inr (w2, lg2)"
    "warn_aws_profile e w2 (template_after template existing) lg2 = Inr lg3"
    "install_statusline e w2 lg3 = Inr (w', lg')"
    by (auto simp: install_global_settings_def split: sum.splits prod.splits)
  then show ?thesis
    by (blast intro: extends_same load_existing_extends write_settings_extends
          warn_aws_profile_extends install_statusline_extends)
qed

lemma install_auto_read_extends:
  assumes "install_auto_read e w cwd lg = Inr (w', lg')"
  shows "extends U (w, lg) (w', lg')"
proof -
  from assms have "(w' = w \<or> (\<exists>p b. w' = write_text e w p b)) \<and> (\<exists>new. lg' = lg @ new)"
    unfolding install_auto_read_def Let_def
    by (auto split: if_splits sum.splits prod.splits)
  then show ?thesis
    by (auto simp: extends_def write_text_def)
qed

lemma run_project_extends:
  assumes "run_project e w a lg = Inr (w', lg')"
  shows "extends U (w, lg) (w', lg')"
proof (cases "is_git_repo e w (app_cwd a)")
  case False
  with assms show ?thesis by (auto simp: run_project_def log_extends)
next
  case True
  with assms obtain w1 lg1 where
    1: "(if app_create_project_tasks a
         then install_templates e (app_cwd a @ [''tasks'']) ''tasks/'' task_templates (w, lg)
         else Inr (w, lg)) = Inr (w1, lg1)"
    and 2: "(if app_auto_read a then install_auto_read e w1 (app_cwd a) lg1 else Inr (w1, lg1))
            = Inr (w', lg')"
    by (auto simp: run_project_def split: sum.splits)
  from 1 have "extends U (w, lg) (w1, lg1)"
    by (auto simp: extends_refl dest: install_templates_extends split: if_splits)
  moreover from 2 have "extends U (w1, lg1) (w', lg')"
    by (auto simp: extends_refl dest: install_auto_read_extends split: if_splits)
  ultimately show ?thesis by (rule extends_same)
qed

lemma run_global_effect:
  assumes "run_global e w a lg = Inr (w', lg')"
  shows "extends (deselected (CLAUDE_RULES e) (app_selected_rules a) (app_rule_info a) \<union>
                  deselected (CLAUDE_AGENTS e) (app_selected_agents a) (app_agent_info a))
           (w, lg) (w', lg')"
    and "\<forall>it \<in> set (app_rule_info a). item_name it \<in> app_selected_rules a \<longrightarrow>
           install_logged (''~/.claude/rules/'' @ item_name it) lg'"
    and "\<forall>it \<in> set (app_agent_info a). item_name it \<in> app_selected_agents a \<longrightarrow>
           install_logged (''~/.claude/agents/'' @ item_name it) lg'"
proof -
  let ?R = "deselected (CLAUDE_RULES e) (app_selected_rules a) (app_rule_info a)"
  let ?A = "deselected (CLAUDE_AGENTS e) (app_selected_agents a) (app_agent_info a)"
  from assms obtain w1 lg1 w2 lg2 w3 lg3 w4 lg4 where
    1: "smart_install e w (HOME_CLAUDE_MD e) (CLAUDE_MD e) ''~/.claude/CLAUDE.md'' lg = Inr (w1, lg1)"
    and 2: "install_items e (CLAUDE_RULES e) ''~/.claude/rules/'' (app_selected_rules a)
              (app_rule_info a) (w1, lg1) = Inr (w2, lg2)"
    and 3: "install_items e (CLAUDE_AGENTS e) ''~/.claude/agents/'' (app_selected_agents a)
              (app_agent_info a) (w2, lg2) = Inr (w3, lg3)"
    and 4: "(if app_create_global_tasks a
             then install_templates e (CLAUDE_HOME e @ [''tasks'']) ''~/.claude/tasks/''
                    task_templates (w3, lg3)
             else Inr (w3, lg3)) = Inr (w4, lg4)"
    and 5: "install_global_settings e w4 (app_selected_model a) lg4 = Inr (w', lg')"
    by (auto simp: run_global_def split: sum.splits prod.splits)
  have e1: "extends (?R \<union> ?A) (w, lg) (w1, lg1)"
    by (rule smart_install_extends [OF 1])
  have e2: "extends (?R \<union> ?A) (w1, lg1) (w2, lg2)"
    using install_items_effect [OF 2] by (auto intro: extends_mono)
  have e3: "extends (?R \<union> ?A) (w2, lg2) (w3, lg3)"
    using install_items_effect [OF 3] by (auto intro: extends_mono)
  have e4: "extends (?R \<union> ?A) (w3, lg3) (w4, lg4)"
    using 4 by (auto simp: extends_refl dest: install_templates_extends split: if_splits)
  have e5: "extends (?R \<union> ?A) (w4, lg4) (w', lg')"
    by (rule install_global_settings_extends [OF 5])
  show "extends (?R \<union> ?A) (w, lg) (w', lg')"
    using e1 e2 e3 e4 e5 by (blast intro: extends_same)
  have tail3: "extends (?R \<union> ?A) (w3, lg3) (w', lg')"
    using e4 e5 by (rule extends_same)
  show "\<forall>it \<in> set (app_rule_info a). item_name it \<in> app_selected_rules a \<longrightarrow>
           install_logged (''~/.claude/rules/'' @ item_name it) lg'"
    using install_items_effect [OF 2] e3 tail3 by (blast intro: extends_logged)
  show "\<forall>it \<in> set (app_agent_info a). item_name it \<in> app_selected_agents a \<longrightarrow>
           install_logged (''~/.claude/agents/'' @ item_name it) lg'"
    using install_items_effect [OF 3] tail3 by (blast intro: extends_logged)
qed

lemma run_install_effect:
  assumes "run_install e w a = Inr (w', lg')"
  shows "extends (deselected (CLAUDE_RULES e) (app_selected_rules a) (app_rule_info a) \<union>
                  deselected (CLAUDE_AGENTS e) (app_selected_agents a) (app_agent_info a))
           (w, []) (w', lg')"
    and "in_scope a [''global'', ''both''] \<Longrightarrow>
         \<forall>it \<in> set (app_rule_info a). item_name it \<in> app_selected_rules a \<longrightarrow>
           install_logged (''~/.claude/rules/'' @ item_name it) lg'"
    and "in_scope a [''global'', ''both''] \<Longrightarrow>
         \<forall>it \<in> set (app_agent_info a). item_name it \<in> app_selected_agents a \<longrightarrow>
           install_logged (''~/.claude/agents/'' @ item_name it) lg'"
proof -
  let ?U = "deselected (CLAUDE_RULES e) (app_selected_rules a) (app_rule_info a) \<union>
            deselected (CLAUDE_AGENTS e) (app_selected_agents a) (app_agent_info a)"
  from assms obtain w1 lg1 w2 lg2 where
    1: "(if in_scope a [''global'', ''both''] then
              (case create_snapshot e w of
                 Inl er \<Rightarrow> Inl er
               | Inr (snap, w0) \<Rightarrow>
                   Inr (w0, case snap of
                              None \<Rightarrow> []
                            | Some d \<Rightarrow> [(''snapshot'', ''Backed up to '' @ abs_str d)]))
            else Inr (w, [])) = Inr (w1, lg1)"
    and 2: "(if in_scope a [''global'', ''both''] then run_global e w1 a lg1
            else Inr (w1, lg1)) = Inr (w2, lg2)"
    and 3: "(if in_scope a [''project'', ''both''] then run_project e w2 a lg2
          else Inr (w2, lg2)) = Inr (w', lg')"
    unfolding run_install_def by (auto split: sum.splits prod.splits)
  have e1: "extends ?U (w, []) (w1, lg1)"
  proof (cases "in_scope a [''global'', ''both'']")
    case False
    with 1 show ?thesis by (simp add: extends_refl)
  next
    case True
    with 1 obtain snap where "create_snapshot e w = Inr (snap, w1)"
      by (auto split: sum.splits prod.splits)
    from create_snapshot_extends [OF this, of ?U "[]"] show ?thesis
      by (simp add: extends_def)
  qed
  have e2: "extends ?U (w1, lg1) (w2, lg2)"
    using 2 by (auto simp: extends_refl dest: run_global_effect(1) split: if_splits)
  have e3: "extends ?U (w2, lg2) (w', lg')"
    using 3 by (auto simp: extends_refl dest: run_project_extends split: if_splits)
  show "extends ?U (w, []) (w', lg')"
    using e1 e2 e3 by (blast intro: extends_same)
  {
    assume g: "in_scope a [''global'', ''both'']"
    with 2 have rg: "run_global e w1 a lg1 = Inr (w2, lg2)" by simp
    show "\<forall>it \<in> set (app_rule_info a). item_name it \<in> app_selected_rules a \<longrightarrow>
           install_logged (''~/.claude/rules/'' @ item_name it) lg'"
      using run_global_effect(2) [OF rg] e3 by (blast intro: extends_logged)
    show "\<forall>it \<in> set (app_agent_info a). item_name it \<in> app_selected_agents a \<longrightarrow>
           install_logged (''~/.claude/agents/'' @ item_name it) lg'"
      using run_global_effect(3) [OF rg] e3 by (blast intro: extends_logged)
  }
qed

lemmas ex_run = run_install_def run_global_def run_project_def in_scope_def create_snapshot_def
  files_to_snap_def iterdir_files_def dir_exists_def path_exists_def lookup_file_def copy2_def
  relative_to_def smart_install_def read_bytes_def remove_with_log_def backup_file_def unlink_def
  install_global_settings_def read_json_def is_OSError_def Let_def abs_str_def
  HOME_DIR_def HOME_CLAUDE_MD_def CLAUDE_HOME_def CLAUDE_MD_def CLAUDE_RULES_def
  CLAUDE_AGENTS_def BACKUPS_DIR_def HOME_SETTINGS_JSON_def
  ex_security_src_def ex_security_dest_def ex_installed_world_def ex_app_def ex_paths

section \<open>Mandatory items\<close>

text \<open>
  Claim C1 as stated fails: \<open>run_install\<close> does not look at the mandatory names.  Handed
  a selection without \<open>security.md\<close>, it backs the installed rule up and removes it.
\<close>

theorem run_install_removes_mandatory_counterexample:
  "run_install ex_env ex_installed_world ex_app =
     Inr (\<lparr>files =
             [([''opt'', ''dotai'', ''standards'', ''home'', ''CLAUDE.md''], ''main''),
              (ex_security_src, ''rule''),
              ([''home'', ''u'', ''.claude'', ''CLAUDE.md''], ''main''),
              ([''home'', ''u'', ''.claude'', ''backups'', ''20260101-120000'', ''CLAUDE.md''],
               ''main''),
              ([''home'', ''u'', ''.claude'', ''backups'', ''20260101-120000'', ''rules'',
                ''security.md''], ''rule''),
              ([''home'', ''u'', ''.claude'', ''rules'', ''security.md.bak.20260101-120001''],
               ''rule'')],
           ticks = 2,
           trace =
             [Copy [''home'', ''u'', ''.claude'', ''CLAUDE.md'']
                [''home'', ''u'', ''.claude'', ''backups'', ''20260101-120000'', ''CLAUDE.md''],
              Copy ex_security_dest
                [''home'', ''u'', ''.claude'', ''backups'', ''20260101-120000'', ''rules'',
                 ''security.md''],
              Copy ex_security_dest
                [''home'', ''u'', ''.claude'', ''rules'', ''security.md.bak.20260101-120001''],
              Unlink ex_security_dest]\<rparr>,
          [(''snapshot'', ''Backed up to /home/u/.claude/backups/20260101-120000''),
           (''current'', ''~/.claude/CLAUDE.md''),
           (''removed'',
            ''~/.claude/rules/security.md (backed up -> security.md.bak.20260101-120001)''),
           (''warning'', ''~/.claude/settings.json (failed to read template: no such file)'')])"
  by (simp add: ex_run)

text \<open>
  Claim C1, as the code has it.  The front-end's \<open>enforce_mandatory\<close> puts every mandatory
  name back into the selection.  A run on a selection that has passed through it unlinks
  no mandatory rule or agent, and a global run logs an \<open>installed\<close>, \<open>updated\<close> or
  \<open>current\<close> entry for every mandatory item of the catalogue.
\<close>

theorem mandatory_kept_when_enforced:
  assumes run: "run_install e w
                  (a\<lparr>app_selected_rules := enforce_mandatory MANDATORY_RULES rules,
                     app_selected_agents := enforce_mandatory MANDATORY_AGENTS agents\<rparr>)
                = Inr (w', lg')"
  shows "MANDATORY_RULES \<subseteq> enforce_mandatory MANDATORY_RULES rules
       \<and> MANDATORY_AGENTS \<subseteq> enforce_mandatory MANDATORY_AGENTS agents
       \<and> (\<forall>n \<in> MANDATORY_RULES. Unlink (CLAUDE_RULES e @ [n]) \<notin> set (new_ops w w'))
       \<and> (\<forall>n \<in> MANDATORY_AGENTS. Unlink (CLAUDE_AGENTS e @ [n]) \<notin> set (new_ops w w'))
       \<and> (in_scope a [''global'', ''both''] \<longrightarrow>
            (\<forall>it \<in> set (app_rule_info a). item_name it \<in> MANDATORY_RULES \<longrightarrow>
               install_logged (''~/.claude/rules/'' @ item_name it) lg') \<and>
            (\<forall>it \<in> set (app_agent_info a). item_name it \<in> MANDATORY_AGENTS \<longrightarrow>
               install_logged (''~/.claude/agents/'' @ item_name it) lg'))"
proof -
  let ?a = "a\<lparr>app_selected_rules := enforce_mandatory MANDATORY_RULES rules,
              app_selected_agents := enforce_mandatory MANDATORY_AGENTS agents\<rparr>"
  have mr: "MANDATORY_RULES \<subseteq> enforce_mandatory MANDATORY_RULES rules"
    and ma: "MANDATORY_AGENTS \<subseteq> enforce_mandatory MANDATORY_AGENTS agents"
    by (auto simp: enforce_mandatory_def)
  have dirs: "CLAUDE_RULES e \<noteq> CLAUDE_AGENTS e"
    by (simp add: CLAUDE_RULES_def CLAUDE_AGENTS_def)
  from run_install_effect(1) [OF run] obtain ops where
    ops: "trace w' = trace w @ ops"
         "\<forall>p. Unlink p \<in> set ops \<longrightarrow>
              p \<in> deselected (CLAUDE_RULES e) (enforce_mandatory MANDATORY_RULES rules)
                    (app_rule_info a) \<union>
                  deselected (CLAUDE_AGENTS e) (enforce_mandatory MANDATORY_AGENTS agents)
                    (app_agent_info a)"
    by (auto simp: extends_def)
  have new: "new_ops w w' = ops" by (simp add: new_ops_def ops(1))
  have r: "\<forall>n \<in> MANDATORY_RULES. Unlink (CLAUDE_RULES e @ [n]) \<notin> set (new_ops w w')"
  proof
    fix n assume n: "n \<in> MANDATORY_RULES"
    show "Unlink (CLAUDE_RULES e @ [n]) \<notin> set (new_ops w w')"
    proof
      assume "Unlink (CLAUDE_RULES e @ [n]) \<in> set (new_ops w w')"
      with ops(2) new have "CLAUDE_RULES e @ [n] \<in>
          deselected (CLAUDE_RULES e) (enforce_mandatory MANDATORY_RULES rules) (app_rule_info a) \<union>
          deselected (CLAUDE_AGENTS e) (enforce_mandatory MANDATORY_AGENTS agents) (app_agent_info a)"
        by blast
      with n mr dirs show False by (auto simp: deselected_def)
    qed
  qed
  have g: "\<forall>n \<in> MANDATORY_AGENTS. Unlink (CLAUDE_AGENTS e @ [n]) \<notin> set (new_ops w w')"
  proof
    fix n assume n: "n \<in> MANDATORY_AGENTS"
    show "Unlink (CLAUDE_AGENTS e @ [n]) \<notin> set (new_ops w w')"
    proof
      assume "Unlink (CLAUDE_AGENTS e @ [n]) \<in> set (new_ops w w')"
      with ops(2) new have "CLAUDE_AGENTS e @ [n] \<in>
          deselected (CLAUDE_RULES e) (enforce_mandatory MANDATORY_RULES rules) (app_rule_info a) \<union>
          deselected (CLAUDE_AGENTS e) (enforce_mandatory MANDATORY_AGENTS agents) (app_agent_info a)"
        by blast
      with n ma dirs show False by (auto simp: deselected_def)
    qed
  qed
  have l: "in_scope a [''global'', ''both''] \<longrightarrow>
            (\<forall>it \<in> set (app_rule_info a). item_name it \<in> MANDATORY_RULES \<longrightarrow>
               install_logged (''~/.claude/rules/'' @ item_name it) lg') \<and>
            (\<forall>it \<in> set (app_agent_info a). item_name it \<in> MANDATORY_AGENTS \<longrightarrow>
               install_logged (''~/.claude/agents/'' @ item_name it) lg')"
  proof
    assume "in_scope a [''global'', ''both'']"
    then have s: "in_scope ?a [''global'', ''both'']" by (simp add: in_scope_def)
    from run_install_effect(2) [OF run s] run_install_effect(3) [OF run s] mr ma
    show "(\<forall>it \<in> set (app_rule_info a). item_name it \<in> MANDATORY_RULES \<longrightarrow>
               install_logged (''~/.claude/rules/'' @ item_name it) lg') \<and>
            (\<forall>it \<in> set (app_agent_info a). item_name it \<in> MANDATORY_AGENTS \<longrightarrow>
               install_logged (''~/.claude/agents/'' @ item_name it) lg')"
      by auto
  qed
  from mr ma r g l show ?thesis by blast
qed

theorem mandatory_kept_when_enforced_witness:
  "run_install ex_env ex_installed_world
     (ex_app\<lparr>app_selected_rules := enforce_mandatory MANDATORY_RULES {},
              app_selected_agents := enforce_mandatory MANDATORY_AGENTS {}\<rparr>) =
     Inr (ex_kept_world, ex_kept_log)
   \<and> Unlink ex_security_dest \<notin> set (new_ops ex_installed_world ex_kept_world)
   \<and> install_logged ''~/.claude/rules/security.md'' ex_kept_log"
proof -
  have run: "run_install ex_env ex_installed_world
     (ex_app\<lparr>app_selected_rules := enforce_mandatory MANDATORY_RULES {},
              app_selected_agents := enforce_mandatory MANDATORY_AGENTS {}\<rparr>) =
     Inr (ex_kept_world, ex_kept_log)"
    by (simp add: ex_run ex_kept_world_def ex_kept_log_def enforce_mandatory_def
          MANDATORY_RULES_def MANDATORY_AGENTS_def)
  from mandatory_kept_when_enforced [OF run] run show ?thesis
    by (simp add: MANDATORY_RULES_def in_scope_def ex_app_def CLAUDE_RULES_def CLAUDE_HOME_def
          ex_env_def ex_security_dest_def)
qed

section \<open>Backups\<close>

lemma copy2_files:
  "copy2 e w src dst = Inr w1 \<Longrightarrow>
     \<exists>b. lookup_file e w src = Some b \<and> resolve e src \<noteq> resolve e dst \<and>
         files w1 = AList.update (resolve e dst) b (files w) \<and> ticks w1 = ticks w"
  by (auto simp: copy2_def split: option.splits if_splits)

lemma backup_file_result:
  assumes "backup_file e w p = Inr (bak, w1)"
  shows "bak = backup_path p (clock e (ticks w))"
    and "resolve e bak \<noteq> resolve e p"
    and "\<exists>b. lookup_file e w p = Some b \<and> files w1 = AList.update (resolve e bak) b (files w)"
    and "ticks w1 = Suc (ticks w)"
  using assms
  by (auto simp: backup_file_def Let_def lookup_file_def dest!: copy2_files split: sum.splits)

lemma backup_file_keeps:
  assumes "backup_file e w p = Inr (bak, w1)" and "lookup_file e w p = Some db"
  shows "lookup_file e w1 bak = Some db" and "lookup_file e w1 p = Some db"
  using backup_file_result [OF assms(1)] assms(2)
  by (auto simp: lookup_file_def map_of_update_if)

lemma smart_install_backup:
  assumes run: "smart_install e w src dest label lg = Inr (w', lg')"
    and old: "lookup_file e w dest = Some db"
    and changed: "lookup_file e w' dest \<noteq> Some db"
  shows "lookup_file e w' (backup_path dest (clock e (ticks w))) = Some db"
proof -
  from run old changed obtain bak w1 where
    b: "backup_file e w dest = Inr (bak, w1)" and c: "copy2 e w1 src dest = Inr w'"
    by (auto simp: smart_install_def path_exists_def split: if_splits sum.splits prod.splits)
  from backup_file_result [OF b] backup_file_keeps [OF b old] copy2_files [OF c]
  show ?thesis
    by (auto simp: lookup_file_def map_of_update_if)
qed

lemma remove_with_log_backup:
  assumes run: "remove_with_log e w dest label lg = Inr (w', lg')"
    and old: "lookup_file e w dest = Some db"
  shows "lookup_file e w' dest = None"
    and "lookup_file e w' (backup_path dest (clock e (ticks w))) = Some db"
proof -
  from run old obtain bak w1 where
    b: "backup_file e w dest = Inr (bak, w1)" and u: "unlink e w1 dest = Inr w'"
    by (auto simp: remove_with_log_def path_exists_def split: if_splits sum.splits prod.splits)
  from u have f: "files w' = AList.delete (resolve e dest) (files w1)"
    by (auto simp: unlink_def split: option.splits)
  show "lookup_file e w' dest = None"
    by (simp add: lookup_file_def f delete_conv')
  from backup_file_result [OF b] backup_file_keeps [OF b old] f
  show "lookup_file e w' (backup_path dest (clock e (ticks w))) = Some db"
    by (auto simp: lookup_file_def delete_conv')
qed

lemma restore_entry_backup:
  assumes run: "restore_entry e snap_dir (w, lg) item = Inr (w', lg')"
    and rel: "relative_to item snap_dir = Inr rel"
    and old: "lookup_file e w (CLAUDE_HOME e @ rel) = Some db"
    and changed: "lookup_file e w' (CLAUDE_HOME e @ rel) \<noteq> Some db"
  shows "lookup_file e w' (backup_path (CLAUDE_HOME e @ rel) (clock e (ticks w))) = Some db"
proof -
  let ?dest = "CLAUDE_HOME e @ rel"
  from run rel old changed obtain bak w1 where
    b: "backup_file e w ?dest = Inr (bak, w1)" and c: "copy2 e w1 item ?dest = Inr w'"
    by (auto simp: restore_entry_def path_exists_def Let_def
          split: if_splits sum.splits prod.splits)
  from backup_file_result [OF b] backup_file_keeps [OF b old] copy2_files [OF c]
  show ?thesis
    by (auto simp: lookup_file_def map_of_update_if)
qed

lemma settings_write_backup:
  assumes load: "load_existing e w lg = Inr (existing, w1, lg1)"
    and wr: "write_settings e w1 existing merged lg1 = Inr (w', lg')"
    and old: "lookup_file e w (CLAUDE_SETTINGS e) = Some b"
    and changed: "lookup_file e w' (CLAUDE_SETTINGS e) \<noteq> Some b"
    and doc: "(\<exists>er. loads e b = Inl er) \<or> py_truthy existing"
  shows "lookup_file e w' (backup_path (CLAUDE_SETTINGS e) (clock e (ticks w))) = Some b"
proof (cases "loads e b")
  case (Inl er)
  with load old obtain bak where
    bk: "backup_file e w (CLAUDE_SETTINGS e) = Inr (bak, w1)" and ex: "existing = JDict []"
    by (auto simp: load_existing_def path_exists_def read_bytes_def
          split: if_splits sum.splits prod.splits)
  from wr ex have "w' = w1 \<or> w' = write_text e w1 (CLAUDE_SETTINGS e) (dumps e (JDict merged))"
    by (auto simp: write_settings_def split: if_splits)
  with backup_file_result [OF bk] backup_file_keeps [OF bk old] show ?thesis
    by (auto simp: lookup_file_def write_text_def map_of_update_if)
next
  case (Inr j)
  with load old have same: "w1 = w" "existing = j"
    by (auto simp: load_existing_def path_exists_def read_bytes_def split: if_splits)
  from doc Inr same have t: "py_truthy existing" by simp
  from wr changed old same t obtain bak w2 where
    bk: "backup_file e w (CLAUDE_SETTINGS e) = Inr (bak, w2)"
    and w': "w' = write_text e w2 (CLAUDE_SETTINGS e) (dumps e (JDict merged))"
    by (auto simp: write_settings_def path_exists_def split: if_splits sum.splits prod.splits)
  with backup_file_result [OF bk] backup_file_keeps [OF bk old] show ?thesis
    by (auto simp: lookup_file_def write_text_def map_of_update_if)
qed

lemma write_settings_empty_no_backup:
  assumes "\<not> py_truthy existing" and "\<not> py_eq existing (JDict merged)"
  shows "write_settings e w existing merged lg =
           Inr (write_text e w (CLAUDE_SETTINGS e) (dumps e (JDict merged)),
                lg @ [(''installed'', ''~/.claude/settings.json'')])"
  using assms by (simp add: write_settings_def)

text \<open>
  Claim C2, as the code has it.  When \<open>smart_install\<close>, \<open>remove_with_log\<close> or a round of
  \<open>restore_snapshot\<close> changes or removes the content of its destination, the sibling
  \<open>name.bak.timestamp\<close> holds the destination's former bytes afterwards.  The same
  holds for the write of the global settings document when the document on disk was
  malformed or parsed to a non-empty value.  (An existing document that parses to an
  empty value, a task template's destination and the project settings of
  \<open>install_auto_read\<close> are overwritten without a backup.)
\<close>

theorem backup_before_overwrite:
  "(smart_install e w src dest label lg = Inr (w', lg') \<and>
    lookup_file e w dest = Some db \<and> lookup_file e w' dest \<noteq> Some db \<longrightarrow>
      lookup_file e w' (backup_path dest (clock e (ticks w))) = Some db)
   \<and> (remove_with_log e w dest label lg = Inr (w', lg') \<and> lookup_file e w dest = Some db \<longrightarrow>
      lookup_file e w' dest = None \<and>
      lookup_file e w' (backup_path dest (clock e (ticks w))) = Some db)
   \<and> (restore_entry e snap_dir (w, lg) item = Inr (w', lg') \<and>
      relative_to item snap_dir = Inr rel \<and>
      lookup_file e w (CLAUDE_HOME e @ rel) = Some db \<and>
      lookup_file e w' (CLAUDE_HOME e @ rel) \<noteq> Some db \<longrightarrow>
      lookup_file e w' (backup_path (CLAUDE_HOME e @ rel) (clock e (ticks w))) = Some db)
   \<and> (load_existing e w lg = Inr (existing, wl, lgl) \<and>
      write_settings e wl existing merged lgl = Inr (w', lg') \<and>
      lookup_file e w (CLAUDE_SETTINGS e) = Some db \<and>
      lookup_file e w' (CLAUDE_SETTINGS e) \<noteq> Some db \<and>
      ((\<exists>er. loads e db = Inl er) \<or> py_truthy existing) \<longrightarrow>
      lookup_file e w' (backup_path (CLAUDE_SETTINGS e) (clock e (ticks w))) = Some db)"
  using smart_install_backup [of e w src dest label lg w' lg' db]
        remove_with_log_backup [of e w dest label lg w' lg' db]
        restore_entry_backup [of e snap_dir w lg item w' lg' rel db]
        settings_write_backup [of e w lg existing wl lgl merged w' lg' db]
  by blast

lemmas ex_files = path_exists_def lookup_file_def read_bytes_def copy2_def unlink_def
  write_text_def backup_file_def Let_def

theorem backup_before_overwrite_witness:
  "(\<exists>w' lg'. smart_install ex_env ex_stale ex_src ex_dest ''rules/style.md'' [] = Inr (w', lg') \<and>
      lookup_file ex_env w' (backup_path ex_dest ''20260101-120000'') = Some ''old'')
   \<and> (\<exists>w' lg'. remove_with_log ex_env ex_stale ex_dest ''rules/style.md'' [] = Inr (w', lg') \<and>
      lookup_file ex_env w' ex_dest = None \<and>
      lookup_file ex_env w' (backup_path ex_dest ''20260101-120000'') = Some ''old'')
   \<and> (\<exists>w' lg'. restore_entry ex_env ex_snap (ex_restore_stale, []) ex_good = Inr (w', lg') \<and>
      lookup_file ex_env w' (backup_path ex_dest ''20260101-120000'') = Some ''new'')
   \<and> (\<exists>w1 lg1 w' lg'. load_existing ex_env ex_malformed_world [] = Inr (JDict [], w1, lg1) \<and>
      write_settings ex_env w1 (JDict []) ex_template lg1 = Inr (w', lg') \<and>
      lookup_file ex_env w' ex_settings_backup = Some ''{oops'')"
proof -
  let ?bak = "[''home'', ''u'', ''.claude'', ''rules'', ''style.md.bak.20260101-120000'']"
  have a: "smart_install ex_env ex_stale ex_src ex_dest ''rules/style.md'' [] =
     Inr (\<lparr>files = [(ex_src, ''new''), (ex_dest, ''new''), (?bak, ''old'')], ticks = 1,
           trace = [Copy ex_dest ?bak, Copy ex_src ex_dest]\<rparr>,
          [(''updated'', ''rules/style.md (backed up -> style.md.bak.20260101-120000)'')])"
    by (simp add: smart_install_def ex_files ex_stale_def ex_paths)
  have b: "remove_with_log ex_env ex_stale ex_dest ''rules/style.md'' [] =
     Inr (\<lparr>files = [(ex_src, ''new''), (?bak, ''old'')], ticks = 1,
           trace = [Copy ex_dest ?bak, Unlink ex_dest]\<rparr>,
          [(''removed'', ''rules/style.md (backed up -> style.md.bak.20260101-120000)'')])"
    by (simp add: remove_with_log_def ex_files ex_stale_def ex_paths)
  have c: "restore_entry ex_env ex_snap (ex_restore_stale, []) ex_good =
     Inr (\<lparr>files = [(ex_good, ''old''), (ex_dest, ''old''), (?bak, ''new'')], ticks = 1,
           trace = [Copy ex_dest ?bak, Copy ex_good ex_dest]\<rparr>,
          [(''restored'', ''~/.claude/rules/style.md'')])"
    by (simp add: restore_entry_def relative_to_def rel_str_def ex_files ex_restore_stale_def
          ex_restore ex_paths)
  have rel: "relative_to ex_good ex_snap = Inr [''rules'', ''style.md'']"
    by (simp add: relative_to_def ex_restore)
  have dest: "CLAUDE_HOME ex_env @ [''rules'', ''style.md''] = ex_dest"
    by (simp add: CLAUDE_HOME_def ex_paths)
  have d1: "load_existing ex_env ex_malformed_world [] =
     Inr (JDict [],
          \<lparr>files = [([''opt'', ''dotai'', ''standards'', ''home'', ''settings.json''],
                      render (JDict ex_template)),
                     (ex_settings_path, ''{oops''), (ex_settings_backup, ''{oops'')],
            ticks = 1, trace = [Copy ex_settings_path ex_settings_backup]\<rparr>,
          [(''warning'', ''~/.claude/settings.json (malformed JSON, backed up -> '' @
                         ''/home/u/.claude/settings.json.bak.20260101-120000)'')])"
    by (simp add: load_existing_def ex_files ex_malformed_world_def ex_settings_path_def
          ex_settings_backup_def CLAUDE_SETTINGS_def CLAUDE_HOME_def ex_loads_def
          ex_template_def ex_existing_def abs_str_def ex_paths)
  have d2: "write_settings ex_env
          \<lparr>files = [([''opt'', ''dotai'', ''standards'', ''home'', ''settings.json''],
                      render (JDict ex_template)),
                     (ex_settings_path, ''{oops''), (ex_settings_backup, ''{oops'')],
            ticks = 1, trace = [Copy ex_settings_path ex_settings_backup]\<rparr>
          (JDict []) ex_template
          [(''warning'', ''~/.claude/settings.json (malformed JSON, backed up -> '' @
                         ''/home/u/.claude/settings.json.bak.20260101-120000)'')] =
     Inr (\<lparr>files = [([''opt'', ''dotai'', ''standards'', ''home'', ''settings.json''],
                      render (JDict ex_template)),
                     (ex_settings_path, render (JDict ex_template)),
                     (ex_settings_backup, ''{oops'')],
            ticks = 1,
            trace = [Copy ex_settings_path ex_settings_backup, WriteText ex_settings_path]\<rparr>,
          [(''warning'', ''~/.claude/settings.json (malformed JSON, backed up -> '' @
                         ''/home/u/.claude/settings.json.bak.20260101-120000)''),
           (''installed'', ''~/.claude/settings.json'')])"
    by (simp add: write_settings_def ex_files ex_settings_path_def ex_settings_backup_def
          CLAUDE_SETTINGS_def CLAUDE_HOME_def ex_template_def ex_paths)
  have A: "lookup_file ex_env
             \<lparr>files = [(ex_src, ''new''), (ex_dest, ''new''), (?bak, ''old'')], ticks = 1,
              trace = [Copy ex_dest ?bak, Copy ex_src ex_dest]\<rparr>
             (backup_path ex_dest ''20260101-120000'') = Some ''old''"
    using backup_before_overwrite
      [where e = ex_env and w = ex_stale and src = ex_src and dest = ex_dest
         and label = "''rules/style.md''" and lg = "[]" and db = "''old''"
         and w' = "\<lparr>files = [(ex_src, ''new''), (ex_dest, ''new''), (?bak, ''old'')], ticks = 1,
                    trace = [Copy ex_dest ?bak, Copy ex_src ex_dest]\<rparr>"
         and lg' = "[(''updated'', ''rules/style.md (backed up -> style.md.bak.20260101-120000)'')]"]
      a
    by (simp add: lookup_file_def ex_stale_def ex_paths)
  have B: "lookup_file ex_env
             \<lparr>files = [(ex_src, ''new''), (?bak, ''old'')], ticks = 1,
              trace = [Copy ex_dest ?bak, Unlink ex_dest]\<rparr> ex_dest = None \<and>
           lookup_file ex_env
             \<lparr>files = [(ex_src, ''new''), (?bak, ''old'')], ticks = 1,
              trace = [Copy ex_dest ?bak, Unlink ex_dest]\<rparr>
             (backup_path ex_dest ''20260101-120000'') = Some ''old''"
    using backup_before_overwrite
      [where e = ex_env and w = ex_stale and dest = ex_dest
         and label = "''rules/style.md''" and lg = "[]" and db = "''old''"
         and w' = "\<lparr>files = [(ex_src, ''new''), (?bak, ''old'')], ticks = 1,
                    trace = [Copy ex_dest ?bak, Unlink ex_dest]\<rparr>"
         and lg' = "[(''removed'', ''rules/style.md (backed up -> style.md.bak.20260101-120000)'')]"]
      b
    by (simp add: lookup_file_def ex_stale_def ex_paths)
  have C: "lookup_file ex_env
             \<lparr>files = [(ex_good, ''old''), (ex_dest, ''old''), (?bak, ''new'')], ticks = 1,
              trace = [Copy ex_dest ?bak, Copy ex_good ex_dest]\<rparr>
             (backup_path ex_dest ''20260101-120000'') = Some ''new''"
    using backup_before_overwrite
      [where e = ex_env and w = ex_restore_stale and snap_dir = ex_snap and item = ex_good
         and rel = "[''rules'', ''style.md'']" and lg = "[]" and db = "''new''"
         and w' = "\<lparr>files = [(ex_good, ''old''), (ex_dest, ''old''), (?bak, ''new'')], ticks = 1,
                    trace = [Copy ex_dest ?bak, Copy ex_good ex_dest]\<rparr>"
         and lg' = "[(''restored'', ''~/.claude/rules/style.md'')]"]
      c rel dest
    by (simp add: lookup_file_def ex_restore_stale_def ex_restore ex_paths)
  have D: "lookup_file ex_env
            \<lparr>files = [([''opt'', ''dotai'', ''standards'', ''home'', ''settings.json''],
                      render (JDict ex_template)),
                     (ex_settings_path, render (JDict ex_template)),
                     (ex_settings_backup, ''{oops'')],
            ticks = 1,
            trace = [Copy ex_settings_path ex_settings_backup, WriteText ex_settings_path]\<rparr>
            ex_settings_backup = Some ''{oops''"
    using backup_before_overwrite
      [where e = ex_env and w = ex_malformed_world and lg = "[]" and existing = "JDict []"
         and merged = ex_template and db = "''{oops''"
         and wl = "\<lparr>files = [([''opt'', ''dotai'', ''standards'', ''home'', ''settings.json''],
                      render (JDict ex_template)),
                     (ex_settings_path, ''{oops''), (ex_settings_backup, ''{oops'')],
            ticks = 1, trace = [Copy ex_settings_path ex_settings_backup]\<rparr>"
         and lgl = "[(''warning'', ''~/.claude/settings.json (malformed JSON, backed up -> '' @
                         ''/home/u/.claude/settings.json.bak.20260101-120000)'')]"
         and w' = "\<lparr>files = [([''opt'', ''dotai'', ''standards'', ''home'', ''settings.json''],
                      render (JDict ex_template)),
                     (ex_settings_path, render (JDict ex_template)),
                     (ex_settings_backup, ''{oops'')],
            ticks = 1,
            trace = [Copy ex_settings_path ex_settings_backup, WriteText ex_settings_path]\<rparr>"
         and lg' = "[(''warning'', ''~/.claude/settings.json (malformed JSON, backed up -> '' @
                         ''/home/u/.claude/settings.json.bak.20260101-120000)''),
           (''installed'', ''~/.claude/settings.json'')]"]
      d1 d2
    by (simp add: lookup_file_def ex_malformed_world_def ex_settings_path_def
          ex_settings_backup_def CLAUDE_SETTINGS_def CLAUDE_HOME_def ex_loads_def
          ex_template_def ex_existing_def ex_paths)
  from a A b B c C d1 d2 D show ?thesis by (intro conjI exI) (assumption | simp)+
qed

text \<open>
  The claim as stated fails for the installation of task templates: a destination that
  holds no content (here a heading only) is overwritten by the template, and no backup
  of it is made.
\<close>

theorem task_template_no_backup_counterexample:
  "lookup_file ex_env ex_tasks_world ex_lessons_dest = Some ''# My notes''
   \<and> install_templates ex_env (CLAUDE_HOME ex_env @ [''tasks'']) ''~/.claude/tasks/''
       task_templates (ex_tasks_world, []) =
     Inr (\<lparr>files = [(ex_lessons_src, ''# Lessons''), (ex_todo_src, ''# Todo''),
                    (ex_lessons_dest, ''# Lessons''), (ex_todo_dest, ''# Todo'')],
           ticks = 0,
           trace = [Copy ex_lessons_src ex_lessons_dest, Copy ex_todo_src ex_todo_dest]\<rparr>,
          [(''installed'', ''~/.claude/tasks/lessons.md''),
           (''installed'', ''~/.claude/tasks/todo.md'')])"
  by (simp add: task_templates_def file_has_content_def strip_def splitlines_def is_space_def
        is_linebreak_def TASKS_DIR_def CLAUDE_HOME_def ex_tasks_world_def ex_lessons_src_def
        ex_todo_src_def ex_lessons_dest_def ex_todo_dest_def ex_files ex_paths)

section \<open>deep_merge_settings\<close>

lemma append_new_first_new: "append_new xs ys = xs @ first_new xs ys"
  by (induction ys arbitrary: xs) auto

lemma merge_key_update: "merge_key m k v = AList.update k (merge_value (map_of m k) v) m"
  by (cases v; cases "map_of m k"; simp split: json.splits)

lemma map_of_merge_key:
  "map_of (merge_key m k v) k' = (if k' = k then Some (merge_value (map_of m k) v) else map_of m k')"
  by (simp add: merge_key_update map_of_update_if)

lemma keys_merge_key: "fst ` set (merge_key m k v) = insert k (fst ` set m)"
  by (simp add: merge_key_update dom_update)

lemma keys_deep_merge:
  "fst ` set (deep_merge_settings m ov) = fst ` set m \<union> fst ` set ov"
proof (induction ov arbitrary: m)
  case Nil
  show ?case by simp
next
  case (Cons kv ov)
  obtain k0 v0 where kv: "kv = (k0, v0)" by (cases kv)
  show ?case by (simp add: kv Cons.IH keys_merge_key)
qed

lemma map_of_deep_merge:
  "distinct (map fst ov) \<Longrightarrow>
     map_of (deep_merge_settings m ov) k =
       (case map_of ov k of None \<Rightarrow> map_of m k | Some v \<Rightarrow> Some (merge_value (map_of m k) v))"
proof (induction ov arbitrary: m)
  case Nil
  show ?case by simp
next
  case (Cons kv ov)
  obtain k0 v0 where kv: "kv = (k0, v0)" by (cases kv)
  from Cons.prems kv have d: "distinct (map fst ov)" and nk: "map_of ov k0 = None"
    by (auto simp: map_of_eq_None_iff)
  show ?case
    using Cons.IH [OF d, of "merge_key m k0 v0"] nk
    by (auto simp: kv map_of_merge_key split: option.splits)
qed

lemma first_new_fresh: "y \<in> set (first_new xs ys) \<Longrightarrow> y \<in> set ys \<and> \<not> py_in y xs"
proof (induction ys arbitrary: xs)
  case Nil
  then show ?case by simp
next
  case (Cons a ys)
  have mono: "\<And>z. \<not> py_in z (xs @ [a]) \<Longrightarrow> \<not> py_in z xs"
    by (simp add: py_in_def list_ex_iff)
  from Cons show ?case
    by (auto split: if_splits dest: mono)
qed

text \<open>
  Claim C6.  For an overlay with each key once: the merged document has the keys of
  both inputs; a key with a list on both sides holds the base's list followed by the
  overlay's elements that are not yet present, each once and in the order of first
  occurrence; a key with a mapping on both sides holds the merge of the two mappings;
  any other key of the overlay holds the overlay's value; a key only in the base keeps
  its value.
\<close>

theorem deep_merge_settings_spec:
  assumes "distinct (map fst overlay)"
  shows "fst ` set (deep_merge_settings base overlay) = fst ` set base \<union> fst ` set overlay
       \<and> (\<forall>k xs ys. map_of base k = Some (JList xs) \<and> map_of overlay k = Some (JList ys) \<longrightarrow>
             map_of (deep_merge_settings base overlay) k = Some (JList (xs @ first_new xs ys)))
       \<and> (\<forall>k b v. map_of base k = Some (JDict b) \<and> map_of overlay k = Some (JDict v) \<longrightarrow>
             map_of (deep_merge_settings base overlay) k = Some (JDict (deep_merge_settings b v)))
       \<and> (\<forall>k v. map_of overlay k = Some v \<and>
               \<not> (\<exists>xs ys. map_of base k = Some (JList xs) \<and> v = JList ys) \<and>
               \<not> (\<exists>b d. map_of base k = Some (JDict b) \<and> v = JDict d) \<longrightarrow>
             map_of (deep_merge_settings base overlay) k = Some v)
       \<and> (\<forall>k. map_of overlay k = None \<longrightarrow>
             map_of (deep_merge_settings base overlay) k = map_of base k)"
proof (intro conjI allI impI)
  show "fst ` set (deep_merge_settings base overlay) = fst ` set base \<union> fst ` set overlay"
    by (rule keys_deep_merge)
next
  fix k xs ys
  assume "map_of base k = Some (JList xs) \<and> map_of overlay k = Some (JList ys)"
  then show "map_of (deep_merge_settings base overlay) k = Some (JList (xs @ first_new xs ys))"
    by (simp add: map_of_deep_merge [OF assms] append_new_first_new)
next
  fix k b v
  assume "map_of base k = Some (JDict b) \<and> map_of overlay k = Some (JDict v)"
  then show "map_of (deep_merge_settings base overlay) k = Some (JDict (deep_merge_settings b v))"
    by (simp add: map_of_deep_merge [OF assms])
next
  fix k v
  assume h: "map_of overlay k = Some v \<and>
               \<not> (\<exists>xs ys. map_of base k = Some (JList xs) \<and> v = JList ys) \<and>
               \<not> (\<exists>b d. map_of base k = Some (JDict b) \<and> v = JDict d)"
  then have "merge_value (map_of base k) v = v"
    by (cases "(map_of base k, v)" rule: merge_value.cases) auto
  with h show "map_of (deep_merge_settings base overlay) k = Some v"
    by (simp add: map_of_deep_merge [OF assms])
next
  fix k
  assume "map_of overlay k = None"
  then show "map_of (deep_merge_settings base overlay) k = map_of base k"
    by (simp add: map_of_deep_merge [OF assms])
qed

theorem deep_merge_settings_spec_witness:
  "map_of (deep_merge_settings
             [(''allow'', JList [JStr ''a'', JStr ''b'']), (''model'', JStr ''y'')]
             [(''allow'', JList [JStr ''b'', JStr ''c'']), (''model'', JStr ''x''),
              (''theme'', JStr ''dark'')]) ''allow''
     = Some (JList [JStr ''a'', JStr ''b'', JStr ''c''])
   \<and> map_of (deep_merge_settings
             [(''allow'', JList [JStr ''a'', JStr ''b'']), (''model'', JStr ''y'')]
             [(''allow'', JList [JStr ''b'', JStr ''c'']), (''model'', JStr ''x''),
              (''theme'', JStr ''dark'')]) ''model''
     = Some (JStr ''x'')
   \<and> fst ` set (deep_merge_settings
             [(''allow'', JList [JStr ''a'', JStr ''b'']), (''model'', JStr ''y'')]
             [(''allow'', JList [JStr ''b'', JStr ''c'']), (''model'', JStr ''x''),
              (''theme'', JStr ''dark'')])
     = {''allow'', ''model'', ''theme''}"
proof -
  have d: "distinct (map fst [(''allow'', JList [JStr ''b'', JStr ''c'']), (''model'', JStr ''x''),
              (''theme'', JStr ''dark'')])"
    by simp
  note inst = deep_merge_settings_spec
    [OF d, of "[(''allow'', JList [JStr ''a'', JStr ''b'']), (''model'', JStr ''y'')]"]
  from inst have keys: "fst ` set (deep_merge_settings
             [(''allow'', JList [JStr ''a'', JStr ''b'']), (''model'', JStr ''y'')]
             [(''allow'', JList [JStr ''b'', JStr ''c'']), (''model'', JStr ''x''),
              (''theme'', JStr ''dark'')])
     = {''allow'', ''model'', ''theme''}"
    by auto
  from inst [THEN conjunct2, THEN conjunct1, rule_format,
             of "''allow''" "[JStr ''a'', JStr ''b'']" "[JStr ''b'', JStr ''c'']"]
  have lists: "map_of (deep_merge_settings
             [(''allow'', JList [JStr ''a'', JStr ''b'']), (''model'', JStr ''y'')]
             [(''allow'', JList [JStr ''b'', JStr ''c'']), (''model'', JStr ''x''),
              (''theme'', JStr ''dark'')]) ''allow''
     = Some (JList ([JStr ''a'', JStr ''b''] @ first_new [JStr ''a'', JStr ''b''] [JStr ''b'', JStr ''c'']))"
    by simp
  from inst [THEN conjunct2, THEN conjunct2, THEN conjunct2, THEN conjunct1, rule_format,
             of "''model''" "JStr ''x''"]
  have scalar: "map_of (deep_merge_settings
             [(''allow'', JList [JStr ''a'', JStr ''b'']), (''model'', JStr ''y'')]
             [(''allow'', JList [JStr ''b'', JStr ''c'']), (''model'', JStr ''x''),
              (''theme'', JStr ''dark'')]) ''model''
     = Some (JStr ''x'')"
    by simp
  from keys lists scalar show ?thesis by (simp add: py_in_def)
qed

section \<open>install_auto_read\<close>

lemma auto_read_merge_empty:
  "auto_read_merge (JDict []) = Inr (AUTO_READ_PERMISSIONS, AUTO_READ_ALLOW)"
  by (simp add: auto_read_merge_def setdefault_def AUTO_READ_ALLOW_def AUTO_READ_PERMISSIONS_def
        py_in_def)

lemma show_nat_7: "show_nat 7 = ''7''"
  by (simp add: show_nat.simps digit_char_def)

lemma AUTO_READ_ALLOW_size: "length AUTO_READ_ALLOW = 7" "AUTO_READ_ALLOW \<noteq> []"
  by (simp_all add: AUTO_READ_ALLOW_def)

text \<open>
  The exception that \<open>except (json.JSONDecodeError, OSError)\<close> catches.  When the
  project's \<open>.claude/settings.json\<close> exists and reading it raises \<open>JSONDecodeError\<close>,
  \<open>install_auto_read\<close> takes the document to be empty and writes the auto-read
  permissions block over the file.  The only filesystem call is this write (no backup
  copy is made, the clock is not read), the only log entry is \<open>installed\<close> (no
  \<open>warning\<close>), and every other file is as before: the former content is lost.
\<close>

lemma install_auto_read_not_json:
  assumes present: "lookup_file e w (cwd @ [''.claude'', ''settings.json'']) = Some b"
    and bad: "loads e b = Inl JSONDecodeError"
  shows "install_auto_read e w cwd lg =
           Inr (w\<lparr>files := AList.update (resolve e (cwd @ [''.claude'', ''settings.json'']))
                              (dumps e AUTO_READ_PERMISSIONS) (files w),
                   trace := trace w @ [WriteText (cwd @ [''.claude'', ''settings.json''])]\<rparr>,
                lg @ [(''installed'', ''.claude/settings.json (added 7 permissions)'')])
       \<and> (\<forall>p. lookup_file e
                 (w\<lparr>files := AList.update (resolve e (cwd @ [''.claude'', ''settings.json'']))
                              (dumps e AUTO_READ_PERMISSIONS) (files w),
                   trace := trace w @ [WriteText (cwd @ [''.claude'', ''settings.json''])]\<rparr>) p =
               (if resolve e p = resolve e (cwd @ [''.claude'', ''settings.json''])
                then Some (dumps e AUTO_READ_PERMISSIONS) else lookup_file e w p))"
  using present bad
  by (simp add: install_auto_read_def read_or_empty_def read_json_def path_exists_def
        auto_read_merge_empty write_text_def show_nat_7 AUTO_READ_ALLOW_size Let_def
        lookup_file_def map_of_update_if)

lemma install_auto_read_not_json_example:
  "install_auto_read ex_env ex_project_world [''home'', ''u'', ''work''] [] =
     Inr (\<lparr>files = [(ex_project_settings, render AUTO_READ_PERMISSIONS)], ticks = 0,
           trace = [WriteText ex_project_settings]\<rparr>,
          [(''installed'', ''.claude/settings.json (added 7 permissions)'')])"
proof -
  have present: "lookup_file ex_env ex_project_world
                   ([''home'', ''u'', ''work''] @ [''.claude'', ''settings.json'']) = Some ''{oops''"
    by (simp add: lookup_file_def ex_project_world_def ex_project_settings_def ex_paths)
  have bad: "loads ex_env ''{oops'' = Inl JSONDecodeError"
    by (simp add: ex_env_def ex_loads_def ex_template_def ex_existing_def)
  from install_auto_read_not_json [OF present bad, of "[]"] show ?thesis
    by (simp add: ex_project_world_def ex_project_settings_def ex_paths)
qed

text \<open>
  Any other exception of the read leaves \<open>install_auto_read\<close> through the \<open>except\<close>
  clause: nothing is written and nothing is logged.
\<close>

lemma install_auto_read_raises:
  assumes "lookup_file e w (cwd @ [''.claude'', ''settings.json'']) = Some b"
    and "loads e b = Inl er" and "er \<noteq> JSONDecodeError" and "\<not> is_OSError er"
  shows "install_auto_read e w cwd lg = Inl er"
  using assms
  by (simp add: install_auto_read_def read_or_empty_def read_json_def path_exists_def Let_def)

text \<open>
  Claim C10 does not hold of the code for every file that fails to parse.  A project
  whose \<open>.claude/settings.json\<close> holds the document \<open>{}\<close> saved in UTF-16 is such a
  file: \<open>read_text(encoding="utf-8")\<close> raises \<open>UnicodeDecodeError\<close> on it, which
  \<open>except (json.JSONDecodeError, OSError)\<close> at line 377 does not catch.  The document is
  not taken to be empty and the file is not overwritten: \<open>install_auto_read\<close> ends in
  the exception, with the file as it was.
\<close>

theorem install_auto_read_undecodable:
  "lookup_file ex_env ex_utf16_project ([''home'', ''u'', ''work''] @ [''.claude'', ''settings.json''])
     = Some ex_utf16
   \<and> loads ex_env ex_utf16 = Inl UnicodeDecodeError
   \<and> install_auto_read ex_env ex_utf16_project [''home'', ''u'', ''work''] [] =
       Inl UnicodeDecodeError"
  by (simp add: install_auto_read_def read_or_empty_def read_json_def path_exists_def Let_def
        lookup_file_def is_OSError_def ex_utf16_project_def ex_project_settings_def ex_utf16_def
        ex_loads_def ex_paths)
section \<open>install_global_settings: what the template decides\<close>

text \<open>
  Facts about the two merges and about the loops over the permission keys, towards the
  shape of the document that \<open>merge_with_template\<close> returns.
\<close>

lemma wf_json_lookup: "wf_json (JDict d) \<Longrightarrow> map_of d k = Some v \<Longrightarrow> wf_json v"
  by (auto simp: list_all_iff dest: map_of_SomeD)

lemma base_key_update:
  "base_key b k v = (case map_of b k of None \<Rightarrow> b | Some bv \<Rightarrow> AList.update k (base_value bv v) b)"
  by (cases v; cases "map_of b k"; simp add: update_triv split: json.splits)

lemma map_fst_update_present:
  "map_of al k = Some x \<Longrightarrow> map fst (AList.update k v al) = map fst al"
  by (induction al) auto

lemma keys_base_key: "map fst (base_key b k v) = map fst b"
  by (auto simp: base_key_update map_fst_update_present split: option.splits)

lemma keys_deep_merge_base: "map fst (deep_merge_base b ov) = map fst b"
proof (induction ov arbitrary: b)
  case Nil
  show ?case by simp
next
  case (Cons kv ov)
  obtain k0 v0 where kv: "kv = (k0, v0)" by (cases kv)
  show ?case by (simp add: kv Cons.IH keys_base_key)
qed

lemma map_of_base_key:
  "map_of (base_key b k v) k' =
     (if k' = k then map_option (\<lambda>bv. base_value bv v) (map_of b k) else map_of b k')"
  by (auto simp: base_key_update map_of_update_if split: option.splits)

lemma base_value_scalar: "is_scalar bv \<Longrightarrow> base_value bv v = bv"
  by (cases bv) auto

lemma deep_merge_base_scalar:
  "map_of b k = Some v \<Longrightarrow> is_scalar v \<Longrightarrow> map_of (deep_merge_base b ov) k = Some v"
proof (induction ov arbitrary: b)
  case Nil
  then show ?case by simp
next
  case (Cons kv ov)
  obtain k0 v0 where kv: "kv = (k0, v0)" by (cases kv)
  from Cons.prems have "map_of (base_key b k0 v0) k = Some v"
    by (auto simp: map_of_base_key base_value_scalar)
  from Cons.IH [OF this Cons.prems(2)] show ?case by (simp add: kv)
qed

lemma map_of_deep_merge_base:
  "distinct (map fst ov) \<Longrightarrow>
     map_of (deep_merge_base b ov) k =
       (case map_of ov k of
          None \<Rightarrow> map_of b k
        | Some v \<Rightarrow> map_option (\<lambda>bv. base_value bv v) (map_of b k))"
proof (induction ov arbitrary: b)
  case Nil
  show ?case by simp
next
  case (Cons kv ov)
  obtain k0 v0 where kv: "kv = (k0, v0)" by (cases kv)
  from Cons.prems kv have d: "distinct (map fst ov)" and nk: "map_of ov k0 = None"
    by (auto simp: map_of_eq_None_iff)
  show ?case
    using Cons.IH [OF d, of "base_key b k0 v0"] nk
    by (auto simp: kv map_of_base_key split: option.splits)
qed

lemma append_missing_list:
  "\<exists>zs. append_missing (JList xs) items = Inr (JList (xs @ zs))"
proof (induction items arbitrary: xs)
  case Nil
  show ?case by simp
next
  case (Cons a items)
  show ?case
  proof (cases "py_in a xs")
    case True
    with Cons.IH [of xs] show ?thesis by simp
  next
    case False
    from Cons.IH [of "xs @ [a]"] obtain zs where
      "append_missing (JList (xs @ [a])) items = Inr (JList ((xs @ [a]) @ zs))" by blast
    with False show ?thesis by simp
  qed
qed

lemma perm_entry_update_other:
  "key \<noteq> ''permissions'' \<Longrightarrow> perm_entry (AList.update key v m) k = perm_entry m k"
  by (simp add: perm_entry_def map_of_update_if)

lemma perm_entry_update_perms:
  "perm_entry (AList.update ''permissions'' (JDict mp) m) k = map_of mp k"
  by (simp add: perm_entry_def map_of_update_if)

lemma setdefault_lookup:
  "setdefault d k dflt = (v, d') \<Longrightarrow>
     map_of d' k = Some v \<and> (\<forall>k'. k' \<noteq> k \<longrightarrow> map_of d' k' = map_of d k') \<and>
     v = (case map_of d k of None \<Rightarrow> dflt | Some x \<Rightarrow> x)"
  by (auto simp: setdefault_def map_of_update_if split: option.splits)

lemma perm_list_step_cases:
  assumes "perm_list_step tp m k = Inr m'"
  shows "(py_contains tp (JStr k) = Inr False \<and> m' = m) \<or>
         (\<exists>mp m1 bl mp1 tv items bl'.
            py_contains tp (JStr k) = Inr True \<and>
            setdefault m ''permissions'' (JDict []) = (JDict mp, m1) \<and>
            setdefault mp k (JList []) = (bl, mp1) \<and>
            py_getitem tp k = Inr tv \<and> py_iter tv = Inr items \<and>
            append_missing bl items = Inr bl' \<and>
            m' = AList.update ''permissions'' (JDict (AList.update k bl' mp1)) m1)"
  using assms unfolding perm_list_step_def
  by (auto split: sum.splits bool.splits prod.splits json.splits)

lemma perm_list_step_other:
  assumes "perm_list_step tp m k = Inr m'"
  shows "(\<forall>k'. k' \<noteq> k \<longrightarrow> perm_entry m' k' = perm_entry m k') \<and>
         (\<forall>key. key \<noteq> ''permissions'' \<longrightarrow> map_of m' key = map_of m key)"
proof -
  from perm_list_step_cases [OF assms] show ?thesis
  proof (elim disjE exE conjE)
    assume "m' = m"
    then show ?thesis by simp
  next
    fix mp m1 bl mp1 tv items bl'
    assume a: "setdefault m ''permissions'' (JDict []) = (JDict mp, m1)"
      and b: "setdefault mp k (JList []) = (bl, mp1)"
      and m': "m' = AList.update ''permissions'' (JDict (AList.update k bl' mp1)) m1"
    from setdefault_lookup [OF a] setdefault_lookup [OF b] m'
    show ?thesis
      by (auto simp: perm_entry_def map_of_update_if split: option.splits)
  qed
qed

lemma perm_list_step_list:
  assumes step: "perm_list_step (JDict P) m k = Inr m'"
    and tk: "map_of P k = Some (JList ts)"
    and mk: "perm_entry m k = Some (JList bs)"
  shows "\<exists>zs. perm_entry m' k = Some (JList (bs @ zs))"
proof -
  from tk have c: "py_contains (JDict P) (JStr k) = Inr True" by simp
  from perm_list_step_cases [OF step] c obtain mp m1 bl mp1 tv items bl' where
    a: "setdefault m ''permissions'' (JDict []) = (JDict mp, m1)"
    and b: "setdefault mp k (JList []) = (bl, mp1)"
    and g: "py_getitem (JDict P) k = Inr tv" and i: "py_iter tv = Inr items"
    and ap: "append_missing bl items = Inr bl'"
    and m': "m' = AList.update ''permissions'' (JDict (AList.update k bl' mp1)) m1"
    by auto
  from mk setdefault_lookup [OF a] have "map_of mp k = Some (JList bs)"
    by (auto simp: perm_entry_def split: option.splits json.splits)
  with setdefault_lookup [OF b] have bl: "bl = JList bs" by simp
  from append_missing_list [of bs items] ap bl obtain zs where "bl' = JList (bs @ zs)" by auto
  with m' show ?thesis by (auto simp: perm_entry_update_perms map_of_update_if)
qed

lemma perm_list_step_needs_dict:
  assumes step: "perm_list_step (JDict P) m k = Inr m'" and tk: "map_of P k = Some tv"
    and mp: "map_of m ''permissions'' = Some v"
  shows "\<exists>d. v = JDict d"
proof -
  from tk have c: "py_contains (JDict P) (JStr k) = Inr True" by simp
  from perm_list_step_cases [OF step] c obtain mp0 m1 where
    "setdefault m ''permissions'' (JDict []) = (JDict mp0, m1)" by auto
  with mp show ?thesis by (auto simp: setdefault_def)
qed

lemma perm_scalar_step_cases:
  assumes "perm_scalar_step tp m k = Inr m'"
  shows "(py_contains tp (JStr k) = Inr False \<and> m' = m) \<or>
         (\<exists>mp m1 tv.
            py_contains tp (JStr k) = Inr True \<and> py_getitem tp k = Inr tv \<and>
            setdefault m ''permissions'' (JDict []) = (JDict mp, m1) \<and>
            m' = AList.update ''permissions'' (JDict (AList.update k tv mp)) m1)"
  using assms unfolding perm_scalar_step_def
  by (auto split: sum.splits bool.splits prod.splits json.splits)

lemma perm_scalar_step_other:
  assumes "perm_scalar_step tp m k = Inr m'"
  shows "(\<forall>k'. k' \<noteq> k \<longrightarrow> perm_entry m' k' = perm_entry m k') \<and>
         (\<forall>key. key \<noteq> ''permissions'' \<longrightarrow> map_of m' key = map_of m key)"
proof -
  from perm_scalar_step_cases [OF assms] show ?thesis
  proof (elim disjE exE conjE)
    assume "m' = m"
    then show ?thesis by simp
  next
    fix mp m1 tv
    assume a: "setdefault m ''permissions'' (JDict []) = (JDict mp, m1)"
      and m': "m' = AList.update ''permissions'' (JDict (AList.update k tv mp)) m1"
    from setdefault_lookup [OF a] m'
    show ?thesis
      by (auto simp: perm_entry_def map_of_update_if split: option.splits)
  qed
qed

lemma perm_scalar_step_sets:
  assumes step: "perm_scalar_step (JDict P) m k = Inr m'" and tk: "map_of P k = Some v"
  shows "perm_entry m' k = Some v"
proof -
  from tk have c: "py_contains (JDict P) (JStr k) = Inr True" by simp
  from perm_scalar_step_cases [OF step] c tk obtain mp m1 where
    "m' = AList.update ''permissions'' (JDict (AList.update k v mp)) m1" by auto
  then show ?thesis by (simp add: perm_entry_update_perms map_of_update_if)
qed

lemma list_chain_other:
  "for_each_key perm_list_step tp ks m = Inr m' \<Longrightarrow>
     (\<forall>k'. k' \<notin> set ks \<longrightarrow> perm_entry m' k' = perm_entry m k') \<and>
     (\<forall>key. key \<noteq> ''permissions'' \<longrightarrow> map_of m' key = map_of m key)"
proof (induction ks arbitrary: m)
  case Nil
  then show ?case by simp
next
  case (Cons k ks)
  then obtain m1 where 1: "perm_list_step tp m k = Inr m1"
    and 2: "for_each_key perm_list_step tp ks m1 = Inr m'"
    by (auto split: sum.splits)
  from perm_list_step_other [OF 1] Cons.IH [OF 2] show ?case by auto
qed

lemma scalar_chain_other:
  "for_each_key perm_scalar_step tp ks m = Inr m' \<Longrightarrow>
     (\<forall>k'. k' \<notin> set ks \<longrightarrow> perm_entry m' k' = perm_entry m k') \<and>
     (\<forall>key. key \<noteq> ''permissions'' \<longrightarrow> map_of m' key = map_of m key)"
proof (induction ks arbitrary: m)
  case Nil
  then show ?case by simp
next
  case (Cons k ks)
  then obtain m1 where 1: "perm_scalar_step tp m k = Inr m1"
    and 2: "for_each_key perm_scalar_step tp ks m1 = Inr m'"
    by (auto split: sum.splits)
  from perm_scalar_step_other [OF 1] Cons.IH [OF 2] show ?case by auto
qed

lemma list_chain_entry:
  "for_each_key perm_list_step (JDict P) ks m = Inr m' \<Longrightarrow> distinct ks \<Longrightarrow> k \<in> set ks \<Longrightarrow>
   map_of P k = Some (JList ts) \<Longrightarrow> perm_entry m k = Some (JList bs) \<Longrightarrow>
     \<exists>zs. perm_entry m' k = Some (JList (bs @ zs))"
proof (induction ks arbitrary: m)
  case Nil
  then show ?case by simp
next
  case (Cons k0 ks)
  from Cons.prems(1) obtain m1 where 1: "perm_list_step (JDict P) m k0 = Inr m1"
    and 2: "for_each_key perm_list_step (JDict P) ks m1 = Inr m'"
    by (auto split: sum.splits)
  show ?case
  proof (cases "k0 = k")
    case True
    from perm_list_step_list [OF 1 [unfolded True] Cons.prems(4) Cons.prems(5)]
    obtain zs where "perm_entry m1 k = Some (JList (bs @ zs))" by blast
    moreover from Cons.prems(2) True have "k \<notin> set ks" by simp
    ultimately show ?thesis using list_chain_other [OF 2] by auto
  next
    case False
    with perm_list_step_other [OF 1] Cons.prems(5)
    have "perm_entry m1 k = Some (JList bs)" by simp
    with Cons.IH [OF 2] Cons.prems False show ?thesis by auto
  qed
qed

lemma list_chain_needs_dict:
  "for_each_key perm_list_step (JDict P) ks m = Inr m' \<Longrightarrow> k \<in> set ks \<Longrightarrow>
   map_of P k = Some tv \<Longrightarrow> map_of m ''permissions'' = Some v \<Longrightarrow> \<exists>d. v = JDict d"
proof (induction ks arbitrary: m)
  case Nil
  then show ?case by simp
next
  case (Cons k0 ks)
  from Cons.prems(1) obtain m1 where 1: "perm_list_step (JDict P) m k0 = Inr m1"
    and 2: "for_each_key perm_list_step (JDict P) ks m1 = Inr m'"
    by (auto split: sum.splits)
  from perm_list_step_cases [OF 1] show ?case
  proof (elim disjE exE conjE)
    assume c: "py_contains (JDict P) (JStr k0) = Inr False" and "m1 = m"
    with Cons.prems have "k0 \<noteq> k" by auto
    with Cons.IH [of m] 2 Cons.prems \<open>m1 = m\<close> show ?thesis by auto
  next
    fix mp m1' bl mp1 tv' items bl'
    assume "setdefault m ''permissions'' (JDict []) = (JDict mp, m1')"
    with Cons.prems(4) show ?thesis by (auto simp: setdefault_def)
  qed
qed

lemma scalar_chain_entry:
  "for_each_key perm_scalar_step (JDict P) ks m = Inr m' \<Longrightarrow> distinct ks \<Longrightarrow> k \<in> set ks \<Longrightarrow>
   map_of P k = Some v \<Longrightarrow> perm_entry m' k = Some v"
proof (induction ks arbitrary: m)
  case Nil
  then show ?case by simp
next
  case (Cons k0 ks)
  from Cons.prems(1) obtain m1 where 1: "perm_scalar_step (JDict P) m k0 = Inr m1"
    and 2: "for_each_key perm_scalar_step (JDict P) ks m1 = Inr m'"
    by (auto split: sum.splits)
  show ?case
  proof (cases "k0 = k")
    case True
    from perm_scalar_step_sets [OF 1 [unfolded True] Cons.prems(4)]
    have "perm_entry m1 k = Some v" .
    moreover from Cons.prems(2) True have "k \<notin> set ks" by simp
    ultimately show ?thesis using scalar_chain_other [OF 2] by auto
  next
    case False
    with Cons.IH [OF 2] Cons.prems show ?thesis by auto
  qed
qed

lemma merge_env_cases:
  assumes "merge_env t m = Inr m'"
  shows "(map_of t ''env'' = None \<and> m' = m) \<or>
         (\<exists>tv base. map_of t ''env'' = Some (JDict tv) \<and>
            m' = AList.update ''env'' (JDict (deep_merge_settings base tv)) m)"
  using assms unfolding merge_env_def
  by (auto split: option.splits sum.splits json.splits)

lemma merge_env_other:
  "merge_env t m = Inr m' \<Longrightarrow> key \<noteq> ''env'' \<Longrightarrow> map_of m' key = map_of m key"
  by (auto dest!: merge_env_cases simp: map_of_update_if)

lemma base_value_list: "\<exists>zs. base_value (JList xs) v = JList (xs @ zs)"
  by (cases v) (auto simp: append_new_first_new)

lemma deep_merge_base_list:
  "map_of b k = Some (JList xs) \<Longrightarrow> \<exists>zs. map_of (deep_merge_base b ov) k = Some (JList (xs @ zs))"
proof (induction ov arbitrary: b xs)
  case Nil
  then show ?case by simp
next
  case (Cons kv ov)
  obtain k0 v0 where kv: "kv = (k0, v0)" by (cases kv)
  from base_value_list [of xs v0] obtain zs where z: "base_value (JList xs) v0 = JList (xs @ zs)"
    by blast
  from Cons.prems have "map_of (base_key b k0 v0) k = Some (JList (xs @ (if k0 = k then zs else [])))"
    by (auto simp: map_of_base_key z)
  from Cons.IH [OF this] show ?case by (auto simp: kv)
qed

lemma merge_value_list: "\<exists>zs. merge_value (Some (JList xs)) (JList ys) = JList (xs @ zs)"
  by (simp add: append_new_first_new)

lemma merge_with_template_parts:
  assumes "merge_with_template dm T E = Inr merged"
  shows "\<exists>ex m1 m2. E = JDict ex \<and>
           merge_env (deep_merge_base T ex) (deep_merge_settings T ex) = Inr m1 \<and>
           merge_permissions (deep_merge_base T ex) m1 = Inr m2 \<and>
           merged = (case model_choice dm of None \<Rightarrow> m2 | Some m \<Rightarrow> AList.update ''model'' (JStr m) m2)"
  using assms unfolding merge_with_template_def Let_def
  by (auto split: json.splits sum.splits)

lemma merge_permissions_parts:
  assumes "merge_permissions t m = Inr m'" and "map_of t ''permissions'' = Some tp"
  shows "\<exists>ma. for_each_key perm_list_step tp [''allow'', ''deny'', ''ask''] m = Inr ma \<and>
              for_each_key perm_scalar_step tp
                [''defaultMode'', ''disableBypassPermissionsMode''] ma = Inr m'"
  using assms unfolding merge_permissions_def
  by (auto split: sum.splits)

lemma template_after_permissions:
  assumes "distinct (map fst ex)" and "map_of T ''permissions'' = Some (JDict P)"
  shows "\<exists>P'. map_of (deep_merge_base T ex) ''permissions'' = Some (JDict P') \<and>
              (\<forall>k v. map_of P k = Some v \<and> is_scalar v \<longrightarrow> map_of P' k = Some v) \<and>
              (\<forall>k xs. map_of P k = Some (JList xs) \<longrightarrow> (\<exists>zs. map_of P' k = Some (JList (xs @ zs))))"
proof (cases "map_of ex ''permissions''")
  case None
  with assms show ?thesis by (auto simp: map_of_deep_merge_base)
next
  case (Some v)
  show ?thesis
  proof (cases v)
    case (JDict ep)
    with Some assms have "map_of (deep_merge_base T ex) ''permissions'' = Some (JDict (deep_merge_base P ep))"
      by (simp add: map_of_deep_merge_base)
    then show ?thesis
      by (auto intro: deep_merge_base_scalar deep_merge_base_list)
  qed (use Some assms in \<open>auto simp: map_of_deep_merge_base\<close>)
qed

lemma merged_permissions_entry:
  assumes dex: "distinct (map fst ex)" and wfp: "\<forall>ep. map_of ex ''permissions'' = Some (JDict ep) \<longrightarrow> distinct (map fst ep)"
    and tp: "map_of T ''permissions'' = Some (JDict P)"
    and tk: "map_of P k = Some (JList ts)"
    and ek: "list_or_absent (perm_entry ex k)"
    and isd: "map_of (deep_merge_settings T ex) ''permissions'' = Some (JDict d)"
  shows "\<exists>zs. map_of d k = Some (JList (ts @ zs))"
proof (cases "map_of ex ''permissions''")
  case None
  with dex tp isd have "d = P" by (simp add: map_of_deep_merge)
  with tk show ?thesis by simp
next
  case (Some v)
  with dex tp isd have mv: "merge_value (Some (JDict P)) v = JDict d"
    by (simp add: map_of_deep_merge)
  then obtain ep where v: "v = JDict ep" and d: "d = deep_merge_settings P ep"
    by (cases v) auto
  from wfp Some v have dep: "distinct (map fst ep)" by simp
  from ek Some v have l: "list_or_absent (map_of ep k)" by (simp add: perm_entry_def)
  show ?thesis
  proof (cases "map_of ep k")
    case None
    with tk show ?thesis by (simp add: d map_of_deep_merge [OF dep])
  next
    case (Some x)
    with l obtain es where "x = JList es" by (cases x) (auto simp: list_or_absent_def)
    with Some tk show ?thesis
      by (simp add: d map_of_deep_merge [OF dep] append_new_first_new)
  qed
qed

lemma model_override_lookup:
  "key \<noteq> ''model'' \<Longrightarrow>
   map_of (case model_choice dm of None \<Rightarrow> m2 | Some m \<Rightarrow> AList.update ''model'' (JStr m) m2) key
     = map_of m2 key"
  by (auto simp: map_of_update_if split: option.splits)

lemma model_override_perm:
  "perm_entry (case model_choice dm of None \<Rightarrow> m2 | Some m \<Rightarrow> AList.update ''model'' (JStr m) m2) k
     = perm_entry m2 k"
  by (auto simp: perm_entry_update_other split: option.splits)

lemma template_lists_present:
  assumes wfE: "wf_json existing"
    and run: "merge_with_template default_model template existing = Inr merged"
    and k: "k \<in> {''allow'', ''deny'', ''ask''}"
    and tp: "map_of template ''permissions'' = Some (JDict P)"
    and tk: "map_of P k = Some (JList ts)"
    and ek: "existing = JDict ex" "list_or_absent (perm_entry ex k)"
  shows "\<exists>ms. perm_entry merged k = Some (JList ms) \<and> prefix ts ms"
proof -
  from merge_with_template_parts [OF run] ek(1) obtain m1 m2 where
    env: "merge_env (deep_merge_base template ex) (deep_merge_settings template ex) = Inr m1"
    and perms: "merge_permissions (deep_merge_base template ex) m1 = Inr m2"
    and merged: "merged = (case model_choice default_model of None \<Rightarrow> m2
                           | Some m \<Rightarrow> AList.update ''model'' (JStr m) m2)"
    by auto
  from wfE ek(1) have dex: "distinct (map fst ex)" by simp
  have wfp: "\<forall>ep. map_of ex ''permissions'' = Some (JDict ep) \<longrightarrow> distinct (map fst ep)"
  proof (intro allI impI)
    fix ep
    assume a: "map_of ex ''permissions'' = Some (JDict ep)"
    from wfE ek(1) have "wf_json (JDict ex)" by simp
    from wf_json_lookup [OF this a] show "distinct (map fst ep)" by simp
  qed
  from template_after_permissions [OF dex tp] obtain P' where
    tp': "map_of (deep_merge_base template ex) ''permissions'' = Some (JDict P')"
    and lists: "\<forall>k xs. map_of P k = Some (JList xs) \<longrightarrow> (\<exists>zs. map_of P' k = Some (JList (xs @ zs)))"
    by blast
  from lists tk obtain ts' where tk': "map_of P' k = Some (JList ts')" by blast
  from merge_permissions_parts [OF perms tp'] obtain ma where
    lc: "for_each_key perm_list_step (JDict P') [''allow'', ''deny'', ''ask''] m1 = Inr ma"
    and sc: "for_each_key perm_scalar_step (JDict P')
               [''defaultMode'', ''disableBypassPermissionsMode''] ma = Inr m2"
    by blast
  have kin: "k \<in> set [''allow'', ''deny'', ''ask'']" using k by auto
  have m1p: "map_of m1 ''permissions'' = map_of (deep_merge_settings template ex) ''permissions''"
    by (rule merge_env_other [OF env]) simp
  have "map_of (deep_merge_settings template ex) ''permissions'' \<noteq> None"
    using keys_deep_merge [of template ex] tp
    by (metis UnI1 domI dom_map_of_conv_image_fst map_of_eq_None_iff option.distinct(1))
  then obtain v where v: "map_of m1 ''permissions'' = Some v" using m1p by auto
  from list_chain_needs_dict [OF lc kin tk' v] obtain d where d: "v = JDict d" by blast
  from merged_permissions_entry [OF dex wfp tp tk ek(2)] v d m1p
  obtain zs0 where "map_of d k = Some (JList (ts @ zs0))" by auto
  with v d have e1: "perm_entry m1 k = Some (JList (ts @ zs0))" by (simp add: perm_entry_def)
  from list_chain_entry [OF lc _ kin tk' e1] obtain zs where
    ea: "perm_entry ma k = Some (JList ((ts @ zs0) @ zs))" by auto
  have "k \<notin> set [''defaultMode'', ''disableBypassPermissionsMode'']" using k by auto
  with scalar_chain_other [OF sc] ea have "perm_entry m2 k = Some (JList ((ts @ zs0) @ zs))"
    by simp
  then show ?thesis by (auto simp: merged model_override_perm)
qed

lemma template_scalars_win:
  assumes wfE: "wf_json existing"
    and run: "merge_with_template default_model template existing = Inr merged"
    and k: "k \<in> {''defaultMode'', ''disableBypassPermissionsMode''}"
    and tp: "map_of template ''permissions'' = Some (JDict P)"
    and tk: "map_of P k = Some v" "is_scalar v"
  shows "perm_entry merged k = Some v"
proof -
  from merge_with_template_parts [OF run] obtain ex m1 m2 where
    ex: "existing = JDict ex"
    and perms: "merge_permissions (deep_merge_base template ex) m1 = Inr m2"
    and merged: "merged = (case model_choice default_model of None \<Rightarrow> m2
                           | Some m \<Rightarrow> AList.update ''model'' (JStr m) m2)"
    by auto
  from wfE ex have dex: "distinct (map fst ex)" by simp
  from template_after_permissions [OF dex tp] tk obtain P' where
    tp': "map_of (deep_merge_base template ex) ''permissions'' = Some (JDict P')"
    and tk': "map_of P' k = Some v"
    by blast
  from merge_permissions_parts [OF perms tp'] obtain ma where
    sc: "for_each_key perm_scalar_step (JDict P')
               [''defaultMode'', ''disableBypassPermissionsMode''] ma = Inr m2"
    by blast
  have "k \<in> set [''defaultMode'', ''disableBypassPermissionsMode'']" using k by auto
  from scalar_chain_entry [OF sc _ this tk'] have "perm_entry m2 k = Some v" by simp
  then show ?thesis by (simp add: merged model_override_perm)
qed

lemma merge_permissions_other:
  assumes "merge_permissions t m = Inr m'" and "key \<noteq> ''permissions''"
  shows "map_of m' key = map_of m key"
proof (cases "map_of t ''permissions''")
  case None
  with assms show ?thesis by (simp add: merge_permissions_def)
next
  case (Some tp)
  from merge_permissions_parts [OF assms(1) Some] obtain ma where
    "for_each_key perm_list_step tp [''allow'', ''deny'', ''ask''] m = Inr ma"
    "for_each_key perm_scalar_step tp [''defaultMode'', ''disableBypassPermissionsMode''] ma = Inr m'"
    by blast
  from list_chain_other [OF this(1)] scalar_chain_other [OF this(2)] assms(2)
  show ?thesis by simp
qed

lemma merge_value_scalar: "is_scalar v \<Longrightarrow> merge_value bo v = v"
  by (cases "(bo, v)" rule: merge_value.cases) auto

lemma template_after_env:
  assumes "distinct (map fst ex)" and "map_of T ''env'' = Some (JDict tv)"
  shows "\<exists>tv'. map_of (deep_merge_base T ex) ''env'' = Some (JDict tv') \<and>
              map fst tv' = map fst tv \<and>
              (\<forall>k v. map_of tv k = Some v \<and> is_scalar v \<longrightarrow> map_of tv' k = Some v)"
proof (cases "map_of ex ''env''")
  case None
  with assms show ?thesis by (auto simp: map_of_deep_merge_base)
next
  case (Some v)
  show ?thesis
  proof (cases v)
    case (JDict ev)
    with Some assms have "map_of (deep_merge_base T ex) ''env'' = Some (JDict (deep_merge_base tv ev))"
      by (simp add: map_of_deep_merge_base)
    then show ?thesis
      by (auto simp: keys_deep_merge_base intro: deep_merge_base_scalar)
  qed (use Some assms in \<open>auto simp: map_of_deep_merge_base\<close>)
qed

lemma template_env_wins:
  assumes wfT: "wf_json (JDict template)" and wfE: "wf_json existing"
    and run: "merge_with_template default_model template existing = Inr merged"
    and te: "map_of template ''env'' = Some (JDict tv)"
  shows "\<exists>me. map_of merged ''env'' = Some (JDict me) \<and> fst ` set tv \<subseteq> fst ` set me \<and>
              (\<forall>k v. map_of tv k = Some v \<and> is_scalar v \<longrightarrow> map_of me k = Some v)"
proof -
  from merge_with_template_parts [OF run] obtain ex m1 m2 where
    ex: "existing = JDict ex"
    and env: "merge_env (deep_merge_base template ex) (deep_merge_settings template ex) = Inr m1"
    and perms: "merge_permissions (deep_merge_base template ex) m1 = Inr m2"
    and merged: "merged = (case model_choice default_model of None \<Rightarrow> m2
                           | Some m \<Rightarrow> AList.update ''model'' (JStr m) m2)"
    by auto
  from wfT te have dtv: "distinct (map fst tv)"
    using wf_json_lookup [of template "''env''" "JDict tv"] by simp
  from wfE ex have dex: "distinct (map fst ex)" by simp
  from template_after_env [OF dex te] obtain tv' where
    te': "map_of (deep_merge_base template ex) ''env'' = Some (JDict tv')"
    and keys: "map fst tv' = map fst tv"
    and vals: "\<forall>k v. map_of tv k = Some v \<and> is_scalar v \<longrightarrow> map_of tv' k = Some v"
    by blast
  from merge_env_cases [OF env] te' obtain base where
    m1: "m1 = AList.update ''env'' (JDict (deep_merge_settings base tv'))
                (deep_merge_settings template ex)"
    by auto
  let ?me = "deep_merge_settings base tv'"
  have "map_of m1 ''env'' = Some (JDict ?me)" by (simp add: m1 map_of_update_if)
  with merge_permissions_other [OF perms, of "''env''"]
  have "map_of m2 ''env'' = Some (JDict ?me)" by simp
  then have 1: "map_of merged ''env'' = Some (JDict ?me)"
    by (simp add: merged model_override_lookup)
  have "fst ` set tv' = fst ` set tv" using keys by (metis list.set_map)
  then have 2: "fst ` set tv \<subseteq> fst ` set ?me" by (auto simp: keys_deep_merge)
  have dtv': "distinct (map fst tv')" using keys dtv by simp
  have 3: "\<forall>k v. map_of tv k = Some v \<and> is_scalar v \<longrightarrow> map_of ?me k = Some v"
    using vals by (auto simp: map_of_deep_merge [OF dtv'] merge_value_scalar)
  from 1 2 3 show ?thesis by blast
qed

text \<open>
  What the merge of lines 452 to 474 guarantees when it returns \<open>merged\<close>, for a
  template and an installed document in which every mapping has each key once.  For
  each of \<open>allow\<close>, \<open>deny\<close>, \<open>ask\<close> that the template's \<open>permissions\<close> maps to a list, if
  the installed document holds a list or nothing there, the merged entry is a list that
  starts with the template's list, so every element of the template's list is in it;
  each of \<open>defaultMode\<close> and \<open>disableBypassPermissionsMode\<close> that the template's
  \<open>permissions\<close> maps to a scalar has the template's value in the merged document;
  every key of the template's \<open>env\<close> is a key of the merged \<open>env\<close>, with the template's
  value where that is a scalar; and when a model is selected, the merged \<open>model\<close> is the
  model of the choice, which is also what the template holds after the injection of
  line 439.
\<close>

lemma template_wins:
  assumes wfT: "wf_json (JDict template)" and wfE: "wf_json existing"
    and run: "merge_with_template default_model template existing = Inr merged"
  shows "(\<forall>k \<in> {''allow'', ''deny'', ''ask''}. \<forall>P ts ex.
            map_of template ''permissions'' = Some (JDict P) \<and> map_of P k = Some (JList ts) \<and>
            existing = JDict ex \<and> list_or_absent (perm_entry ex k) \<longrightarrow>
              (\<exists>ms. perm_entry merged k = Some (JList ms) \<and> prefix ts ms))
       \<and> (\<forall>k \<in> {''defaultMode'', ''disableBypassPermissionsMode''}. \<forall>P v.
            map_of template ''permissions'' = Some (JDict P) \<and> map_of P k = Some v \<and>
            is_scalar v \<longrightarrow> perm_entry merged k = Some v)
       \<and> (\<forall>tv. map_of template ''env'' = Some (JDict tv) \<longrightarrow>
            (\<exists>me. map_of merged ''env'' = Some (JDict me) \<and> fst ` set tv \<subseteq> fst ` set me \<and>
                  (\<forall>k v. map_of tv k = Some v \<and> is_scalar v \<longrightarrow> map_of me k = Some v)))
       \<and> (\<forall>m. model_choice default_model = Some m \<longrightarrow> map_of merged ''model'' = Some (JStr m))"
proof (intro conjI ballI allI impI)
  fix k P ts ex
  assume "k \<in> {''allow'', ''deny'', ''ask''}"
    and "map_of template ''permissions'' = Some (JDict P) \<and> map_of P k = Some (JList ts) \<and>
         existing = JDict ex \<and> list_or_absent (perm_entry ex k)"
  then show "\<exists>ms. perm_entry merged k = Some (JList ms) \<and> prefix ts ms"
    using template_lists_present [OF wfE run] by blast
next
  fix k P v
  assume "k \<in> {''defaultMode'', ''disableBypassPermissionsMode''}"
    and "map_of template ''permissions'' = Some (JDict P) \<and> map_of P k = Some v \<and> is_scalar v"
  then show "perm_entry merged k = Some v"
    using template_scalars_win [OF wfE run] by blast
next
  fix tv
  assume "map_of template ''env'' = Some (JDict tv)"
  then show "\<exists>me. map_of merged ''env'' = Some (JDict me) \<and> fst ` set tv \<subseteq> fst ` set me \<and>
                  (\<forall>k v. map_of tv k = Some v \<and> is_scalar v \<longrightarrow> map_of me k = Some v)"
    by (rule template_env_wins [OF wfT wfE run])
next
  fix m
  assume "model_choice default_model = Some m"
  with merge_with_template_parts [OF run]
  show "map_of merged ''model'' = Some (JStr m)"
    by (auto simp: map_of_update_if)
qed

lemmas ex_merge =
  merge_with_template_def merge_env_def merge_permissions_def for_each_key.simps
  perm_list_step_def perm_scalar_step_def setdefault_def template_after_def model_choice_def
  MODEL_CHOICES_def perm_entry_def list_or_absent_def ex_template_def ex_existing_def
  ex_sonnet_template_def ex_sonnet_merged_def ex_string_existing_def ex_string_merged_def
  map_of_update_if Let_def py_in_def

lemma template_wins_example:
  "wf_json (JDict ex_sonnet_template) \<and> wf_json (JDict ex_existing)
   \<and> merge_with_template ''sonnet'' ex_sonnet_template (JDict ex_existing) = Inr ex_sonnet_merged
   \<and> perm_entry ex_existing ''allow'' = Some (JList [JStr ''Read''])
   \<and> perm_entry ex_sonnet_merged ''allow'' = Some (JList [JStr ''Read'', JStr ''Grep''])
   \<and> perm_entry ex_sonnet_merged ''defaultMode'' = Some (JStr ''plan'')
   \<and> map_of ex_sonnet_merged ''env'' = Some (JDict [(''AWS_PROFILE'', JStr ''dev'')])
   \<and> map_of ex_sonnet_merged ''model'' = Some (JStr ''us.anthropic.claude-sonnet-4-6'')"
proof -
  have wfT: "wf_json (JDict ex_sonnet_template)"
    by (simp add: ex_sonnet_template_def ex_template_def)
  have wfE: "wf_json (JDict ex_existing)"
    by (simp add: ex_existing_def)
  have run: "merge_with_template ''sonnet'' ex_sonnet_template (JDict ex_existing)
               = Inr ex_sonnet_merged"
    by (simp add: ex_merge)
  note inst = template_wins [OF wfT wfE run]
  have choice: "model_choice ''sonnet'' = Some ''us.anthropic.claude-sonnet-4-6''"
    by (simp add: model_choice_def MODEL_CHOICES_def)
  from inst [THEN conjunct2, THEN conjunct2, THEN conjunct2, rule_format, OF choice]
  have model: "map_of ex_sonnet_merged ''model'' = Some (JStr ''us.anthropic.claude-sonnet-4-6'')" .
  have "''defaultMode'' \<in> {''defaultMode'', ''disableBypassPermissionsMode''}" by simp
  from inst [THEN conjunct2, THEN conjunct1, rule_format, OF this,
             of "[(''allow'', JList [JStr ''Read'', JStr ''Grep'']), (''defaultMode'', JStr ''plan'')]"
                "JStr ''plan''"]
  have mode: "perm_entry ex_sonnet_merged ''defaultMode'' = Some (JStr ''plan'')"
    by (simp add: ex_sonnet_template_def ex_template_def map_of_update_if)
  from wfT wfE run model mode show ?thesis
    by (simp add: ex_existing_def ex_sonnet_merged_def perm_entry_def)
qed

text \<open>
  Claim C7 does not hold of the code for every installed document.  The comment at line
  455 announces that the template wins for \<open>env\<close> and \<open>permissions\<close>, and
  \<open>deep_merge_settings\<close> tests the types of both sides before it appends; the loop of
  lines 459 to 466 tests nothing.  With \<open>"permissions": {"allow": "Read Grep"}\<close>
  installed, the first merge puts the string in place of the template's list, the test
  \<open>item not in base_list\<close> is then a substring test that finds both \<open>Read\<close> and \<open>Grep\<close>,
  nothing is appended, and the merged \<open>allow\<close> entry is the string: there is no merged
  list, and the template's elements are no elements of it.  With \<open>"permissions": "off"\<close>
  installed, \<open>setdefault\<close> is called on a string and the merge ends in
  \<open>AttributeError\<close>.
\<close>

theorem template_list_lost:
  "wf_json (JDict ex_template) \<and> wf_json ex_string_existing
   \<and> perm_entry ex_template ''allow'' = Some (JList [JStr ''Read'', JStr ''Grep''])
   \<and> merge_with_template ''none'' ex_template ex_string_existing = Inr ex_string_merged
   \<and> perm_entry ex_string_merged ''allow'' = Some (JStr ''Read Grep'')
   \<and> merge_with_template ''none'' ex_template (JDict [(''permissions'', JStr ''off'')]) =
       Inl AttributeError"
  by (simp add: ex_merge)

section \<open>install_global_settings: an unreadable installed document\<close>

text \<open>
  The merge of a well-shaped template with the empty document always returns, and so
  does the check of the AWS profile.
\<close>

lemma list_or_absent_cases:
  "list_or_absent entry \<Longrightarrow> entry = None \<or> (\<exists>xs. entry = Some (JList xs))"
  by (cases entry) (auto simp: list_or_absent_def elim: is_list.elims)

lemma perm_list_step_total:
  assumes mp: "map_of m ''permissions'' = Some (JDict mp)"
    and pk: "list_or_absent (map_of P k)" and mk: "list_or_absent (map_of mp k)"
  shows "\<exists>m' mp'. perm_list_step (JDict P) m k = Inr m' \<and>
           map_of m' ''permissions'' = Some (JDict mp') \<and>
           (\<forall>k'. list_or_absent (map_of mp k') \<longrightarrow> list_or_absent (map_of mp' k'))"
proof (cases "map_of P k")
  case None
  with mp show ?thesis by (auto simp: perm_list_step_def)
next
  case (Some tv)
  with pk obtain ts where ts: "map_of P k = Some (JList ts)"
    using list_or_absent_cases by fastforce
  obtain bs mp1 where sd: "setdefault mp k (JList []) = (JList bs, mp1)"
    and mp1: "\<forall>k'. list_or_absent (map_of mp k') \<longrightarrow> list_or_absent (map_of mp1 k')"
    using list_or_absent_cases [OF mk]
    by (auto simp: setdefault_def map_of_update_if list_or_absent_def)
  from append_missing_list [of bs ts] obtain zs where
    ap: "append_missing (JList bs) ts = Inr (JList (bs @ zs))" by blast
  from mp ts sd ap have "perm_list_step (JDict P) m k =
      Inr (AList.update ''permissions'' (JDict (AList.update k (JList (bs @ zs)) mp1)) m)"
    by (simp add: perm_list_step_def setdefault_def)
  moreover have "\<forall>k'. list_or_absent (map_of mp k') \<longrightarrow>
      list_or_absent (map_of (AList.update k (JList (bs @ zs)) mp1) k')"
    using mp1 by (auto simp: map_of_update_if list_or_absent_def)
  ultimately show ?thesis by (auto simp: map_of_update_if)
qed

lemma perm_scalar_step_total:
  assumes mp: "map_of m ''permissions'' = Some (JDict mp)"
  shows "\<exists>m' mp'. perm_scalar_step (JDict P) m k = Inr m' \<and>
           map_of m' ''permissions'' = Some (JDict mp')"
proof (cases "map_of P k")
  case None
  with mp show ?thesis by (auto simp: perm_scalar_step_def)
next
  case (Some tv)
  with mp show ?thesis
    by (auto simp: perm_scalar_step_def setdefault_def map_of_update_if)
qed

lemma merge_permissions_total:
  assumes t: "template_ok t"
    and mp: "map_of t ''permissions'' = None \<or> (\<exists>mp. map_of m ''permissions'' = Some (JDict mp) \<and>
          list_or_absent (map_of mp ''allow'') \<and> list_or_absent (map_of mp ''deny'') \<and>
          list_or_absent (map_of mp ''ask''))"
  shows "\<exists>m'. merge_permissions t m = Inr m'"
proof (cases "map_of t ''permissions''")
  case None
  then show ?thesis by (simp add: merge_permissions_def)
next
  case (Some tp)
  with t obtain P where P: "tp = JDict P"
    and pl: "list_or_absent (map_of P ''allow'')" "list_or_absent (map_of P ''deny'')"
            "list_or_absent (map_of P ''ask'')"
    by (cases tp) (auto simp: template_ok_def)
  from mp Some obtain mp0 where
    0: "map_of m ''permissions'' = Some (JDict mp0)"
       "list_or_absent (map_of mp0 ''allow'')" "list_or_absent (map_of mp0 ''deny'')"
       "list_or_absent (map_of mp0 ''ask'')"
    by auto
  from perm_list_step_total [OF 0(1) pl(1) 0(2)] obtain m1 mp1 where
    1: "perm_list_step (JDict P) m ''allow'' = Inr m1" "map_of m1 ''permissions'' = Some (JDict mp1)"
       "\<forall>k'. list_or_absent (map_of mp0 k') \<longrightarrow> list_or_absent (map_of mp1 k')"
    by blast
  from perm_list_step_total [OF 1(2) pl(2)] 1(3) 0(3) obtain m2 mp2 where
    2: "perm_list_step (JDict P) m1 ''deny'' = Inr m2" "map_of m2 ''permissions'' = Some (JDict mp2)"
       "\<forall>k'. list_or_absent (map_of mp1 k') \<longrightarrow> list_or_absent (map_of mp2 k')"
    by blast
  from perm_list_step_total [OF 2(2) pl(3)] 2(3) 1(3) 0(4) obtain m3 mp3 where
    3: "perm_list_step (JDict P) m2 ''ask'' = Inr m3" "map_of m3 ''permissions'' = Some (JDict mp3)"
    by blast
  from perm_scalar_step_total [OF 3(2)] obtain m4 mp4 where
    4: "perm_scalar_step (JDict P) m3 ''defaultMode'' = Inr m4"
       "map_of m4 ''permissions'' = Some (JDict mp4)"
    by blast
  from perm_scalar_step_total [OF 4(2)] obtain m5 where
    5: "perm_scalar_step (JDict P) m4 ''disableBypassPermissionsMode'' = Inr m5"
    by blast
  from Some P 1 2 3 4 5 show ?thesis
    by (simp add: merge_permissions_def)
qed

lemma merge_empty_total:
  assumes t: "template_ok t"
  shows "\<exists>merged. merge_with_template dm t (JDict []) = Inr merged"
proof -
  have "\<exists>m1. merge_env t t = Inr m1 \<and> map_of m1 ''permissions'' = map_of t ''permissions''"
    using t by (auto simp: merge_env_def template_ok_def map_of_update_if
                  split: option.splits json.splits)
  then obtain m1 where 1: "merge_env t t = Inr m1"
    and p: "map_of m1 ''permissions'' = map_of t ''permissions''" by blast
  have "map_of t ''permissions'' = None \<or> (\<exists>mp. map_of m1 ''permissions'' = Some (JDict mp) \<and>
          list_or_absent (map_of mp ''allow'') \<and> list_or_absent (map_of mp ''deny'') \<and>
          list_or_absent (map_of mp ''ask''))"
    using t p by (auto simp: template_ok_def split: option.splits json.splits)
  from merge_permissions_total [OF t this] obtain m2 where "merge_permissions t m1 = Inr m2"
    by blast
  with 1 show ?thesis by (simp add: merge_with_template_def)
qed

lemma load_existing_malformed:
  assumes present: "lookup_file e w (CLAUDE_SETTINGS e) = Some b"
    and bad: "loads e b = Inl JSONDecodeError"
    and noalias: "resolve e (backup_path (CLAUDE_SETTINGS e) (clock e (ticks w))) \<noteq>
                  resolve e (CLAUDE_SETTINGS e)"
  shows "load_existing e w lg =
           Inr (JDict [],
                w\<lparr>files := AList.update
                              (resolve e (backup_path (CLAUDE_SETTINGS e) (clock e (ticks w)))) b
                              (files w),
                  ticks := Suc (ticks w),
                  trace := trace w @ [Copy (CLAUDE_SETTINGS e)
                                       (backup_path (CLAUDE_SETTINGS e) (clock e (ticks w)))]\<rparr>,
                lg @ [(''warning'', ''~/.claude/settings.json (malformed JSON, backed up -> '' @
                         abs_str (backup_path (CLAUDE_SETTINGS e) (clock e (ticks w))) @ '')'')])"
  using assms
  by (auto simp: load_existing_def path_exists_def read_bytes_def backup_file_def copy2_def
        lookup_file_def Let_def)

lemma py_eq_empty_dict: "py_eq (JDict []) (JDict m) = (m = [])"
  by simp

lemma write_settings_empty:
  "write_settings e w (JDict []) merged lg =
     Inr (if merged = [] then (w, lg @ [(''current'', ''~/.claude/settings.json'')])
          else (write_text e w (CLAUDE_SETTINGS e) (dumps e (JDict merged)),
                lg @ [(''installed'', ''~/.claude/settings.json'')]))"
  by (simp add: write_settings_def)

lemma warn_aws_profile_total:
  assumes "template_ok t"
  shows "\<exists>extra. warn_aws_profile e w t lg = Inr (lg @ extra)"
  using assms
  by (auto simp: warn_aws_profile_def template_ok_def Let_def split: option.splits json.splits)

text \<open>
  The exception that \<open>except json.JSONDecodeError\<close> catches.  Let the template file
  parse to a mapping (\<open>template\<close> being what line 439 leaves of it), let
  \<open>~/.claude/settings.json\<close> exist with bytes \<open>b\<close> on which the read raises
  \<open>JSONDecodeError\<close>, and let the backup path not resolve to the settings path itself.
  Then reading the installed document returns the empty mapping, in a world where \<open>b\<close> has been copied to
  \<open>settings.json.bak.<timestamp>\<close>, with one more log entry: a \<open>warning\<close> that names
  the backup.  For a template of the expected shape the merge with the empty mapping
  returns a document \<open>merged\<close>, no exception is raised up to the installation of the
  status line, and the run goes on to it: in a world \<open>w2\<close> that still holds \<open>b\<close> at the
  backup path and holds the dump of \<open>merged\<close> at the settings path (or \<open>b\<close>, should
  \<open>merged\<close> be empty), with the \<open>warning\<close> first in the new part of the log.
\<close>

lemma malformed_settings_recovered:
  assumes tpl: "lookup_file e w (HOME_SETTINGS_JSON e) = Some tb" "loads e tb = Inr tj"
               "inject_model dm tj = Inr template"
    and present: "lookup_file e w (CLAUDE_SETTINGS e) = Some b"
    and bad: "loads e b = Inl JSONDecodeError"
    and noalias: "resolve e (backup_path (CLAUDE_SETTINGS e) (clock e (ticks w))) \<noteq>
                  resolve e (CLAUDE_SETTINGS e)"
    and ok: "template_ok template"
  shows "\<exists>merged w2 extra.
           load_existing e w lg =
             Inr (JDict [],
                  w\<lparr>files := AList.update
                              (resolve e (backup_path (CLAUDE_SETTINGS e) (clock e (ticks w)))) b
                              (files w),
                    ticks := Suc (ticks w),
                    trace := trace w @ [Copy (CLAUDE_SETTINGS e)
                                         (backup_path (CLAUDE_SETTINGS e) (clock e (ticks w)))]\<rparr>,
                  lg @ [(''warning'', ''~/.claude/settings.json (malformed JSON, backed up -> '' @
                           abs_str (backup_path (CLAUDE_SETTINGS e) (clock e (ticks w))) @ '')'')])
         \<and> merge_with_template dm template (JDict []) = Inr merged
         \<and> lookup_file e w2 (backup_path (CLAUDE_SETTINGS e) (clock e (ticks w))) = Some b
         \<and> lookup_file e w2 (CLAUDE_SETTINGS e) =
             Some (if merged = [] then b else dumps e (JDict merged))
         \<and> install_global_settings e w dm lg =
             install_statusline e w2
               (lg @ [(''warning'', ''~/.claude/settings.json (malformed JSON, backed up -> '' @
                         abs_str (backup_path (CLAUDE_SETTINGS e) (clock e (ticks w))) @ '')''),
                      (if merged = [] then ''current'' else ''installed'',
                       ''~/.claude/settings.json'')] @ extra)"
proof -
  let ?bak = "backup_path (CLAUDE_SETTINGS e) (clock e (ticks w))"
  let ?w1 = "w\<lparr>files := AList.update (resolve e ?bak) b (files w), ticks := Suc (ticks w),
                trace := trace w @ [Copy (CLAUDE_SETTINGS e) ?bak]\<rparr>"
  let ?lg1 = "lg @ [(''warning'', ''~/.claude/settings.json (malformed JSON, backed up -> '' @
                         abs_str ?bak @ '')'')]"
  have load: "load_existing e w lg = Inr (JDict [], ?w1, ?lg1)"
    by (rule load_existing_malformed [OF present bad noalias])
  from merge_empty_total [OF ok] obtain merged where
    merge: "merge_with_template dm template (JDict []) = Inr merged" by blast
  let ?w2 = "if merged = [] then ?w1
             else write_text e ?w1 (CLAUDE_SETTINGS e) (dumps e (JDict merged))"
  let ?lg2 = "?lg1 @ [(if merged = [] then ''current'' else ''installed'',
                       ''~/.claude/settings.json'')]"
  have wr: "write_settings e ?w1 (JDict []) merged ?lg1 = Inr (?w2, ?lg2)"
    by (simp add: write_settings_empty)
  have ta: "template_after template (JDict []) = template"
    by (simp add: template_after_def)
  from warn_aws_profile_total [OF ok, of e ?w2 ?lg2] obtain extra where
    aws: "warn_aws_profile e ?w2 template ?lg2 = Inr (?lg2 @ extra)" by blast
  have run: "install_global_settings e w dm lg = install_statusline e ?w2 (?lg2 @ extra)"
    using tpl load merge wr aws ta
    by (simp add: install_global_settings_def read_json_def)
  have bak: "lookup_file e ?w2 ?bak = Some b"
    using noalias by (simp add: lookup_file_def write_text_def map_of_update_if)
  have cur: "lookup_file e ?w2 (CLAUDE_SETTINGS e) =
               Some (if merged = [] then b else dumps e (JDict merged))"
    using noalias present by (simp add: lookup_file_def write_text_def map_of_update_if)
  from load merge bak cur run show ?thesis
    by (intro exI [of _ merged] exI [of _ ?w2] exI [of _ extra]) simp
qed

lemmas ex_settings =
  ex_malformed_world_def ex_backed_up_world_def ex_recovered_world_def ex_recovered_log_def
  ex_settings_path_def ex_settings_backup_def CLAUDE_SETTINGS_def CLAUDE_HOME_def
  HOME_SETTINGS_JSON_def HOME_DIR_def HOME_STATUSLINE_def ex_loads_def abs_str_def

lemma malformed_settings_recovered_example:
  "lookup_file ex_env ex_malformed_world (HOME_SETTINGS_JSON ex_env) = Some (render (JDict ex_template))
   \<and> loads ex_env (render (JDict ex_template)) = Inr (JDict ex_template)
   \<and> inject_model ''sonnet'' (JDict ex_template) = Inr ex_sonnet_template
   \<and> lookup_file ex_env ex_malformed_world (CLAUDE_SETTINGS ex_env) = Some ''{oops''
   \<and> loads ex_env ''{oops'' = Inl JSONDecodeError
   \<and> template_ok ex_sonnet_template
   \<and> load_existing ex_env ex_malformed_world [] =
       Inr (JDict [], ex_backed_up_world, [hd ex_recovered_log])
   \<and> merge_with_template ''sonnet'' ex_sonnet_template (JDict []) = Inr ex_sonnet_merged
   \<and> install_global_settings ex_env ex_malformed_world ''sonnet'' [] =
       Inr (ex_recovered_world, ex_recovered_log)"
proof -
  have t1: "lookup_file ex_env ex_malformed_world (HOME_SETTINGS_JSON ex_env) =
              Some (render (JDict ex_template))"
    by (simp add: lookup_file_def ex_settings ex_paths)
  have t2: "loads ex_env (render (JDict ex_template)) = Inr (JDict ex_template)"
    by (simp add: ex_env_def ex_loads_def ex_template_def)
  have t3: "inject_model ''sonnet'' (JDict ex_template) = Inr ex_sonnet_template"
    by (simp add: inject_model_def model_choice_def MODEL_CHOICES_def ex_sonnet_template_def)
  have present: "lookup_file ex_env ex_malformed_world (CLAUDE_SETTINGS ex_env) = Some ''{oops''"
    by (simp add: lookup_file_def ex_settings ex_paths)
  have bad: "loads ex_env ''{oops'' = Inl JSONDecodeError"
    by (simp add: ex_env_def ex_loads_def ex_template_def ex_existing_def)
  have noalias: "resolve ex_env (backup_path (CLAUDE_SETTINGS ex_env)
                                  (clock ex_env (ticks ex_malformed_world))) \<noteq>
                 resolve ex_env (CLAUDE_SETTINGS ex_env)"
    by (simp add: ex_settings ex_paths)
  have ok: "template_ok ex_sonnet_template"
    by (simp add: template_ok_def list_or_absent_def ex_sonnet_template_def ex_template_def
          map_of_update_if)
  from malformed_settings_recovered [OF t1 t2 t3 present bad noalias ok, of "[]"]
  have load: "load_existing ex_env ex_malformed_world [] =
                Inr (JDict [], ex_backed_up_world, [hd ex_recovered_log])"
    by (elim exE conjE) (simp add: ex_settings ex_paths)
  have merge: "merge_with_template ''sonnet'' ex_sonnet_template (JDict []) = Inr ex_sonnet_merged"
    by (simp add: ex_merge)
  have wr: "write_settings ex_env ex_backed_up_world (JDict []) ex_sonnet_merged
              [hd ex_recovered_log] =
            Inr (ex_recovered_world, take 2 ex_recovered_log)"
    by (simp add: write_settings_def ex_files ex_settings ex_sonnet_merged_def ex_paths)
  have aws: "warn_aws_profile ex_env ex_recovered_world
               (template_after ex_sonnet_template (JDict [])) (take 2 ex_recovered_log) =
             Inr ex_recovered_log"
    by (simp add: warn_aws_profile_def template_after_def check_aws_profile_def py_format_def
          lookup_file_def ex_settings ex_sonnet_template_def ex_template_def map_of_update_if
          ex_paths)
  have sl: "install_statusline ex_env ex_recovered_world ex_recovered_log =
              Inr (ex_recovered_world, ex_recovered_log)"
    by (simp add: install_statusline_def path_exists_def lookup_file_def ex_settings ex_paths)
  have run: "install_global_settings ex_env ex_malformed_world ''sonnet'' [] =
               Inr (ex_recovered_world, ex_recovered_log)"
    using t1 t2 t3 load merge wr aws sl
    by (simp add: install_global_settings_def read_json_def)
  from t1 t2 t3 present bad ok load merge run show ?thesis
    by simp
qed

text \<open>
  Claim C8 does not hold of the code for every document that fails to parse.  On a
  machine whose \<open>~/.claude/settings.json\<close> holds the document \<open>{}\<close> saved in UTF-16,
  \<open>read_text(encoding="utf-8")\<close> raises \<open>UnicodeDecodeError\<close>, which
  \<open>except json.JSONDecodeError\<close> at line 447 does not catch: no backup is made, no
  \<open>warning\<close> is logged, and \<open>install_global_settings\<close>, and with it the run, ends in the
  exception.
\<close>

theorem undecodable_settings_abort:
  "lookup_file ex_env ex_utf16_world (CLAUDE_SETTINGS ex_env) = Some ex_utf16
   \<and> loads ex_env ex_utf16 = Inl UnicodeDecodeError
   \<and> load_existing ex_env ex_utf16_world [] = Inl UnicodeDecodeError
   \<and> install_global_settings ex_env ex_utf16_world ''sonnet'' [] = Inl UnicodeDecodeError
   \<and> run_install ex_env ex_utf16_installed
         (ex_app\<lparr>app_selected_rules := {''security.md''}\<rparr>) = Inl UnicodeDecodeError"
proof -
  have run: "run_install ex_env ex_utf16_installed
               (ex_app\<lparr>app_selected_rules := {''security.md''}\<rparr>) = Inl UnicodeDecodeError"
    by (simp add: ex_run ex_utf16_installed_def ex_settings_path_def CLAUDE_SETTINGS_def
          load_existing_def inject_model_def model_choice_def ex_loads_def ex_template_def
          ex_utf16_def)
  have present: "lookup_file ex_env ex_utf16_world (CLAUDE_SETTINGS ex_env) = Some ex_utf16"
    by (simp add: lookup_file_def ex_utf16_world_def ex_settings ex_paths)
  have bad: "loads ex_env ex_utf16 = Inl UnicodeDecodeError"
    by (simp add: ex_env_def ex_loads_def ex_utf16_def)
  have load: "load_existing ex_env ex_utf16_world [] = Inl UnicodeDecodeError"
    using present bad by (simp add: load_existing_def path_exists_def read_bytes_def)
  have tpl: "read_json ex_env ex_utf16_world (HOME_SETTINGS_JSON ex_env) = Inr (JDict ex_template)"
    by (simp add: read_json_def lookup_file_def ex_utf16_world_def ex_settings ex_template_def
          ex_paths)
  have inj: "inject_model ''sonnet'' (JDict ex_template) = Inr ex_sonnet_template"
    by (simp add: inject_model_def model_choice_def MODEL_CHOICES_def ex_sonnet_template_def)
  from present bad load tpl inj run show ?thesis
    by (simp add: install_global_settings_def)
qed

section \<open>deep_merge_settings on objects: what becomes of the base\<close>

subsection \<open>The store\<close>


















subsection \<open>What a call leaves of the store\<close>










subsection \<open>Lists of numbers and strings\<close>












subsection \<open>The call returns\<close>




subsection \<open>The base after the call\<close>


lemmas ex_store = ex_heap_def ex_heap_inner_def ex_heap_outer_def lookup_def hp_round_def
  hp_get_def hp_setitem_def entries_of_def items_of_def scalar_eq_def obj_eq_def
  value_ok_def flat_lists_def scalar_in_def nth_append


text \<open>
  On the two documents of the example the store and the value model agree: read
  through the store, the result is \<open>deep_merge_settings\<close> of the two documents, and the
  base document has become what \<open>deep_merge_base\<close> says.
\<close>

lemma hp_merge_agrees_example:
  "hp_merge 2 ex_heap 2 5 = Inr (ex_heap_outer, 6)
   \<and> denote 3 ex_heap (VRef 2) =
       Some (JDict [(''model'', JStr ''y''),
                    (''permissions'', JDict [(''allow'', JList [JStr ''Read'']),
                                             (''defaultMode'', JStr ''plan'')])])
   \<and> denote 3 ex_heap (VRef 5) =
       Some (JDict [(''permissions'', JDict [(''allow'', JList [JStr ''Read'', JStr ''Grep''])]),
                    (''model'', JStr ''x'')])
   \<and> denote 3 ex_heap_outer (VRef 6) =
       Some (JDict (deep_merge_settings
               [(''model'', JStr ''y''),
                (''permissions'', JDict [(''allow'', JList [JStr ''Read'']),
                                         (''defaultMode'', JStr ''plan'')])]
               [(''permissions'', JDict [(''allow'', JList [JStr ''Read'', JStr ''Grep''])]),
                (''model'', JStr ''x'')]))
   \<and> denote 3 ex_heap_outer (VRef 2) =
       Some (JDict (deep_merge_base
               [(''model'', JStr ''y''),
                (''permissions'', JDict [(''allow'', JList [JStr ''Read'']),
                                         (''defaultMode'', JStr ''plan'')])]
               [(''permissions'', JDict [(''allow'', JList [JStr ''Read'', JStr ''Grep''])]),
                (''model'', JStr ''x'')]))"
  by (simp add: ex_store py_in_def numeral_3_eq_3 numeral_2_eq_2)

end
